(* ===== verification/Hub_Prelude.thy ===== *)
theory Hub_Prelude
  imports Main "HOL-Library.Word" "HOL-Library.AList"
begin

text \<open>
  Shared vocabulary of the development: the machine integers of the Go code, Go's clock and
  durations, Go's error values, Go maps as association lists in their (arbitrary) iteration
  order, and the byte-slice helpers every component uses. The collection \<open>hub_simps\<close> gathers
  the unfoldings that the component proofs share.
\<close>

named_theorems hub_simps \<open>unfoldings shared by the component proofs\<close>

section \<open>Machine integers and byte slices\<close>

type_synonym byte = "8 word"
type_synonym u16 = "16 word"
type_synonym u32 = "32 word"
type_synonym u64 = "64 word"
type_synonym i32 = "32 word"

text \<open>Go's \<open>make([]byte, n)\<close>, and \<open>copy(dst[i:], src)\<close> cut off at the end of \<open>dst\<close>.\<close>

definition go_make :: "nat \<Rightarrow> byte list" where
  "go_make n = replicate n 0"

definition go_copy :: "byte list \<Rightarrow> nat \<Rightarrow> byte list \<Rightarrow> byte list" where
  "go_copy dst i src = take i dst @ take (length dst - i) src @ drop (i + length src) dst"

text \<open>The slice expression \<open>xs[i:j]\<close> for bounds inside the slice.\<close>

definition slice :: "nat \<Rightarrow> nat \<Rightarrow> 'a list \<Rightarrow> 'a list" where
  "slice i j xs = take (j - i) (drop i xs)"

lemma length_go_make [simp]: "length (go_make n) = n"
  by (simp add: go_make_def)

lemma length_go_copy [simp]: "length (go_copy dst i src) = length dst"
  by (auto simp: go_copy_def)

lemma length_slice [simp]: "length (slice i j xs) = min (j - i) (length xs - i)"
  by (simp add: slice_def min.commute)

lemma go_copy_fits:
  "i + length src \<le> length dst \<Longrightarrow>
     go_copy dst i src = take i dst @ src @ drop (i + length src) dst"
  by (simp add: go_copy_def)

lemma slice_append_left: "j \<le> length xs \<Longrightarrow> slice i j (xs @ ys) = slice i j xs"
  by (auto simp: slice_def)

lemma slice_append_right:
  "length xs = i \<Longrightarrow> length ys = j - i \<Longrightarrow> slice i j (xs @ ys @ zs) = ys"
  by (simp add: slice_def)

text \<open>Reading back what \<open>copy\<close> wrote, and not disturbing the rest of the buffer.\<close>

lemma slice_go_copy_same:
  assumes "i + length src \<le> length dst" and "j = i + length src"
  shows "slice i j (go_copy dst i src) = src"
  using assms by (simp add: go_copy_fits slice_def)

lemma nth_go_copy:
  assumes "i + length src \<le> length dst" and "k < length dst"
  shows "go_copy dst i src ! k = (if i \<le> k \<and> k < i + length src then src ! (k - i) else dst ! k)"
  using assms by (auto simp: go_copy_fits nth_append)

text \<open>\<open>binary.LittleEndian.PutUint16/Uint16\<close> and \<open>PutUint32/Uint32\<close>.\<close>

definition le16 :: "u16 \<Rightarrow> byte list" where
  "le16 w = [ucast w, ucast (drop_bit 8 w)]"

definition of_le16 :: "byte \<Rightarrow> byte \<Rightarrow> u16" where
  "of_le16 a b = or (ucast a) (push_bit 8 (ucast b))"

definition le32 :: "u32 \<Rightarrow> byte list" where
  "le32 w = [ucast w, ucast (drop_bit 8 w), ucast (drop_bit 16 w), ucast (drop_bit 24 w)]"

definition of_le32 :: "byte list \<Rightarrow> u32" where
  "of_le32 bs = or (or (ucast (bs ! 0)) (push_bit 8 (ucast (bs ! 1))))
                   (or (push_bit 16 (ucast (bs ! 2))) (push_bit 24 (ucast (bs ! 3))))"

lemma length_le16 [simp]: "length (le16 w) = 2"
  by (simp add: le16_def)

lemma length_le32 [simp]: "length (le32 w) = 4"
  by (simp add: le32_def)

lemma of_le16_le16: "of_le16 (ucast w) (ucast (drop_bit 8 w)) = w"
  by (rule bit_word_eqI) (auto simp: of_le16_def bit_simps)

lemma of_le32_le32: "of_le32 (le32 w) = w"
proof (rule bit_word_eqI)
  fix n assume n: "n < LENGTH(32)"
  then consider "n < 8" | "8 \<le> n \<and> n < 16" | "16 \<le> n \<and> n < 24" | "24 \<le> n \<and> n < 32"
    by fastforce
  then show "bit (of_le32 (le32 w)) n = bit w n"
    by cases (auto simp: of_le32_def le32_def bit_simps)
qed

lemma byte_le_255: "unat (b :: byte) \<le> 255"
proof -
  have "unat b < 2 ^ LENGTH(8)" by (rule unsigned_less)
  then show ?thesis by simp
qed

lemma of_nat_unat_same: "of_nat (unat (w :: 'a :: len word)) = w"
  by simp

lemma word_pos_unat: "(w :: 'a :: len word) \<noteq> 0 \<Longrightarrow> 1 \<le> unat w"
  by (simp add: Suc_le_eq unat_gt_0)

section \<open>Time\<close>

text \<open>
  A \<open>time.Time\<close> is the number of nanoseconds since Go's zero time (year 1), so the zero value
  is 0 and \<open>IsZero\<close> is equality with it. A \<open>time.Duration\<close> is an int64 of nanoseconds;
  \<open>t.Sub(u)\<close> (and so \<open>time.Since\<close>) saturates at its bounds. The clock reading
  \<open>time.Now()\<close> is an argument of every operation that reads it.
\<close>

type_synonym time = int
type_synonym duration = int

definition time_zero :: time where
  "time_zero = 0"

definition is_zero :: "time \<Rightarrow> bool" where
  "is_zero t \<longleftrightarrow> t = 0"

definition second :: duration where
  "second = 1000000000"

definition millisecond :: duration where
  "millisecond = 1000000"

text \<open>A product of two durations is an int64 product and wraps around.\<close>

definition wrap64 :: "int \<Rightarrow> int" where
  "wrap64 k = sint (word_of_int k :: 64 word)"

lemma wrap64_id: "- (2 ^ 63) \<le> k \<Longrightarrow> k < 2 ^ 63 \<Longrightarrow> wrap64 k = k"
  by (simp add: wrap64_def signed_of_int signed_take_bit_int_eq_self)

definition time_sub :: "time \<Rightarrow> time \<Rightarrow> duration" where
  "time_sub t u = max (- (2 ^ 63)) (min (2 ^ 63 - 1) (t - u))"

definition since :: "time \<Rightarrow> time \<Rightarrow> duration" where
  "since now t = time_sub now t"

text \<open>Seconds between year 1 and the Unix epoch; \<open>Unix()\<close> and \<open>time.Unix(sec, 0)\<close>.\<close>

definition unix_epoch :: int where
  "unix_epoch = 62135596800"

definition to_unix :: "time \<Rightarrow> int" where
  "to_unix t = t div 1000000000 - unix_epoch"

definition of_unix :: "int \<Rightarrow> time" where
  "of_unix s = (s + unix_epoch) * 1000000000"

lemma since_self [simp]: "since t t = 0"
  by (simp add: since_def time_sub_def)

lemma since_nonneg: "t \<le> now \<Longrightarrow> 0 \<le> since now t"
  by (simp add: since_def time_sub_def)

lemma since_le_iff:
  "0 \<le> d \<Longrightarrow> d < 2 ^ 63 - 1 \<Longrightarrow> since now t \<le> d \<longleftrightarrow> now - t \<le> d"
  by (auto simp: since_def time_sub_def min_def max_def)

lemma since_less_iff:
  "0 < d \<Longrightarrow> d \<le> 2 ^ 63 - 1 \<Longrightarrow> since now t < d \<longleftrightarrow> now - t < d"
  by (auto simp: since_def time_sub_def min_def max_def)

lemma of_unix_to_unix: "of_unix (to_unix t) = t - t mod 1000000000"
proof -
  have "t div 1000000000 * 1000000000 = t - t mod 1000000000"
    by (simp add: minus_mod_eq_div_mult)
  then show ?thesis by (simp add: of_unix_def to_unix_def)
qed

lemma to_unix_of_unix [simp]: "to_unix (of_unix s) = s"
  by (simp add: of_unix_def to_unix_def)

section \<open>Errors\<close>

text \<open>
  A Go \<open>error\<close> is its message; \<open>nil\<close> is \<open>None\<close>. A run-time panic (a send on or a close of a
  closed channel) is kept apart from an error return, because it unwinds the goroutine.
\<close>

type_synonym go_error = string

datatype 'a outcome = Ret 'a | Panic string

text \<open>The value of a two-valued Go result \<open>(v, err)\<close>, when there is one.\<close>

definition ok :: "'e + 'a \<Rightarrow> 'a option" where
  "ok r = (case r of Inl e \<Rightarrow> None | Inr v \<Rightarrow> Some v)"

lemma ok_simps [simp]: "ok (Inl e) = None" "ok (Inr v) = Some v"
  by (simp_all add: ok_def)

lemma ok_Some_iff: "ok r = Some v \<longleftrightarrow> r = Inr v"
  by (cases r) auto

lemma find_SomeD: "find P xs = Some x \<Longrightarrow> x \<in> set xs \<and> P x"
  by (induction xs) (auto split: if_splits)

text \<open>A loop that stores entry after entry keeps what each single step keeps.\<close>

lemma fold_invariant_step:
  "(\<And>e s. e \<in> set es \<Longrightarrow> I s \<Longrightarrow> I (step e s)) \<Longrightarrow> I s \<Longrightarrow> I (fold step es s)"
  by (induction es arbitrary: s) auto

section \<open>Go maps\<close>

text \<open>
  A Go map is an association list with distinct keys. Iteration (\<open>for k, v := range m\<close>) follows
  the list; Go leaves that order open, so a result that is claimed for a map is either stated
  for every such list or proved independent of the order.
\<close>

type_synonym ('k, 'v) gomap = "('k \<times> 'v) list"

definition keys_distinct :: "('k, 'v) gomap \<Rightarrow> bool" where
  "keys_distinct m \<longleftrightarrow> distinct (map fst m)"

text \<open>
  The interface the registries rely on: lookups after insert and delete, the well-formedness
  every operation keeps, and iteration that meets each binding exactly once.
\<close>

locale go_map =
  fixes lookup :: "'m \<Rightarrow> 'k \<Rightarrow> 'v option"
    and put :: "'k \<Rightarrow> 'v \<Rightarrow> 'm \<Rightarrow> 'm"
    and del :: "'k \<Rightarrow> 'm \<Rightarrow> 'm"
    and entries :: "'m \<Rightarrow> ('k \<times> 'v) list"
    and wf :: "'m \<Rightarrow> bool"
  assumes wf_put: "wf m \<Longrightarrow> wf (put k v m)"
    and wf_del: "wf m \<Longrightarrow> wf (del k m)"
    and lookup_put: "lookup (put k v m) = (lookup m)(k \<mapsto> v)"
    and lookup_del: "lookup (del k m) = (lookup m)(k := None)"
    and entries_lookup: "wf m \<Longrightarrow> (k, v) \<in> set (entries m) \<longleftrightarrow> lookup m k = Some v"
    and entries_distinct: "wf m \<Longrightarrow> distinct (map fst (entries m))"
begin

lemma keys_entries: "wf m \<Longrightarrow> fst ` set (entries m) = dom (lookup m)"
  by (auto simp: entries_lookup dom_def) (metis entries_lookup fst_conv image_eqI)

text \<open>The number of iterations is the number of keys, and an insert changes it by at most one.\<close>

lemma length_entries: "wf m \<Longrightarrow> length (entries m) = card (dom (lookup m))"
  using distinct_card [OF entries_distinct, of m] by (simp add: keys_entries)

lemma finite_dom: "wf m \<Longrightarrow> finite (dom (lookup m))"
  by (simp flip: keys_entries)

lemma length_entries_put:
  assumes "wf m"
  shows "length (entries (put k v m)) =
     (if lookup m k = None then Suc (length (entries m)) else length (entries m))"
proof -
  have "length (entries (put k v m)) = card (insert k (dom (lookup m)))"
    using assms by (simp add: length_entries wf_put lookup_put)
  then show ?thesis
    using assms finite_dom [OF assms] by (simp add: length_entries domIff insert_absorb)
qed

text \<open>A store that is filled entry by entry holds the last entry of each key.\<close>

lemma lookup_fold_put:
  "lookup (fold (\<lambda>(k, v). put k v) es m) = lookup m ++ map_of (rev es)"
proof (induction es arbitrary: m)
  case Nil
  then show ?case by simp
next
  case (Cons e es)
  then show ?case by (cases e) (auto simp: lookup_put fun_eq_iff map_add_def split: option.splits)
qed

lemma wf_fold_put: "wf m \<Longrightarrow> wf (fold (\<lambda>(k, v). put k v) es m)"
  by (induction es arbitrary: m) (auto simp: wf_put)

text \<open>
  A search that at most one binding satisfies finds it whatever the iteration order: two
  stores with the same bindings give the same answer.
\<close>

lemma find_unique:
  assumes wf: "wf m" and b: "lookup m k = Some v" and p: "P v"
    and uniq: "\<And>k' v'. lookup m k' = Some v' \<Longrightarrow> P v' \<Longrightarrow> k' = k"
  shows "find (\<lambda>e. P (snd e)) (entries m) = Some (k, v)"
proof (cases "find (\<lambda>e. P (snd e)) (entries m)")
  case None
  then show ?thesis using wf b p by (fastforce simp: find_None_iff simp flip: entries_lookup)
next
  case (Some e)
  then have "e \<in> set (entries m)" and "P (snd e)"
    by (auto simp: find_Some_iff)
  then have "lookup m (fst e) = Some (snd e)" using wf by (simp flip: entries_lookup)
  moreover from this \<open>P (snd e)\<close> have "fst e = k" by (rule uniq)
  ultimately have "e = (k, v)" using b by (cases e) simp
  with Some show ?thesis by simp
qed

lemma find_none:
  "wf m \<Longrightarrow> (\<And>k v. lookup m k = Some v \<Longrightarrow> \<not> P v) \<Longrightarrow> find (\<lambda>e. P (snd e)) (entries m) = None"
  by (auto simp: find_None_iff entries_lookup)

lemma find_some_lookup:
  "wf m \<Longrightarrow> find (\<lambda>e. P (snd e)) (entries m) = Some (k, v) \<Longrightarrow> lookup m k = Some v \<and> P v"
  by (auto simp: find_Some_iff simp flip: entries_lookup) (metis nth_mem snd_conv)+

end

lemma AList_delete_set: "set (AList.delete k m) = {e \<in> set m. fst e \<noteq> k}"
  by (induction m) auto

interpretation gm: go_map map_of AList.update AList.delete "\<lambda>m. m" keys_distinct
proof unfold_locales
  fix m :: "('k, 'v) gomap" and k v
  show "keys_distinct m \<Longrightarrow> keys_distinct (AList.update k v m)"
    by (simp add: keys_distinct_def distinct_update)
  show "keys_distinct m \<Longrightarrow> keys_distinct (AList.delete k m)"
    by (simp add: keys_distinct_def distinct_delete)
  show "map_of (AList.update k v m) = (map_of m)(k \<mapsto> v)"
    by (rule ext) (simp add: update_conv)
  show "map_of (AList.delete k m) = (map_of m)(k := None)"
    by (rule delete_conv')
  show "keys_distinct m \<Longrightarrow> (k, v) \<in> set m \<longleftrightarrow> map_of m k = Some v"
    by (simp add: keys_distinct_def)
  show "keys_distinct m \<Longrightarrow> distinct (map fst m)"
    by (simp add: keys_distinct_def)
qed

lemma keys_distinct_empty [simp]: "keys_distinct []"
  by (simp add: keys_distinct_def)

lemmas gomap_simps = gm.lookup_put gm.lookup_del gm.wf_put gm.wf_del

text \<open>Updating one entry in place through its pointer: nothing happens when the key is absent.\<close>

definition adjust :: "'k \<Rightarrow> ('v \<Rightarrow> 'v) \<Rightarrow> ('k, 'v) gomap \<Rightarrow> ('k, 'v) gomap" where
  "adjust k f m = map (\<lambda>(k', v). (k', if k' = k then f v else v)) m"

lemma keys_adjust [simp]: "map fst (adjust k f m) = map fst m"
  by (induction m) (auto simp: adjust_def)

lemma keys_distinct_adjust [simp]: "keys_distinct (adjust k f m) = keys_distinct m"
  by (simp add: keys_distinct_def)

lemma length_adjust [simp]: "length (adjust k f m) = length m"
  by (simp add: adjust_def)

lemma lookup_adjust:
  "map_of (adjust k f m) k' = (if k' = k then map_option f (map_of m k) else map_of m k')"
  by (induction m) (auto simp: adjust_def)

end
