(* ===== verification/Go_Strings.thy ===== *)
theory Go_Strings
  imports Hub_Prelude
begin

text \<open>
  The parts of Go's standard library the code uses on strings: lower-case hexadecimal printing
  (\<open>%02x\<close>, \<open>hex.EncodeToString\<close>), \<open>hex.DecodeString\<close>, \<open>fmt.Sscanf\<close> with the format
  \<open>%02x:%02x:...\<close>, \<open>strconv.ParseUint\<close> and \<open>Atoi\<close>, and the \<open>strings\<close> functions. A string is the
  list of its bytes; \<open>ToLower\<close>, \<open>ToUpper\<close> and white space are those of ASCII.
\<close>

section \<open>Hexadecimal\<close>

definition hex_digit :: "nat \<Rightarrow> char" where
  "hex_digit n = (if n < 10 then char_of (48 + n) else char_of (87 + n))"

definition hex_val :: "char \<Rightarrow> nat option" where
  "hex_val c = (let n = of_char c :: nat in
     if 48 \<le> n \<and> n \<le> 57 then Some (n - 48)
     else if 97 \<le> n \<and> n \<le> 102 then Some (n - 87)
     else if 65 \<le> n \<and> n \<le> 70 then Some (n - 55)
     else None)"

definition hex_byte :: "byte \<Rightarrow> string" where
  "hex_byte b = [hex_digit (unat b div 16), hex_digit (unat b mod 16)]"

definition hex_encode :: "byte list \<Rightarrow> string" where
  "hex_encode bs = concat (map hex_byte bs)"

fun hex_decode :: "string \<Rightarrow> byte list option" where
  "hex_decode [] = Some []"
| "hex_decode [c] = None"
| "hex_decode (c # d # cs) =
     (case (hex_val c, hex_val d) of
        (Some x, Some y) \<Rightarrow> map_option (Cons (of_nat (16 * x + y))) (hex_decode cs)
      | _ \<Rightarrow> None)"

lemma hex_val_digit [simp]: "n < 16 \<Longrightarrow> hex_val (hex_digit n) = Some n"
  by (auto simp: hex_val_def hex_digit_def Let_def)

lemma hex_digit_not_colon: "n < 16 \<Longrightarrow> hex_digit n \<noteq> CHR '':''"
  using hex_val_digit [of n] by (auto simp: hex_val_def)

lemma unat_byte_less: "unat (b :: byte) < 256"
  using unsigned_less [of b] by simp

lemma hex_nibbles: "unat (b :: byte) div 16 < 16" "unat b mod 16 < 16"
  using unat_byte_less [of b] by auto

lemma of_nat_nibbles: "(of_nat (16 * (unat b div 16) + unat b mod 16) :: byte) = b"
  by simp

lemma length_hex_byte [simp]: "length (hex_byte b) = 2"
  by (simp add: hex_byte_def)

lemma length_hex_encode [simp]: "length (hex_encode bs) = 2 * length bs"
  by (induction bs) (simp_all add: hex_encode_def)

lemma hex_encode_Nil [simp]: "hex_encode [] = []"
  by (simp add: hex_encode_def)

lemma hex_encode_Cons:
  "hex_encode (b # bs) = hex_digit (unat b div 16) # hex_digit (unat b mod 16) # hex_encode bs"
  by (simp add: hex_encode_def hex_byte_def)

lemma hex_decode_encode: "hex_decode (hex_encode bs) = Some bs"
  by (induction bs) (simp_all add: hex_encode_Cons hex_nibbles)

lemma hex_decode_length: "hex_decode s = Some bs \<Longrightarrow> length s = 2 * length bs"
  by (induction s arbitrary: bs rule: hex_decode.induct) (auto split: option.splits)

lemma hex_decode_digits: "hex_decode s = Some bs \<Longrightarrow> c \<in> set s \<Longrightarrow> hex_val c \<noteq> None"
  by (induction s arbitrary: bs rule: hex_decode.induct) (auto split: option.splits)

lemma hex_encode_inj: "hex_encode xs = hex_encode ys \<Longrightarrow> xs = ys"
  by (metis hex_decode_encode option.inject)

lemma hex_byte_inj: "hex_byte a = hex_byte b \<Longrightarrow> a = b"
  using hex_encode_inj [of "[a]" "[b]"] by (simp add: hex_encode_def)

lemma colon_notin_hex_encode: "CHR '':'' \<notin> set (hex_encode bs)"
proof -
  have "c \<noteq> CHR '':''" if "c \<in> set (hex_encode bs)" for c
    using hex_decode_digits [OF hex_decode_encode that] by (auto simp: hex_val_def)
  then show ?thesis by blast
qed

section \<open>Sscanf\<close>

text \<open>
  \<open>SkipSpace\<close> of \<open>fmt\<close>'s scanner: spaces are skipped, a newline is an error (\<open>None\<close>), and a
  carriage return before a newline is consumed with it.
\<close>

definition is_space :: "char \<Rightarrow> bool" where
  "is_space c \<longleftrightarrow> (let n = of_char c :: nat in 9 \<le> n \<and> n \<le> 13 \<or> n = 32)"

fun skip_space :: "string \<Rightarrow> string option" where
  "skip_space [] = Some []"
| "skip_space (c # cs) =
     (if of_char c = (10 :: nat) then None
      else if is_space c then skip_space cs
      else Some (c # cs))"

text \<open>The verb \<open>%02x\<close> into a byte: skip spaces, then one or two hexadecimal digits.\<close>

definition scan_hex2 :: "string \<Rightarrow> (byte \<times> string) option" where
  "scan_hex2 s = (case skip_space s of
     None \<Rightarrow> None
   | Some [] \<Rightarrow> None
   | Some (c # cs) \<Rightarrow>
       (case hex_val c of
          None \<Rightarrow> None
        | Some x \<Rightarrow>
            (case cs of
               [] \<Rightarrow> Some (of_nat x, [])
             | d # ds \<Rightarrow>
                 (case hex_val d of
                    None \<Rightarrow> Some (of_nat x, d # ds)
                  | Some y \<Rightarrow> Some (of_nat (16 * x + y), ds)))))"

text \<open>\<open>n\<close> such verbs separated by literal colons; the unread rest of the input is allowed.\<close>

fun scan_colon_hex :: "nat \<Rightarrow> string \<Rightarrow> (byte list \<times> string) option" where
  "scan_colon_hex 0 s = Some ([], s)"
| "scan_colon_hex (Suc n) s =
     (case scan_hex2 s of
        None \<Rightarrow> None
      | Some (b, rest) \<Rightarrow>
          if n = 0 then Some ([b], rest)
          else (case rest of
                  c # cs \<Rightarrow>
                    if c = CHR '':'' then
                      map_option (\<lambda>(bs, r). (b # bs, r)) (scan_colon_hex n cs)
                    else None
                | [] \<Rightarrow> None))"

lemma hex_digit_not_space: "n < 16 \<Longrightarrow> \<not> is_space (hex_digit n)"
  by (auto simp: is_space_def hex_digit_def)

lemma hex_digit_not_newline: "n < 16 \<Longrightarrow> of_char (hex_digit n) \<noteq> (10 :: nat)"
  by (auto simp: hex_digit_def)

lemma scan_hex2_byte [simp]: "scan_hex2 (hex_byte b @ rest) = Some (b, rest)"
  using hex_nibbles [of b]
  by (simp add: scan_hex2_def hex_byte_def hex_digit_not_space hex_digit_not_newline)

fun colon_join :: "string list \<Rightarrow> string" where
  "colon_join [] = []"
| "colon_join [x] = x"
| "colon_join (x # xs) = x @ CHR '':'' # colon_join xs"

lemma scan_colon_hex_join:
  "bs \<noteq> [] \<Longrightarrow> scan_colon_hex (length bs) (colon_join (map hex_byte bs) @ rest) = Some (bs, rest)"
proof (induction bs)
  case Nil
  then show ?case by simp
next
  case (Cons b bs)
  then show ?case by (cases bs) simp_all
qed

lemma scan_colon_hex_length: "scan_colon_hex n s = Some (bs, r) \<Longrightarrow> length bs = n"
  by (induction n s arbitrary: bs r rule: scan_colon_hex.induct)
     (auto split: option.splits list.splits if_splits prod.splits)

text \<open>A scan of at least two bytes needs a colon in the input.\<close>

lemma skip_space_subset: "skip_space s = Some t \<Longrightarrow> set t \<subseteq> set s"
  by (induction s arbitrary: t) (auto split: if_splits)

lemma scan_hex2_subset: "scan_hex2 s = Some (b, r) \<Longrightarrow> set r \<subseteq> set s"
  by (auto simp: scan_hex2_def split: option.splits list.splits dest!: skip_space_subset)

lemma scan_colon_hex_colon:
  "scan_colon_hex (Suc (Suc n)) s = Some (bs, r) \<Longrightarrow> CHR '':'' \<in> set s"
  by (auto split: option.splits list.splits if_splits dest!: scan_hex2_subset)

section \<open>Decimal\<close>

definition dec_val :: "char \<Rightarrow> nat option" where
  "dec_val c = (let n = of_char c :: nat in if 48 \<le> n \<and> n \<le> 57 then Some (n - 48) else None)"

fun digits_val :: "nat \<Rightarrow> string \<Rightarrow> nat option" where
  "digits_val acc [] = Some acc"
| "digits_val acc (c # cs) =
     (case dec_val c of None \<Rightarrow> None | Some d \<Rightarrow> digits_val (10 * acc + d) cs)"

text \<open>\<open>strconv.ParseUint(s, 10, bits)\<close>: digits only, in range.\<close>

definition parse_uint :: "nat \<Rightarrow> string \<Rightarrow> nat option" where
  "parse_uint bits s =
     (if s = [] then None
      else case digits_val 0 s of
        None \<Rightarrow> None
      | Some n \<Rightarrow> if n < 2 ^ bits then Some n else None)"

text \<open>\<open>strconv.Atoi\<close>: an optional sign, then digits, in the range of a 64-bit \<open>int\<close>.\<close>

definition atoi :: "string \<Rightarrow> int option" where
  "atoi s =
     (let (neg, ds) = (case s of
            c # cs \<Rightarrow> if c = CHR ''-'' then (True, cs) else if c = CHR ''+'' then (False, cs)
                      else (False, s)
          | [] \<Rightarrow> (False, []))
      in if ds = [] then None
         else case digits_val 0 ds of
           None \<Rightarrow> None
         | Some n \<Rightarrow>
             if neg then (if int n \<le> 2 ^ 63 then Some (- int n) else None)
             else (if int n < 2 ^ 63 then Some (int n) else None))"

text \<open>The verb \<open>%d\<close>.\<close>

function dec_str :: "nat \<Rightarrow> string" where
  "dec_str n = (if n < 10 then [char_of (48 + n)] else dec_str (n div 10) @ [char_of (48 + n mod 10)])"
  by pat_completeness auto
termination
  by (relation "measure (\<lambda>n. n)") auto

declare dec_str.simps [simp del]

definition int_str :: "int \<Rightarrow> string" where
  "int_str k = (if k < 0 then CHR ''-'' # dec_str (nat (- k)) else dec_str (nat k))"

lemma dec_val_digit: "n < 10 \<Longrightarrow> dec_val (char_of (48 + n)) = Some n"
  by (auto simp: dec_val_def)

lemma digits_val_append:
  "digits_val a (xs @ ys) = (case digits_val a xs of None \<Rightarrow> None | Some b \<Rightarrow> digits_val b ys)"
  by (induction xs arbitrary: a) (auto split: option.splits)

lemma dec_str_nonempty: "dec_str n \<noteq> []"
  by (subst dec_str.simps) simp

lemma digits_val_dec_str: "digits_val 0 (dec_str n) = Some n"
proof (induction n rule: dec_str.induct)
  case (1 n)
  show ?case
  proof (cases "n < 10")
    case True
    then show ?thesis by (subst dec_str.simps) (simp add: dec_val_digit)
  next
    case False
    with "1.IH" have "digits_val 0 (dec_str (n div 10)) = Some (n div 10)" by simp
    with False show ?thesis
      by (subst dec_str.simps) (simp add: digits_val_append dec_val_digit)
  qed
qed

lemma parse_uint_dec_str: "n < 2 ^ k \<Longrightarrow> parse_uint k (dec_str n) = Some n"
  by (simp add: parse_uint_def dec_str_nonempty digits_val_dec_str)

section \<open>The \<open>strings\<close> package\<close>

definition to_lower :: "string \<Rightarrow> string" where
  "to_lower s = map (\<lambda>c. let n = of_char c :: nat in
     if 65 \<le> n \<and> n \<le> 90 then char_of (n + 32) else c) s"

definition to_upper :: "string \<Rightarrow> string" where
  "to_upper s = map (\<lambda>c. let n = of_char c :: nat in
     if 97 \<le> n \<and> n \<le> 122 then char_of (n - 32) else c) s"

text \<open>\<open>ReplaceAll\<close> of one byte by one byte, and by the empty string.\<close>

definition replace_char :: "char \<Rightarrow> char \<Rightarrow> string \<Rightarrow> string" where
  "replace_char a b s = map (\<lambda>c. if c = a then b else c) s"

definition remove_char :: "char \<Rightarrow> string \<Rightarrow> string" where
  "remove_char a s = filter (\<lambda>c. c \<noteq> a) s"

fun has_prefix :: "string \<Rightarrow> string \<Rightarrow> bool" where
  "has_prefix s [] = True"
| "has_prefix [] (p # ps) = False"
| "has_prefix (c # cs) (p # ps) = (c = p \<and> has_prefix cs ps)"

definition trim_prefix :: "string \<Rightarrow> string \<Rightarrow> string" where
  "trim_prefix s p = (if has_prefix s p then drop (length p) s else s)"

fun contains_str :: "string \<Rightarrow> string \<Rightarrow> bool" where
  "contains_str [] p = (p = [])"
| "contains_str (c # cs) p = (has_prefix (c # cs) p \<or> contains_str cs p)"

text \<open>\<open>strings.Split\<close> at one byte: always at least one part.\<close>

fun split_char :: "char \<Rightarrow> string \<Rightarrow> string list" where
  "split_char a [] = [[]]"
| "split_char a (c # cs) =
     (if c = a then [] # split_char a cs
      else (case split_char a cs of p # ps \<Rightarrow> (c # p) # ps | [] \<Rightarrow> [[c]]))"

lemma has_prefix_iff: "has_prefix s p \<longleftrightarrow> (\<exists>t. s = p @ t)"
  by (induction s p rule: has_prefix.induct) auto

lemma has_prefix_append [simp]: "has_prefix (p @ t) p"
  by (auto simp: has_prefix_iff)

lemma trim_prefix_append [simp]: "trim_prefix (p @ t) p = t"
  by (simp add: trim_prefix_def)

lemma contains_str_iff: "contains_str s p \<longleftrightarrow> (\<exists>u v. s = u @ p @ v)"
proof (induction s)
  case Nil
  then show ?case by auto
next
  case (Cons c cs)
  have "(\<exists>u v. c # cs = u @ p @ v) \<longleftrightarrow> (\<exists>v. c # cs = p @ v) \<or> (\<exists>u v. cs = u @ p @ v)"
    by (metis append_Cons append_Nil append_eq_Cons_conv)
  with Cons show ?case by (simp add: has_prefix_iff)
qed

lemma split_char_nonempty [simp]: "split_char a s \<noteq> []"
  by (induction s) (auto split: list.splits)

lemma split_char_append:
  "a \<notin> set p \<Longrightarrow> split_char a (p @ a # s) = p # split_char a s"
  by (induction p) auto

lemma split_char_id: "a \<notin> set p \<Longrightarrow> split_char a p = [p]"
  by (induction p) auto

lemma split_colon_join:
  "xs \<noteq> [] \<Longrightarrow> \<forall>x \<in> set xs. CHR '':'' \<notin> set x \<Longrightarrow> split_char CHR '':'' (colon_join xs) = xs"
proof (induction xs rule: colon_join.induct)
  case (3 x y ys)
  then show ?case by (simp add: split_char_append)
qed (simp_all add: split_char_id)

lemma remove_colon_join:
  "\<forall>x \<in> set xs. CHR '':'' \<notin> set x \<Longrightarrow> remove_char CHR '':'' (colon_join xs) = concat xs"
  by (induction xs rule: colon_join.induct)
     (auto simp: remove_char_def filter_id_conv)


section \<open>Quoted strings\<close>

text \<open>
  The verb \<open>%q\<close>: \<open>strconv.Quote\<close> on ASCII. The other bytes of a string are shown as they are, as
  those of a printable character in UTF-8.
\<close>

definition quote_char :: "char \<Rightarrow> string" where
  "quote_char c =
     (let n = of_char c :: nat
      in if n = 34 \<or> n = 92 then [char_of (92::nat), c]
         else if n = 7 then char_of (92::nat) # ''a''
         else if n = 8 then char_of (92::nat) # ''b''
         else if n = 12 then char_of (92::nat) # ''f''
         else if n = 10 then char_of (92::nat) # ''n''
         else if n = 13 then char_of (92::nat) # ''r''
         else if n = 9 then char_of (92::nat) # ''t''
         else if n = 11 then char_of (92::nat) # ''v''
         else if n < 32 \<or> n = 127
         then [char_of (92::nat), CHR ''x'', hex_digit (n div 16), hex_digit (n mod 16)]
         else [c])"

definition go_quote :: "string \<Rightarrow> string" where
  "go_quote s = [char_of (34::nat)] @ concat (map quote_char s) @ [char_of (34::nat)]"

lemma go_quote_plain:
  assumes "\<forall>c \<in> set s. 32 \<le> (of_char c :: nat) \<and> (of_char c :: nat) \<notin> {34, 92, 127}"
  shows "go_quote s = [char_of (34::nat)] @ s @ [char_of (34::nat)]"
proof -
  have "map quote_char s = map (\<lambda>c. [c]) s"
    by (rule map_cong [OF refl]) (use assms in \<open>auto simp: quote_char_def Let_def\<close>)
  then have "concat (map quote_char s) = s" by (simp only: concat_map_singleton list.map_ident)
  then show ?thesis by (simp add: go_quote_def)
qed

section \<open>JSON values\<close>

text \<open>
  The documents the hub writes to SSE events, to Kafka and to HTTP bodies, as values: a document
  stands for its text. Numbers are integers everywhere but in the sidecar's CPU percentage; \<open>JTime\<close> is a time printed
  as RFC 3339 in UTC, and \<open>JBytes\<close> a non-nil byte slice, printed in base64.
\<close>

datatype json = JNull | JBool bool | JInt int | JStr string | JTime int | JBytes "8 word list"
  | JArr "json list" | JObj "(string \<times> json) list"

section \<open>Route templates\<close>

text \<open>
  How \<open>gorilla/mux\<close> matches a path to a template: segment by segment, where a segment \<open>{x}\<close>
  matches any non-empty one.
\<close>

definition is_variable :: "string \<Rightarrow> bool" where
  "is_variable seg \<longleftrightarrow> has_prefix seg ''{''"

fun path_matches :: "string list \<Rightarrow> string list \<Rightarrow> bool" where
  "path_matches [] [] \<longleftrightarrow> True"
| "path_matches (t # ts) (p # ps) \<longleftrightarrow> (if is_variable t then p \<noteq> [] else t = p) \<and> path_matches ts ps"
| "path_matches _ _ \<longleftrightarrow> False"

lemma find_member: "find P xs = Some x \<Longrightarrow> x \<in> set xs"
  by (induction xs) (auto split: if_splits)

end
