(* ===== verification/Mac_Address.thy ===== *)
theory Mac_Address
  imports Go_Strings
begin

text \<open>
  MAC addresses as bytes and as strings. The repository has four parsers and three printers:
  \<open>nodeauth/registry.go\<close> (\<open>macToString\<close>, \<open>ParseMAC\<close>), \<open>mesh/node_registry.go\<close>
  (\<open>macToString\<close>, \<open>StringToMAC\<close>), \<open>envconfig.go\<close> (\<open>parseMAC\<close>) and \<open>meshsim\<close>
  (\<open>macKey\<close>, \<open>ParseMAC\<close>). Each pair is shown to satisfy one codec interface; the registries
  rely only on that interface, because a map key is always a printed MAC.
\<close>

section \<open>The codecs of the four packages\<close>

datatype mac_error =
    InvalidMac string          \<comment> \<open>\<open>nodeauth.ParseMAC\<close>\<close>
  | InvalidMacFormat string    \<comment> \<open>\<open>mesh.StringToMAC\<close>\<close>
  | MacWrongLength nat         \<comment> \<open>\<open>parseMAC\<close> of the main package: number of characters\<close>
  | MacNotHex string           \<comment> \<open>\<open>parseMAC\<close> of the main package\<close>
  | SimInvalidMac string       \<comment> \<open>\<open>meshsim.ParseMAC\<close>\<close>

text \<open>\<open>nodeauth.macToString\<close>: the argument is a \<open>[6]byte\<close>.\<close>

definition auth_mac_to_string :: "byte list \<Rightarrow> string" where
  "auth_mac_to_string mac = colon_join (map hex_byte mac)"

definition parse_mac :: "string \<Rightarrow> mac_error + byte list" where
  "parse_mac s =
     (case scan_colon_hex 6 s of
        Some (mac, _) \<Rightarrow> Inr mac
      | None \<Rightarrow>
          (case hex_decode s of
             None \<Rightarrow> Inl (InvalidMac s)
           | Some b \<Rightarrow> if length b \<noteq> 6 then Inl (InvalidMac s) else Inr b))"

text \<open>\<open>mesh.macToString\<close>: a slice of another length prints as bare hexadecimal.\<close>

definition mac_address_length :: nat where
  "mac_address_length = 6"

definition mac_to_string :: "byte list \<Rightarrow> string" where
  "mac_to_string mac =
     (if length mac \<noteq> mac_address_length then hex_encode mac else colon_join (map hex_byte mac))"

definition string_to_mac :: "string \<Rightarrow> mac_error + byte list" where
  "string_to_mac s =
     (let colon_form = (case scan_colon_hex mac_address_length s of
            None \<Rightarrow> Inl (InvalidMacFormat s)
          | Some (mac, _) \<Rightarrow> Inr mac)
      in case hex_decode s of
           Some mac \<Rightarrow> if length mac = mac_address_length then Inr mac else colon_form
         | None \<Rightarrow> colon_form)"

definition env_parse_mac :: "string \<Rightarrow> mac_error + byte list" where
  "env_parse_mac s =
     (let cleaned = remove_char CHR ''-'' (remove_char CHR '':'' s)
      in if length cleaned \<noteq> 12 then Inl (MacWrongLength (length cleaned))
         else case hex_decode cleaned of
           None \<Rightarrow> Inl (MacNotHex cleaned)
         | Some decoded \<Rightarrow> Inr decoded)"

definition mac_key :: "byte list \<Rightarrow> string" where
  "mac_key mac = (if length mac < 6 then [] else colon_join (map hex_byte (take 6 mac)))"

fun sim_parse_parts :: "string list \<Rightarrow> byte list option" where
  "sim_parse_parts [] = Some []"
| "sim_parse_parts (p # ps) =
     (if length p \<noteq> 2 then None
      else case scan_hex2 p of
        None \<Rightarrow> None
      | Some (b, _) \<Rightarrow> map_option (Cons b) (sim_parse_parts ps))"

definition sim_parse_mac :: "string \<Rightarrow> mac_error + byte list" where
  "sim_parse_mac s =
     (let parts = split_char CHR '':'' s
      in if length parts \<noteq> 6 then Inl (SimInvalidMac s)
         else case sim_parse_parts parts of
           None \<Rightarrow> Inl (SimInvalidMac s)
         | Some mac \<Rightarrow> Inr mac)"

section \<open>The codec interface\<close>

text \<open>
  \<open>Approve\<close> and \<open>Reject\<close> normalise the string they are given: parse it, print it back, and keep
  it as it is when it does not parse.
\<close>

definition normalise :: "(byte list \<Rightarrow> string) \<Rightarrow> (string \<Rightarrow> 'e + byte list) \<Rightarrow> string \<Rightarrow> string" where
  "normalise show_mac parse s = (case parse s of Inl _ \<Rightarrow> s | Inr m \<Rightarrow> show_mac m)"

locale mac_codec =
  fixes show_mac :: "byte list \<Rightarrow> string"
    and parse :: "string \<Rightarrow> 'e + byte list"
  assumes parse_length: "parse s = Inr m \<Longrightarrow> length m = 6"
    and parse_show: "length m = 6 \<Longrightarrow> parse (show_mac m) = Inr m"
begin

lemma show_inj: "length a = 6 \<Longrightarrow> length b = 6 \<Longrightarrow> show_mac a = show_mac b \<Longrightarrow> a = b"
  by (metis parse_show sum.inject(2))

lemma normalise_show: "length m = 6 \<Longrightarrow> normalise show_mac parse (show_mac m) = show_mac m"
  by (simp add: normalise_def parse_show)

lemma normalise_idem:
  "normalise show_mac parse (normalise show_mac parse s) = normalise show_mac parse s"
  by (auto simp: normalise_def parse_show dest: parse_length split: sum.splits)

lemma normalise_parse:
  "parse s = Inr m \<Longrightarrow> normalise show_mac parse s = show_mac m"
  by (simp add: normalise_def)

end

text \<open>Printed MACs are scanned back by every parser.\<close>

lemma scan_colon_hex_show: "length m = 6 \<Longrightarrow> scan_colon_hex 6 (colon_join (map hex_byte m) @ r) = Some (m, r)"
  using scan_colon_hex_join [of m r] by (cases "m = []") auto

lemmas scan_colon_hex_shown = scan_colon_hex_show [where r = "[]", simplified]

lemma colon_notin_hex_byte: "CHR '':'' \<notin> set (hex_byte b)"
  using colon_notin_hex_encode [of "[b]"] by (simp add: hex_encode_def)

lemma colon_in_shown:
  assumes "length m = 6"
  shows "CHR '':'' \<in> set (colon_join (map hex_byte m))"
proof -
  have "scan_colon_hex (Suc (Suc 4)) (colon_join (map hex_byte m)) = Some (m, [])"
    using scan_colon_hex_shown [OF assms] by (simp add: numeral_eq_Suc)
  then show ?thesis by (rule scan_colon_hex_colon)
qed

lemma hex_decode_no_colon: "CHR '':'' \<in> set s \<Longrightarrow> hex_decode s = None"
  using hex_decode_digits [of s _ "CHR '':''"] by (cases "hex_decode s") (auto simp: hex_val_def)

lemma scan_six_hex_decode: "scan_colon_hex 6 s = Some (m, r) \<Longrightarrow> hex_decode s = None"
proof -
  assume "scan_colon_hex 6 s = Some (m, r)"
  then have "scan_colon_hex (Suc (Suc 4)) s = Some (m, r)" by (simp add: numeral_eq_Suc)
  then show ?thesis by (rule hex_decode_no_colon [OF scan_colon_hex_colon])
qed

interpretation auth_codec: mac_codec auth_mac_to_string parse_mac
proof unfold_locales
  fix s m
  show "parse_mac s = Inr m \<Longrightarrow> length m = 6"
    by (auto simp: parse_mac_def dest: scan_colon_hex_length split: option.splits if_splits)
  show "length m = 6 \<Longrightarrow> parse_mac (auth_mac_to_string m) = Inr m"
    by (simp add: parse_mac_def auth_mac_to_string_def scan_colon_hex_shown)
qed

interpretation mesh_codec: mac_codec mac_to_string string_to_mac
proof unfold_locales
  fix s m
  show "string_to_mac s = Inr m \<Longrightarrow> length m = 6"
    by (auto simp: string_to_mac_def Let_def mac_address_length_def
        dest: scan_colon_hex_length split: option.splits if_splits)
  show "length m = 6 \<Longrightarrow> string_to_mac (mac_to_string m) = Inr m"
    by (simp add: string_to_mac_def Let_def mac_to_string_def mac_address_length_def
        scan_colon_hex_shown hex_decode_no_colon [OF colon_in_shown])
qed

lemma remove_char_id: "c \<notin> set s \<Longrightarrow> remove_char c s = s"
  by (simp add: remove_char_def filter_id_conv) auto

lemma dash_notin_hex_encode: "CHR ''-'' \<notin> set (hex_encode bs)"
proof
  assume "CHR ''-'' \<in> set (hex_encode bs)"
  then show False using hex_decode_digits [OF hex_decode_encode] by (fastforce simp: hex_val_def)
qed

lemma env_cleaned:
  "remove_char CHR ''-'' (remove_char CHR '':'' (colon_join (map hex_byte m))) = hex_encode m"
proof -
  have "remove_char CHR '':'' (colon_join (map hex_byte m)) = hex_encode m"
    by (subst remove_colon_join) (auto simp: colon_notin_hex_byte hex_encode_def)
  then show ?thesis by (simp add: remove_char_id dash_notin_hex_encode)
qed

interpretation env_codec: mac_codec auth_mac_to_string env_parse_mac
proof unfold_locales
  fix s m
  show "env_parse_mac s = Inr m \<Longrightarrow> length m = 6"
    by (auto simp: env_parse_mac_def Let_def dest!: hex_decode_length split: option.splits if_splits)
  show "length m = 6 \<Longrightarrow> env_parse_mac (auth_mac_to_string m) = Inr m"
    by (simp add: env_parse_mac_def auth_mac_to_string_def env_cleaned hex_decode_encode)
qed

lemma sim_parse_parts_length: "sim_parse_parts ps = Some m \<Longrightarrow> length m = length ps"
  by (induction ps arbitrary: m) (auto split: if_splits option.splits)

lemma scan_hex2_hex_byte: "scan_hex2 (hex_byte b) = Some (b, [])"
  using scan_hex2_byte [of b "[]"] by simp

lemma sim_parse_parts_shown: "sim_parse_parts (map hex_byte m) = Some m"
  by (induction m) (simp_all add: scan_hex2_hex_byte)

lemma split_shown: "m \<noteq> [] \<Longrightarrow> split_char CHR '':'' (colon_join (map hex_byte m)) = map hex_byte m"
  by (rule split_colon_join) (auto simp: colon_notin_hex_byte)

interpretation sim_codec: mac_codec mac_key sim_parse_mac
proof unfold_locales
  fix s m
  show "sim_parse_mac s = Inr m \<Longrightarrow> length m = 6"
    by (auto simp: sim_parse_mac_def Let_def dest: sim_parse_parts_length split: option.splits if_splits)
  show "length m = 6 \<Longrightarrow> sim_parse_mac (mac_key m) = Inr m"
    by (cases "m = []") (simp_all add: sim_parse_mac_def Let_def mac_key_def split_shown sim_parse_parts_shown)
qed

lemma mac_key_eq: "length m = 6 \<Longrightarrow> mac_key m = mac_to_string m"
  by (simp add: mac_key_def mac_to_string_def mac_address_length_def)

lemma auth_mac_to_string_eq: "length m = 6 \<Longrightarrow> auth_mac_to_string m = mac_to_string m"
  by (simp add: auth_mac_to_string_def mac_to_string_def mac_address_length_def)

lemma mac_to_string_inj: "mac_to_string a = mac_to_string b \<longleftrightarrow> a = b"
proof
  assume eq: "mac_to_string a = mac_to_string b"
  consider "length a = 6 \<and> length b = 6" | "length a \<noteq> 6 \<and> length b \<noteq> 6"
    | "length a = 6 \<longleftrightarrow> length b \<noteq> 6" by blast
  then show "a = b"
  proof cases
    case 1
    then show ?thesis using eq mesh_codec.show_inj by blast
  next
    case 2
    then show ?thesis using eq hex_encode_inj by (simp add: mac_to_string_def mac_address_length_def)
  next
    case 3
    then show ?thesis
      using eq colon_in_shown [of a] colon_in_shown [of b] colon_notin_hex_encode
      by (auto simp: mac_to_string_def mac_address_length_def split: if_splits) metis+
  qed
qed simp

section \<open>Properties\<close>

text \<open>
  The hub's two MAC parsers agree on every string: \<open>mesh.StringToMAC\<close>, which tries bare
  hexadecimal first, and \<open>nodeauth.ParseMAC\<close>, which tries the colon form first, accept the
  same strings and return the same bytes. A MAC in a URL therefore names the same node in the
  node registry and in the auth registry.
\<close>

theorem mac_parsers_agree: "ok (string_to_mac s) = ok (parse_mac s)"
proof (cases "scan_colon_hex 6 s")
  case None
  then show ?thesis
    by (auto simp: string_to_mac_def parse_mac_def Let_def mac_address_length_def split: option.splits)
next
  case (Some mr)
  then have "hex_decode s = None" by (cases mr) (simp add: scan_six_hex_decode)
  with Some show ?thesis
    by (cases mr) (simp add: string_to_mac_def parse_mac_def Let_def mac_address_length_def)
qed

text \<open>
  The key under which the node registry stores a node determines the node's address: two
  byte slices of any lengths that print to the same string are equal, so no two nodes share a
  registry entry.
\<close>

theorem mac_to_string_injective: "mac_to_string a = mac_to_string b \<longleftrightarrow> a = b"
  by (rule mac_to_string_inj)

text \<open>
  A six-byte MAC survives every printer and parser of the repository: whichever of the
  three forms is printed (colon form by the hub and by the simulator, bare hexadecimal in log
  lines and in the self-heal path), the parsers that read that form give the bytes back.
\<close>

theorem mac_roundtrip:
  assumes "length m = 6"
  shows "parse_mac (auth_mac_to_string m) = Inr m \<and> parse_mac (hex_encode m) = Inr m \<and>
         string_to_mac (mac_to_string m) = Inr m \<and> string_to_mac (hex_encode m) = Inr m \<and>
         env_parse_mac (mac_to_string m) = Inr m \<and> env_parse_mac (hex_encode m) = Inr m \<and>
         sim_parse_mac (mac_key m) = Inr m"
proof -
  have scan: "scan_colon_hex 6 (hex_encode m) = None"
    using scan_six_hex_decode [of "hex_encode m"] by (cases "scan_colon_hex 6 (hex_encode m)")
      (auto simp: hex_decode_encode)
  have clean: "remove_char CHR ''-'' (remove_char CHR '':'' (hex_encode m)) = hex_encode m"
    by (simp add: remove_char_id colon_notin_hex_encode dash_notin_hex_encode)
  show ?thesis
    using assms auth_codec.parse_show mesh_codec.parse_show env_codec.parse_show sim_codec.parse_show scan clean
    by (auto simp: parse_mac_def string_to_mac_def env_parse_mac_def Let_def hex_decode_encode
        mac_address_length_def simp flip: auth_mac_to_string_eq)
qed

theorem mac_roundtrip_witness:
  "length ([1, 2, 3, 171, 205, 239] :: byte list) = 6 \<and>
   parse_mac ''01:02:03:ab:cd:ef'' = Inr [1, 2, 3, 171, 205, 239]"
proof -
  have len: "length ([1, 2, 3, 171, 205, 239] :: byte list) = 6" by simp
  have pr: "auth_mac_to_string [1, 2, 3, 171, 205, 239] = ''01:02:03:ab:cd:ef''"
    by code_simp
  show ?thesis using mac_roundtrip [OF len] by (simp only: pr len simp_thms)
qed

text \<open>
  \<open>nodeauth.ParseMAC\<close> does not check that it consumed its input: whatever follows the six
  bytes of the colon form is ignored, so \<open>Approve\<close> and \<open>Reject\<close> act on a node whose MAC is
  only a prefix of the string they were given.
\<close>

theorem parse_mac_ignores_trailing:
  assumes "length m = 6"
  shows "parse_mac (auth_mac_to_string m @ junk) = Inr m \<and>
         normalise auth_mac_to_string parse_mac (auth_mac_to_string m @ junk) = auth_mac_to_string m"
  using assms by (simp add: parse_mac_def normalise_def auth_mac_to_string_def scan_colon_hex_show)

theorem parse_mac_ignores_trailing_witness:
  "length ([0, 0, 0, 0, 0, 1] :: byte list) = 6 \<and>
   parse_mac (auth_mac_to_string [0, 0, 0, 0, 0, 1] @ ''/extra'') = Inr [0, 0, 0, 0, 0, 1]"
  using parse_mac_ignores_trailing [of "[0, 0, 0, 0, 0, 1]" "''/extra''"] by simp

end
