(* ===== verification/Mesh_Message.thy ===== *)
theory Mesh_Message
  imports Mac_Address
begin

text \<open>
  The wire message and its builders: the constants of \<open>mesh/constants.go\<close>, the struct
  \<open>MeshMessage\<close> that \<open>mesh/mesh.pb.go\<close> declares, and \<open>mesh/message_builder.go\<close>. The constants
  come from the module \<open>lattice-protocol\<close>; \<open>constants.go\<close> states each value beside its name, and
  those are the values used here. \<open>adapter.IsOutput\<close> of that module is a parameter wherever the
  code calls it.
\<close>

named_theorems wire_consts \<open>values of the protocol constants\<close>

section \<open>Constants\<close>

definition MessageTypeAdapterData :: u32 where [wire_consts]: "MessageTypeAdapterData = 0"
definition MessageTypeMasterBeacon :: u32 where [wire_consts]: "MessageTypeMasterBeacon = 1"
definition MessageTypeEnrollment :: u32 where [wire_consts]: "MessageTypeEnrollment = 2"
definition MessageTypeSerialCmdBroadcast :: u32 where [wire_consts]: "MessageTypeSerialCmdBroadcast = 3"
definition MessageTypeJoinAck :: u32 where [wire_consts]: "MessageTypeJoinAck = 4"
definition MessageTypeRouteReport :: u32 where [wire_consts]: "MessageTypeRouteReport = 5"

definition AdapterTypeUnknown :: i32 where [wire_consts]: "AdapterTypeUnknown = 0"
definition AdapterTypeSerial :: i32 where [wire_consts]: "AdapterTypeSerial = 1"
definition AdapterTypePIR :: i32 where [wire_consts]: "AdapterTypePIR = 2"
definition AdapterTypeLED :: i32 where [wire_consts]: "AdapterTypeLED = 3"
definition AdapterTypeRelay :: i32 where [wire_consts]: "AdapterTypeRelay = 4"
definition AdapterTypeWIFI :: i32 where [wire_consts]: "AdapterTypeWIFI = 5"

definition OpNodeIdSet :: byte where [wire_consts]: "OpNodeIdSet = 0xC0"
definition OpConfigSet :: byte where [wire_consts]: "OpConfigSet = 0xC1"
definition OpTxPowerSet :: byte where [wire_consts]: "OpTxPowerSet = 0xC2"
definition OpHealthReq :: byte where [wire_consts]: "OpHealthReq = 0xB0"
definition OpHealthReport :: byte where [wire_consts]: "OpHealthReport = 0xB1"
definition OpNodeHealth :: byte where [wire_consts]: "OpNodeHealth = 0xB2"
definition OpCommandAck :: byte where [wire_consts]: "OpCommandAck = 0xE0"
definition OpLEDSolid :: byte where [wire_consts]: "OpLEDSolid = 0xD0"
definition OpLEDOff :: byte where [wire_consts]: "OpLEDOff = 0xD1"
definition OpRelaySet :: byte where [wire_consts]: "OpRelaySet = 0xD8"

definition MaxDataLength :: nat where [wire_consts]: "MaxDataLength = 64"

definition broadcast_mac_bytes :: "byte list" where
  "broadcast_mac_bytes = [0xFF, 0xFF, 0xFF, 0xFF, 0xFF, 0xFF]"

definition get_adapter_type_name :: "i32 \<Rightarrow> string" where
  "get_adapter_type_name t =
     (if t = AdapterTypeUnknown then ''Unknown''
      else if t = AdapterTypeSerial then ''Serial''
      else if t = AdapterTypePIR then ''PIR''
      else if t = AdapterTypeLED then ''LED''
      else if t = AdapterTypeRelay then ''Relay''
      else if t = AdapterTypeWIFI then ''WiFi''
      else ''Unknown('' @ int_str (sint t) @ '')'')"

section \<open>The message\<close>

record mesh_message =
  message_type :: u32
  data_type :: i32
  origin_mac :: "byte list"
  target_mac :: "byte list"
  last_hop_mac :: "byte list"
  msg_data :: "byte list"
  msg_hop_count :: u32
  epoch_num :: u32
  seq_num :: u32
  proto_version :: u32
  msg_public_key :: "byte list"
  route_len :: "u32 option"
  msg_route_path :: "byte list option"
  auth_tag :: "byte list option"
  auth_path :: "byte list option"

text \<open>The struct literal \<open>MeshMessage{}\<close>: every field its zero value.\<close>

definition zero_message :: mesh_message where
  "zero_message = \<lparr>message_type = 0, data_type = 0, origin_mac = [], target_mac = [],
     last_hop_mac = [], msg_data = [], msg_hop_count = 0, epoch_num = 0, seq_num = 0,
     proto_version = 0, msg_public_key = [], route_len = None, msg_route_path = None,
     auth_tag = None, auth_path = None\<rparr>"

definition get_route_len :: "mesh_message \<Rightarrow> u32" where
  "get_route_len m = (case route_len m of None \<Rightarrow> 0 | Some n \<Rightarrow> n)"

definition get_route_path :: "mesh_message \<Rightarrow> byte list" where
  "get_route_path m = (case msg_route_path m of None \<Rightarrow> [] | Some p \<Rightarrow> p)"

lemma zero_message_simps [simp]:
  "message_type zero_message = 0" "data_type zero_message = 0" "origin_mac zero_message = []"
  "target_mac zero_message = []" "last_hop_mac zero_message = []" "msg_data zero_message = []"
  "msg_hop_count zero_message = 0" "epoch_num zero_message = 0" "seq_num zero_message = 0"
  "proto_version zero_message = 0" "msg_public_key zero_message = []" "route_len zero_message = None"
  "msg_route_path zero_message = None" "auth_tag zero_message = None" "auth_path zero_message = None"
  by (simp_all add: zero_message_def)

section \<open>Building messages\<close>

datatype build_error = BadMacLength nat | DataTooLong nat

text \<open>A 64-byte payload that starts with the given bytes: \<open>make\<close>, then \<open>copy\<close>.\<close>

definition payload_of :: "byte list \<Rightarrow> byte list" where
  "payload_of bs = go_copy (go_make MaxDataLength) 0 bs"

definition build_config_set_message :: "byte list \<Rightarrow> i32 \<Rightarrow> build_error + mesh_message" where
  "build_config_set_message target adapter_type =
     (if length target \<noteq> mac_address_length then Inl (BadMacLength (length target))
      else
        let payload = (go_make MaxDataLength)[0 := OpConfigSet];
            payload = go_copy payload 1 target;
            payload = payload[7 := ucast adapter_type]
        in Inr (zero_message\<lparr>proto_version := 5, message_type := MessageTypeAdapterData,
             data_type := AdapterTypeSerial, target_mac := target, msg_data := payload\<rparr>))"

definition build_config_set_broadcast_message :: "i32 \<Rightarrow> build_error + mesh_message" where
  "build_config_set_broadcast_message adapter_type =
     build_config_set_message broadcast_mac_bytes adapter_type"

definition build_health_request_message :: mesh_message where
  "build_health_request_message =
     zero_message\<lparr>proto_version := 5, message_type := MessageTypeAdapterData,
       data_type := AdapterTypeSerial, msg_data := (go_make MaxDataLength)[0 := OpHealthReq]\<rparr>"

definition build_broadcast_message :: "i32 \<Rightarrow> byte list \<Rightarrow> build_error + mesh_message" where
  "build_broadcast_message dt bs =
     (if length bs > MaxDataLength then Inl (DataTooLong (length bs))
      else Inr (zero_message\<lparr>proto_version := 5, message_type := MessageTypeSerialCmdBroadcast,
             data_type := dt, msg_data := payload_of bs\<rparr>))"

definition build_adapter_data_message ::
  "byte list \<Rightarrow> i32 \<Rightarrow> byte list \<Rightarrow> build_error + mesh_message" where
  "build_adapter_data_message target dt bs =
     (if length target \<noteq> mac_address_length then Inl (BadMacLength (length target))
      else if length bs > MaxDataLength then Inl (DataTooLong (length bs))
      else Inr (zero_message\<lparr>proto_version := 5, message_type := MessageTypeAdapterData,
             data_type := dt, target_mac := target, msg_data := payload_of bs\<rparr>))"

section \<open>Health reports\<close>

record health_report =
  hr_mac :: "byte list"
  hr_adapter_type :: i32
  hr_uptime :: u32
  hr_hop_count :: u32
  hr_origin_mac :: "byte list"

datatype health_error = NotSerialMessage | ShortHealthReport nat | NotHealthReport byte

text \<open>\<open>int32(int8(b))\<close>.\<close>

definition int8_to_int32 :: "byte \<Rightarrow> i32" where
  "int8_to_int32 b = scast b"

definition parse_health_report :: "mesh_message \<Rightarrow> health_error + health_report" where
  "parse_health_report msg =
     (if data_type msg \<noteq> AdapterTypeSerial then Inl NotSerialMessage
      else if length (msg_data msg) < 12 then Inl (ShortHealthReport (length (msg_data msg)))
      else if msg_data msg ! 0 \<noteq> OpHealthReport \<and> msg_data msg ! 0 \<noteq> OpNodeHealth
        then Inl (NotHealthReport (msg_data msg ! 0))
      else Inr \<lparr>hr_mac = go_copy (go_make mac_address_length) 0 (slice 2 8 (msg_data msg)),
                hr_adapter_type = int8_to_int32 (msg_data msg ! 1),
                hr_uptime = of_le32 (slice 8 12 (msg_data msg)),
                hr_hop_count = msg_hop_count msg,
                hr_origin_mac = origin_mac msg\<rparr>)"

definition is_health_report :: "mesh_message \<Rightarrow> bool" where
  "is_health_report msg \<longleftrightarrow> data_type msg = AdapterTypeSerial \<and> 1 \<le> length (msg_data msg) \<and>
     (msg_data msg ! 0 = OpHealthReport \<or> msg_data msg ! 0 = OpNodeHealth)"

definition is_master_beacon :: "mesh_message \<Rightarrow> bool" where
  "is_master_beacon msg \<longleftrightarrow> message_type msg = MessageTypeMasterBeacon"

section \<open>Lemmas\<close>

lemma length_payload_of [simp]: "length (payload_of bs) = MaxDataLength"
  by (simp add: payload_of_def)

lemma payload_of_pad:
  "length bs \<le> MaxDataLength \<Longrightarrow> payload_of bs = bs @ replicate (MaxDataLength - length bs) 0"
  by (simp add: payload_of_def go_copy_def go_make_def)

text \<open>The payload of the two commands that address a node: opcode, address, one argument, zeros.\<close>

lemma addressed_payload:
  assumes "length mac = 6"
  shows "(go_copy ((go_make MaxDataLength)[0 := op]) (Suc 0) mac)[7 := x] = op # mac @ x # replicate 56 (0 :: byte)"
proof -
  from assms obtain a b c d e f where m: "mac = [a, b, c, d, e, f]"
    by (auto simp: numeral_eq_Suc length_Suc_conv)
  have "go_make MaxDataLength = [0, 0, 0, 0, 0, 0, 0, 0] @ replicate 56 0"
    by (simp add: go_make_def MaxDataLength_def numeral_eq_Suc)
  then show ?thesis by (simp add: m go_copy_def)
qed

lemma build_config_set_payload:
  assumes "length target = 6"
  shows "build_config_set_message target at =
     Inr (zero_message\<lparr>proto_version := 5, message_type := MessageTypeAdapterData,
       data_type := AdapterTypeSerial, target_mac := target,
       msg_data := OpConfigSet # target @ ucast at # replicate 56 0\<rparr>)"
  using assms by (simp add: build_config_set_message_def mac_address_length_def Let_def addressed_payload)

lemma is_health_report_iff_parse:
  "is_health_report msg \<and> 12 \<le> length (msg_data msg) \<longleftrightarrow> (\<exists>r. parse_health_report msg = Inr r)"
  by (auto simp: is_health_report_def parse_health_report_def)

lemma hr_mac_length: "parse_health_report msg = Inr r \<Longrightarrow> length (hr_mac r) = 6"
  by (auto simp: parse_health_report_def mac_address_length_def split: if_splits)

lemma hr_mac_slice: "parse_health_report msg = Inr r \<Longrightarrow> hr_mac r = slice 2 8 (msg_data msg)"
  by (auto simp: parse_health_report_def mac_address_length_def go_copy_def go_make_def split: if_splits)

section \<open>Properties\<close>

text \<open>
  Every message the builders produce is a v5 message whose payload is exactly 64 bytes,
  and the builders fail exactly when the target is not six bytes or the data does not fit: data
  that is accepted is sent unchanged, followed by zeros.
\<close>

theorem builders_well_formed:
  "(case build_adapter_data_message target dt bs of
      Inl e \<Rightarrow> (length target \<noteq> 6 \<and> e = BadMacLength (length target)) \<or>
               (length target = 6 \<and> 64 < length bs \<and> e = DataTooLong (length bs))
    | Inr m \<Rightarrow> length target = 6 \<and> length bs \<le> 64 \<and> proto_version m = 5 \<and> target_mac m = target \<and>
               data_type m = dt \<and> msg_data m = bs @ replicate (64 - length bs) 0) \<and>
   (case build_broadcast_message dt bs of
      Inl e \<Rightarrow> 64 < length bs \<and> e = DataTooLong (length bs)
    | Inr m \<Rightarrow> length bs \<le> 64 \<and> proto_version m = 5 \<and>
               message_type m = MessageTypeSerialCmdBroadcast \<and> data_type m = dt \<and>
               msg_data m = bs @ replicate (64 - length bs) 0) \<and>
   (case build_config_set_message target at of
      Inl e \<Rightarrow> length target \<noteq> 6 \<and> e = BadMacLength (length target)
    | Inr m \<Rightarrow> length target = 6 \<and> proto_version m = 5 \<and> target_mac m = target \<and>
               msg_data m = [OpConfigSet] @ target @ [ucast at] @ replicate 56 0)"
proof -
  have a: "case build_adapter_data_message target dt bs of
      Inl e \<Rightarrow> (length target \<noteq> 6 \<and> e = BadMacLength (length target)) \<or>
               (length target = 6 \<and> 64 < length bs \<and> e = DataTooLong (length bs))
    | Inr m \<Rightarrow> length target = 6 \<and> length bs \<le> 64 \<and> proto_version m = 5 \<and> target_mac m = target \<and>
               data_type m = dt \<and> msg_data m = bs @ replicate (64 - length bs) 0"
    by (simp add: build_adapter_data_message_def mac_address_length_def payload_of_pad MaxDataLength_def)
  have b: "case build_broadcast_message dt bs of
      Inl e \<Rightarrow> 64 < length bs \<and> e = DataTooLong (length bs)
    | Inr m \<Rightarrow> length bs \<le> 64 \<and> proto_version m = 5 \<and>
               message_type m = MessageTypeSerialCmdBroadcast \<and> data_type m = dt \<and>
               msg_data m = bs @ replicate (64 - length bs) 0"
    by (simp add: build_broadcast_message_def payload_of_pad MaxDataLength_def)
  have c: "case build_config_set_message target at of
      Inl e \<Rightarrow> length target \<noteq> 6 \<and> e = BadMacLength (length target)
    | Inr m \<Rightarrow> length target = 6 \<and> proto_version m = 5 \<and> target_mac m = target \<and>
               msg_data m = [OpConfigSet] @ target @ [ucast at] @ replicate 56 0"
  proof (cases "length target = 6")
    case True
    then show ?thesis by (simp add: build_config_set_payload)
  next
    case False
    then show ?thesis by (simp add: build_config_set_message_def mac_address_length_def)
  qed
  from a b c show ?thesis by blast
qed

end
