(* ===== verification/Serial_Link.thy ===== *)
theory Serial_Link
  imports Mesh_Message
begin

text \<open>
  Framing of messages on the serial link, \<open>mesh/serial.go\<close>: a two-byte little-endian length and
  the protobuf encoding of the message. The protobuf runtime is not part of the repository, so
  \<open>proto.Marshal\<close> and \<open>proto.Unmarshal\<close> are parameters, related by the round-trip law of the
  locale \<open>proto_codec\<close>. A port is the list of bytes still to be read and the list of bytes written;
  \<open>chunk\<close> says how many bytes a single \<open>Read\<close> returns. The calls that reach the driver or the
  socket, write deadlines included, are listed by \<open>write_calls\<close>; their interleavings are those of
  goroutines that write to one port.
\<close>

section \<open>Ports\<close>

text \<open>
  The two implementations of \<open>SerialPort\<close>: a TCP connection to the simulator and a serial device;
  \<open>'c\<close> is the connection or the device. Only a connection has write deadlines.
\<close>

datatype 'c transport = TcpPort 'c | RealSerialPort 'c

datatype port_call = SetWriteDeadline time | PortWrite "byte list" | ResetInputBuffer | PortClose

definition deadliner :: "'c transport \<Rightarrow> bool" where
  "deadliner p = (case p of TcpPort c \<Rightarrow> True | RealSerialPort c \<Rightarrow> False)"

text \<open>\<open>Flush\<close>; \<open>reset\<close> is the driver's answer to \<open>ResetInputBuffer\<close>.\<close>

definition port_flush :: "go_error option \<Rightarrow> 'c transport \<Rightarrow> go_error option \<times> port_call list" where
  "port_flush reset p =
     (case p of TcpPort c \<Rightarrow> (None, []) | RealSerialPort c \<Rightarrow> (reset, [ResetInputBuffer]))"

record 'c serial_comm =
  comm_port :: "'c transport"

definition new_serial_comm :: "'c transport \<Rightarrow> 'c serial_comm" where
  "new_serial_comm p = \<lparr> comm_port = p \<rparr>"

definition close_comm :: "go_error option \<Rightarrow> 'c serial_comm \<Rightarrow> go_error option \<times> port_call list" where
  "close_comm closed s = (closed, [PortClose])"

text \<open>\<open>FlushBuffer\<close> only logs the error of the port.\<close>

definition flush_buffer :: "go_error option \<Rightarrow> 'c serial_comm \<Rightarrow> go_error option \<times> port_call list" where
  "flush_buffer reset s = (None, snd (port_flush reset (comm_port s)))"

text \<open>What is left to read after a flush: a serial device drops what it has buffered.\<close>

definition flushed :: "go_error option \<Rightarrow> 'c serial_comm \<Rightarrow> byte list \<Rightarrow> byte list" where
  "flushed reset s inp =
     (if ResetInputBuffer \<in> set (snd (flush_buffer reset s)) \<and> reset = None then [] else inp)"

lemma flush_simulator_link: "flushed reset (new_serial_comm (TcpPort c)) inp = inp"
  by (simp add: flushed_def flush_buffer_def port_flush_def new_serial_comm_def)

lemma flush_device: "flushed None (new_serial_comm (RealSerialPort d)) inp = []"
  by (simp add: flushed_def flush_buffer_def port_flush_def new_serial_comm_def)

section \<open>Reading and writing frames\<close>

datatype frame_error =
    MarshalFailed
  | WriteHeaderFailed go_error
  | WriteDataFailed go_error
  | ReadHeaderFailed
  | FrameLengthZero
  | FrameTooLarge u16
  | ReadDataFailed
  | UnmarshalFailed

text \<open>
  \<open>port\<close> is the result of each \<open>Write\<close> (\<open>None\<close> for success); what reached the wire is returned
  with the result. A failed write is taken to have put nothing on the wire.
\<close>

definition write_frame ::
  "(mesh_message \<Rightarrow> byte list option) \<Rightarrow> (byte list \<Rightarrow> go_error option) \<Rightarrow> byte list \<Rightarrow> mesh_message
     \<Rightarrow> frame_error option \<times> byte list" where
  "write_frame marshal port out msg =
     (case marshal msg of
        None \<Rightarrow> (Some MarshalFailed, out)
      | Some bs \<Rightarrow>
          let header = le16 (of_nat (length bs))
          in case port header of
               Some e \<Rightarrow> (Some (WriteHeaderFailed e), out)
             | None \<Rightarrow>
                 (case port bs of
                    Some e \<Rightarrow> (Some (WriteDataFailed e), out @ header)
                  | None \<Rightarrow> (None, out @ header @ bs)))"

definition read_frame ::
  "(byte list \<Rightarrow> mesh_message option) \<Rightarrow> (byte list \<Rightarrow> nat) \<Rightarrow> byte list
     \<Rightarrow> (frame_error + mesh_message) \<times> byte list" where
  "read_frame unmarshal chunk inp =
     (if length inp < 2 then (Inl ReadHeaderFailed, [])
      else
        let len = of_le16 (inp ! 0) (inp ! 1);
            rest = drop 2 inp
        in if len = 0 then (Inl FrameLengthZero, rest)
           else if len > 4096 then (Inl (FrameTooLarge len), drop (min 100 (chunk rest)) rest)
           else if length rest < unat len then (Inl ReadDataFailed, [])
           else case unmarshal (take (unat len) rest) of
                  None \<Rightarrow> (Inl UnmarshalFailed, drop (unat len) rest)
                | Some msg \<Rightarrow> (Inr msg, drop (unat len) rest))"

text \<open>
  The calls of \<open>WriteFrame\<close> in order, each write with the deadline that a connection is given two
  seconds ahead; \<open>t1\<close> and \<open>t2\<close> are the two readings of the clock.
\<close>

definition timed_write :: "'c serial_comm \<Rightarrow> time \<Rightarrow> byte list \<Rightarrow> port_call list" where
  "timed_write s now bs =
     (if deadliner (comm_port s) then [SetWriteDeadline (now + 2 * second), PortWrite bs] else [PortWrite bs])"

definition write_calls ::
  "(mesh_message \<Rightarrow> byte list option) \<Rightarrow> (byte list \<Rightarrow> go_error option) \<Rightarrow> time \<Rightarrow> time \<Rightarrow> 'c serial_comm
     \<Rightarrow> mesh_message \<Rightarrow> frame_error option \<times> port_call list" where
  "write_calls marshal port t1 t2 s msg =
     (case marshal msg of
        None \<Rightarrow> (Some MarshalFailed, [])
      | Some bs \<Rightarrow>
          let header = le16 (of_nat (length bs))
          in case port header of
               Some e \<Rightarrow> (Some (WriteHeaderFailed e), timed_write s t1 header)
             | None \<Rightarrow>
                 (map_option WriteDataFailed (port bs), timed_write s t1 header @ timed_write s t2 bs))"

text \<open>What a sequence of calls puts on the wire of a port that answers as \<open>port\<close> does.\<close>

fun put_on_wire :: "(byte list \<Rightarrow> go_error option) \<Rightarrow> port_call list \<Rightarrow> byte list" where
  "put_on_wire port [] = []"
| "put_on_wire port (PortWrite bs # cs) = (if port bs = None then bs else []) @ put_on_wire port cs"
| "put_on_wire port (_ # cs) = put_on_wire port cs"

lemma put_on_wire_append [simp]: "put_on_wire port (cs @ ds) = put_on_wire port cs @ put_on_wire port ds"
  by (induction port cs rule: put_on_wire.induct) simp_all

lemma put_timed_write [simp]: "put_on_wire port (timed_write s now bs) = (if port bs = None then bs else [])"
  by (simp add: timed_write_def)

text \<open>\<open>write_frame\<close> is what the calls amount to, on either kind of port.\<close>

lemma write_calls_frame:
  "write_frame marshal port out msg =
     (fst (write_calls marshal port t1 t2 s msg), out @ put_on_wire port (snd (write_calls marshal port t1 t2 s msg)))"
  by (simp add: write_frame_def write_calls_def Let_def split: option.split)

text \<open>No write to the simulator blocks for longer than two seconds; a serial device has no such bound.\<close>

lemma writes_have_deadlines:
  "snd (write_calls marshal port t1 t2 (new_serial_comm (TcpPort c)) msg) = cs \<Longrightarrow> i < length cs \<Longrightarrow>
     cs ! i = PortWrite bs \<Longrightarrow> 0 < i \<and> cs ! (i - 1) \<in> {SetWriteDeadline (t1 + 2 * second), SetWriteDeadline (t2 + 2 * second)}"
  by (auto simp: write_calls_def timed_write_def new_serial_comm_def deadliner_def Let_def nth_Cons
      split: option.splits nat.splits)

lemma device_writes_have_none:
  "SetWriteDeadline t \<notin> set (snd (write_calls marshal port t1 t2 (new_serial_comm (RealSerialPort d)) msg))"
  by (simp add: write_calls_def timed_write_def new_serial_comm_def deadliner_def Let_def split: option.split)

text \<open>
  The \<open>Write\<close> calls of one frame. \<open>WriteFrame\<close> takes no lock, so what two goroutines put on one
  port is any shuffle of their calls.
\<close>

definition frame_writes :: "(mesh_message \<Rightarrow> byte list option) \<Rightarrow> mesh_message \<Rightarrow> byte list list" where
  "frame_writes marshal msg =
     (case marshal msg of None \<Rightarrow> [] | Some bs \<Rightarrow> [le16 (of_nat (length bs)), bs])"

lemma write_calls_writes:
  "(\<And>bs. port bs = None) \<Longrightarrow>
     [bs. PortWrite bs \<leftarrow> snd (write_calls marshal port t1 t2 s msg)] = frame_writes marshal msg"
  by (simp add: write_calls_def frame_writes_def timed_write_def Let_def split: option.split)

text \<open>Reading \<open>n\<close> frames one after another, as the read loops do.\<close>

fun read_frames ::
  "(byte list \<Rightarrow> mesh_message option) \<Rightarrow> (byte list \<Rightarrow> nat) \<Rightarrow> nat \<Rightarrow> byte list
     \<Rightarrow> (frame_error + mesh_message) list \<times> byte list" where
  "read_frames unmarshal chunk 0 inp = ([], inp)"
| "read_frames unmarshal chunk (Suc n) inp =
     (let (r, rest) = read_frame unmarshal chunk inp;
          (rs, rest') = read_frames unmarshal chunk n rest
      in (r # rs, rest'))"

text \<open>The bytes of one frame, and of a sequence of frames, when the port accepts every write.\<close>

definition frame_bytes :: "(mesh_message \<Rightarrow> byte list option) \<Rightarrow> mesh_message \<Rightarrow> byte list" where
  "frame_bytes marshal msg = snd (write_frame marshal (\<lambda>_. None) [] msg)"

definition frameable :: "(mesh_message \<Rightarrow> byte list option) \<Rightarrow> mesh_message \<Rightarrow> bool" where
  "frameable marshal msg \<longleftrightarrow>
     (case marshal msg of None \<Rightarrow> False | Some bs \<Rightarrow> 0 < length bs \<and> length bs \<le> 4096)"

locale proto_codec =
  fixes marshal :: "mesh_message \<Rightarrow> byte list option"
    and unmarshal :: "byte list \<Rightarrow> mesh_message option"
  assumes unmarshal_marshal: "marshal msg = Some bs \<Longrightarrow> unmarshal bs = Some msg"
begin

lemma frame_bytes_eq:
  "marshal msg = Some bs \<Longrightarrow> frame_bytes marshal msg = le16 (of_nat (length bs)) @ bs"
  by (simp add: frame_bytes_def write_frame_def Let_def)

lemma of_le16_header:
  "length bs \<le> 65535 \<Longrightarrow>
     unat (of_le16 (le16 (of_nat (length bs)) ! 0) (le16 (of_nat (length bs)) ! 1)) = length bs"
  by (simp add: le16_def of_le16_le16 unat_of_nat)

text \<open>One frame is read back exactly, and the reader stops at its last byte.\<close>

lemma read_frame_frame_bytes:
  assumes "frameable marshal msg"
  shows "read_frame unmarshal chunk (frame_bytes marshal msg @ rest) = (Inr msg, rest)"
proof -
  from assms obtain bs where bs: "marshal msg = Some bs" "0 < length bs" "length bs \<le> 4096"
    by (auto simp: frameable_def split: option.splits)
  let ?len = "of_nat (length bs) :: u16"
  have len: "unat ?len = length bs" using bs by (simp add: unat_of_nat)
  have pos: "?len \<noteq> 0" using len bs(2) by (metis unat_0 less_irrefl)
  have small: "\<not> ?len > 4096" using len bs(3) by (simp add: word_less_nat_alt)
  show ?thesis
    using bs len pos small unmarshal_marshal [OF bs(1)]
    by (simp add: read_frame_def frame_bytes_eq [OF bs(1)] le16_def of_le16_le16 Let_def)
qed

lemma read_frames_frame_bytes:
  "\<forall>msg \<in> set msgs. frameable marshal msg \<Longrightarrow>
   read_frames unmarshal chunk (length msgs) (concat (map (frame_bytes marshal) msgs) @ rest)
     = (map Inr msgs, rest)"
  by (induction msgs) (simp_all add: read_frame_frame_bytes)

text \<open>A message that marshals to more than 4096 (and less than 65536) bytes is written but refused.\<close>

lemma read_frame_oversized:
  assumes "marshal msg = Some bs" and "4096 < length bs" and "length bs < 65536"
  shows "fst (read_frame unmarshal chunk (frame_bytes marshal msg @ rest)) =
         Inl (FrameTooLarge (of_nat (length bs)))"
proof -
  let ?len = "of_nat (length bs) :: u16"
  have len: "unat ?len = length bs" using assms by (simp add: unat_of_nat)
  have "?len \<noteq> 0" using len assms(2) by (metis unat_0 not_less_zero)
  moreover have "?len > 4096" using len assms(2) by (simp add: word_less_nat_alt)
  ultimately show ?thesis
    by (simp add: read_frame_def frame_bytes_eq [OF assms(1)] le16_def of_le16_le16 Let_def)
qed

end

lemma write_frame_ok:
  "marshal msg = Some bs \<Longrightarrow> (\<And>b. port b = None) \<Longrightarrow>
     write_frame marshal port out msg = (None, out @ frame_bytes marshal msg)"
  by (simp add: write_frame_def frame_bytes_def Let_def)

lemma write_frame_error_prefix:
  "write_frame marshal port out msg = (Some e, out') \<Longrightarrow>
     out' = out \<or> (\<exists>bs. marshal msg = Some bs \<and> out' = out @ le16 (of_nat (length bs)))"
  by (auto simp: write_frame_def Let_def split: option.splits)

text \<open>Every reader call consumes input, or the input was already short: no read loop spins on data.\<close>

lemma read_frame_consumes:
  "2 \<le> length inp \<Longrightarrow> length (snd (read_frame unmarshal chunk inp)) < length inp"
  by (auto simp: read_frame_def Let_def split: option.splits)

section \<open>Opening the transport\<close>

text \<open>
  \<open>openTransport\<close>: a specification that starts with \<open>tcp://\<close> is dialled up to 30 times, with a
  second's pause after each failure; anything else is opened as a serial device. \<open>dial\<close> and
  \<open>open_serial\<close> are the operating system's answers, the former one per attempt.
\<close>

datatype transport_error = DialFailed string go_error | OpenFailed go_error

text \<open>Attempts \<open>i, i + 1, ...\<close>; the result carries the number of pauses taken.\<close>

fun dial_loop :: "(nat \<Rightarrow> go_error + 'c) \<Rightarrow> nat \<Rightarrow> nat \<Rightarrow> go_error \<Rightarrow> (go_error + 'c) \<times> nat" where
  "dial_loop dial i 0 last_err = (Inl last_err, i)"
| "dial_loop dial i (Suc n) last_err =
     (case dial i of
        Inr conn \<Rightarrow> (Inr conn, i)
      | Inl err \<Rightarrow> dial_loop dial (Suc i) n err)"

definition open_transport ::
  "(nat \<Rightarrow> go_error + 'c) \<Rightarrow> (string \<Rightarrow> go_error + 'c) \<Rightarrow> string \<Rightarrow> transport_error + 'c transport" where
  "open_transport dial open_serial spec =
     (if has_prefix spec ''tcp://'' then
        (case dial_loop dial 0 30 [] of
           (Inr conn, _) \<Rightarrow> Inr (TcpPort conn)
         | (Inl err, _) \<Rightarrow> Inl (DialFailed spec err))
      else
        (case open_serial spec of
           Inl err \<Rightarrow> Inl (OpenFailed err)
         | Inr port \<Rightarrow> Inr (RealSerialPort port)))"

lemma dial_loop_first:
  "i \<le> k \<Longrightarrow> k < i + n \<Longrightarrow> dial k = Inr conn \<Longrightarrow> (\<And>j. i \<le> j \<Longrightarrow> j < k \<Longrightarrow> \<exists>e. dial j = Inl e) \<Longrightarrow>
     dial_loop dial i n err = (Inr conn, k)"
proof (induction n arbitrary: i err)
  case 0
  then show ?case by simp
next
  case (Suc n)
  show ?case
  proof (cases "i = k")
    case True
    then show ?thesis using Suc.prems by simp
  next
    case False
    then obtain e where "dial i = Inl e" using Suc.prems by force
    moreover have "dial_loop dial (Suc i) n e = (Inr conn, k)"
      using False Suc.prems by (intro Suc.IH) auto
    ultimately show ?thesis by simp
  qed
qed

lemma dial_loop_fail:
  "(\<And>j. i \<le> j \<Longrightarrow> j < i + n \<Longrightarrow> dial j = Inl (e j)) \<Longrightarrow>
     dial_loop dial i n err = (Inl (if n = 0 then err else e (i + n - 1)), i + n)"
  by (induction n arbitrary: i err) auto

text \<open>\<open>openTransport\<close> on the simulator link: the first dial that succeeds within 30 attempts is used.\<close>

lemma open_transport_tcp:
  assumes "k < 30" and "dial k = Inr conn" and "\<And>j. j < k \<Longrightarrow> \<exists>e. dial j = Inl e"
  shows "open_transport dial open_serial (''tcp://'' @ addr) = Inr (TcpPort conn)"
  using assms by (simp add: open_transport_def dial_loop_first [of 0 k] del: append_Cons)

lemma open_transport_tcp_fail:
  assumes "\<And>j. j < 30 \<Longrightarrow> dial j = Inl (e j)"
  shows "open_transport dial open_serial (''tcp://'' @ addr) = Inl (DialFailed (''tcp://'' @ addr) (e 29))"
  using dial_loop_fail [of 0 30 dial e "[]"] assms by (simp add: open_transport_def del: append_Cons)

end
