(* ===== verification/Proto_Wire.thy ===== *)
theory Proto_Wire
  imports Serial_Link
begin

text \<open>
  An instance of the codec interface of \<open>Serial_Link\<close>: the protobuf encoding of \<open>MeshMessage\<close>,
  with the field numbers and wire kinds of the struct tags in \<open>mesh/mesh.pb.go\<close> (generated from
  \<open>mesh/mesh.proto\<close>). The runtime library is not part of the repository; this instance follows
  the published encoding (base-128 varints, zigzag, length-delimited bytes) and shows that the
  round-trip law the framing proofs assume can hold. The group wire types, which no message of
  the repository uses, are refused.
\<close>

section \<open>Varints\<close>

function put_varint :: "nat \<Rightarrow> byte list" where
  "put_varint n = (if n < 128 then [of_nat n] else of_nat (n mod 128 + 128) # put_varint (n div 128))"
  by pat_completeness auto
termination
  by (relation "measure (\<lambda>n. n)") auto

declare put_varint.simps [simp del]

fun get_varint_bytes :: "nat \<Rightarrow> byte list \<Rightarrow> (nat \<times> byte list) option" where
  "get_varint_bytes 0 bs = None"
| "get_varint_bytes (Suc k) [] = None"
| "get_varint_bytes (Suc k) (b # bs) =
     (if unat b < 128 then Some (unat b, bs)
      else map_option (\<lambda>(n, r). (unat b - 128 + 128 * n, r)) (get_varint_bytes k bs))"

definition get_varint :: "byte list \<Rightarrow> (nat \<times> byte list) option" where
  "get_varint bs = (case get_varint_bytes 10 bs of
     None \<Rightarrow> None
   | Some (n, r) \<Rightarrow> if n < 2 ^ 64 then Some (n, r) else None)"

lemma get_varint_bytes_put:
  "n < 128 ^ Suc k \<Longrightarrow> get_varint_bytes (Suc k) (put_varint n @ r) = Some (n, r)"
proof (induction n arbitrary: k rule: put_varint.induct)
  case (1 n)
  show ?case
  proof (cases "n < 128")
    case True
    then show ?thesis by (subst put_varint.simps) (simp add: unat_of_nat)
  next
    case False
    then obtain k' where k: "k = Suc k'" using "1.prems" by (cases k) auto
    have "n div 128 < 128 ^ Suc k'" using "1.prems" k by (simp add: less_mult_imp_div_less)
    with "1.IH" False k have "get_varint_bytes k (put_varint (n div 128) @ r) = Some (n div 128, r)"
      by simp
    moreover have "unat (of_nat (n mod 128 + 128) :: byte) = n mod 128 + 128"
      by (simp add: unat_of_nat del: of_nat_add)
    ultimately show ?thesis using False
      by (subst put_varint.simps) (simp del: of_nat_add)
  qed
qed

lemma get_varint_put: "n < 2 ^ 64 \<Longrightarrow> get_varint (put_varint n @ r) = Some (n, r)"
proof -
  assume n: "n < 2 ^ 64"
  then have "n < 128 ^ Suc 9" by simp
  then have "get_varint_bytes (Suc 9) (put_varint n @ r) = Some (n, r)" by (rule get_varint_bytes_put)
  moreover have "Suc 9 = (10 :: nat)" by simp
  ultimately have "get_varint_bytes 10 (put_varint n @ r) = Some (n, r)" by (simp only:)
  with n show ?thesis by (simp add: get_varint_def)
qed

lemma get_varint_bytes_shrinks: "get_varint_bytes k bs = Some (n, r) \<Longrightarrow> length r < length bs"
  by (induction k bs arbitrary: n r rule: get_varint_bytes.induct)
     (auto split: if_splits intro: less_SucI)

lemma get_varint_shrinks: "get_varint bs = Some (n, r) \<Longrightarrow> length r < length bs"
  by (auto simp: get_varint_def dest: get_varint_bytes_shrinks split: option.splits if_splits)

lemma put_varint_nonempty: "put_varint n \<noteq> []"
  by (subst put_varint.simps) simp

section \<open>Fields\<close>

datatype wire_field =
    VarintField nat nat
  | BytesField nat "byte list"
  | FixedField nat "byte list"

fun put_field :: "wire_field \<Rightarrow> byte list" where
  "put_field (VarintField num v) = put_varint (8 * num) @ put_varint v"
| "put_field (BytesField num bs) = put_varint (8 * num + 2) @ put_varint (length bs) @ bs"
| "put_field (FixedField num bs) =
     put_varint (8 * num + (if length bs = 8 then 1 else 5)) @ bs"

definition get_field :: "byte list \<Rightarrow> (wire_field \<times> byte list) option" where
  "get_field inp =
     (case get_varint inp of
        None \<Rightarrow> None
      | Some (tag, r) \<Rightarrow>
          let num = tag div 8; typ = tag mod 8
          in if num = 0 \<or> 2 ^ 29 \<le> num then None
             else if typ = 0 then map_option (\<lambda>(v, r'). (VarintField num v, r')) (get_varint r)
             else if typ = 2 then
               (case get_varint r of
                  None \<Rightarrow> None
                | Some (n, r') \<Rightarrow>
                    if length r' < n then None else Some (BytesField num (take n r'), drop n r'))
             else if typ = 1 then
               (if length r < 8 then None else Some (FixedField num (take 8 r), drop 8 r))
             else if typ = 5 then
               (if length r < 4 then None else Some (FixedField num (take 4 r), drop 4 r))
             else None)"

lemma get_field_shrinks: "get_field bs = Some (f, r) \<Longrightarrow> length r < length bs"
  by (auto simp: get_field_def Let_def dest!: get_varint_shrinks
      split: option.splits if_splits prod.splits)

function get_fields :: "byte list \<Rightarrow> wire_field list option" where
  "get_fields bs =
     (if bs = [] then Some []
      else case get_field bs of
        None \<Rightarrow> None
      | Some (f, r) \<Rightarrow> map_option (Cons f) (get_fields r))"
  by pat_completeness auto
termination
  by (relation "measure length") (auto dest: get_field_shrinks)

declare get_fields.simps [simp del]

fun valid_field :: "wire_field \<Rightarrow> bool" where
  "valid_field (VarintField num v) = (0 < num \<and> num < 2 ^ 29 \<and> v < 2 ^ 64)"
| "valid_field (BytesField num bs) = (0 < num \<and> num < 2 ^ 29 \<and> length bs < 2 ^ 64)"
| "valid_field (FixedField num bs) = False"

lemma tag_div_mod: "Suc (Suc (8 * n)) div 8 = n" "Suc (Suc (8 * n)) mod 8 = 2"
  by presburger+

lemma get_field_put: "valid_field f \<Longrightarrow> get_field (put_field f @ r) = Some (f, r)"
  by (cases f) (simp_all add: get_field_def get_varint_put Let_def tag_div_mod)

lemma put_field_nonempty: "put_field f \<noteq> []"
  by (cases f) (simp_all add: put_varint_nonempty)

lemma get_fields_put: "\<forall>f \<in> set fs. valid_field f \<Longrightarrow> get_fields (concat (map put_field fs)) = Some fs"
  by (induction fs)
     (subst get_fields.simps, simp_all add: get_field_put put_field_nonempty)+

section \<open>Messages\<close>

text \<open>Zigzag encoding of a signed 32-bit value.\<close>

definition zigzag :: "i32 \<Rightarrow> nat" where
  "zigzag w = nat (if 0 \<le> sint w then 2 * sint w else - 2 * sint w - 1)"

definition unzigzag :: "nat \<Rightarrow> i32" where
  "unzigzag n =
     (let k = n mod 2 ^ 32 in
      if even k then word_of_int (int (k div 2)) else word_of_int (- int (k div 2) - 1))"

lemma sint_bounds_32: "- (2 ^ 31) \<le> sint (w :: i32)" "sint (w :: i32) < 2 ^ 31"
  using sint_ge [of w] sint_lt [of w] by simp_all

lemma zigzag_less: "zigzag w < 2 ^ 32"
  using sint_bounds_32 [of w] by (auto simp: zigzag_def nat_less_iff)

lemma unzigzag_zigzag: "unzigzag (zigzag w) = w"
proof (cases "0 \<le> sint w")
  case True
  then have "zigzag w = 2 * nat (sint w)" by (simp add: zigzag_def nat_mult_distrib)
  moreover have "2 * nat (sint w) < 2 ^ 32" using zigzag_less [of w] calculation by simp
  ultimately show ?thesis using True by (simp add: unzigzag_def)
next
  case False
  then have z: "zigzag w = 2 * nat (- sint w - 1) + 1"
    by (simp add: zigzag_def nat_eq_iff)
  have "2 * nat (- sint w - 1) + 1 < 2 ^ 32" using zigzag_less [of w] z by simp
  then have "unzigzag (zigzag w) = word_of_int (- int (nat (- sint w - 1)) - 1)"
    by (simp add: unzigzag_def z)
  also have "- int (nat (- sint w - 1)) - 1 = sint w" using False by simp
  finally show ?thesis by simp
qed

definition varint_opt :: "nat \<Rightarrow> nat \<Rightarrow> wire_field list" where
  "varint_opt num v = (if v = 0 then [] else [VarintField num v])"

definition bytes_opt :: "nat \<Rightarrow> byte list \<Rightarrow> wire_field list" where
  "bytes_opt num bs = (if bs = [] then [] else [BytesField num bs])"

definition explicit_bytes :: "nat \<Rightarrow> byte list option \<Rightarrow> wire_field list" where
  "explicit_bytes num b = (case b of None \<Rightarrow> [] | Some bs \<Rightarrow> [BytesField num bs])"

definition explicit_varint :: "nat \<Rightarrow> u32 option \<Rightarrow> wire_field list" where
  "explicit_varint num v = (case v of None \<Rightarrow> [] | Some n \<Rightarrow> [VarintField num (unat n)])"

definition fields_of_message :: "mesh_message \<Rightarrow> wire_field list" where
  "fields_of_message m =
     varint_opt 1 (unat (message_type m)) @ varint_opt 2 (zigzag (data_type m)) @
     bytes_opt 3 (origin_mac m) @ bytes_opt 4 (target_mac m) @ bytes_opt 5 (last_hop_mac m) @
     bytes_opt 6 (msg_data m) @ varint_opt 7 (unat (msg_hop_count m)) @
     varint_opt 8 (unat (epoch_num m)) @ varint_opt 9 (unat (seq_num m)) @
     varint_opt 10 (unat (proto_version m)) @ bytes_opt 11 (msg_public_key m) @
     explicit_varint 12 (route_len m) @ explicit_bytes 13 (msg_route_path m) @
     explicit_bytes 14 (auth_tag m) @ explicit_bytes 17 (auth_path m)"

fun set_field :: "wire_field \<Rightarrow> mesh_message \<Rightarrow> mesh_message" where
  "set_field (VarintField num v) m =
     (if num = 1 then m\<lparr>message_type := of_nat v\<rparr>
      else if num = 2 then m\<lparr>data_type := unzigzag v\<rparr>
      else if num = 7 then m\<lparr>msg_hop_count := of_nat v\<rparr>
      else if num = 8 then m\<lparr>epoch_num := of_nat v\<rparr>
      else if num = 9 then m\<lparr>seq_num := of_nat v\<rparr>
      else if num = 10 then m\<lparr>proto_version := of_nat v\<rparr>
      else if num = 12 then m\<lparr>route_len := Some (of_nat v)\<rparr>
      else m)"
| "set_field (BytesField num bs) m =
     (if num = 3 then m\<lparr>origin_mac := bs\<rparr>
      else if num = 4 then m\<lparr>target_mac := bs\<rparr>
      else if num = 5 then m\<lparr>last_hop_mac := bs\<rparr>
      else if num = 6 then m\<lparr>msg_data := bs\<rparr>
      else if num = 11 then m\<lparr>msg_public_key := bs\<rparr>
      else if num = 13 then m\<lparr>msg_route_path := Some bs\<rparr>
      else if num = 14 then m\<lparr>auth_tag := Some bs\<rparr>
      else if num = 17 then m\<lparr>auth_path := Some bs\<rparr>
      else m)"
| "set_field (FixedField num bs) m = m"

text \<open>\<open>proto.Marshal\<close> refuses messages of 2 GiB and more.\<close>

definition proto_marshal :: "mesh_message \<Rightarrow> byte list option" where
  "proto_marshal m =
     (let bs = concat (map put_field (fields_of_message m))
      in if length bs < 2 ^ 31 then Some bs else None)"

definition proto_unmarshal :: "byte list \<Rightarrow> mesh_message option" where
  "proto_unmarshal bs = map_option (\<lambda>fs. fold set_field fs zero_message) (get_fields bs)"

lemma set_fields_message: "fold set_field (fields_of_message m) zero_message = m"
proof -
  note opts = varint_opt_def bytes_opt_def explicit_varint_def explicit_bytes_def
  have v: "fold set_field (varint_opt (Suc 0) (unat (message_type m))) a = a\<lparr>message_type := message_type m\<rparr>"
      if "message_type a = 0" for a using that by (auto simp: opts unat_eq_0)
  have v2: "fold set_field (varint_opt 2 (zigzag (data_type m))) a = a\<lparr>data_type := data_type m\<rparr>"
      if "data_type a = 0" for a
  proof (cases "zigzag (data_type m) = 0")
    case True
    then have "data_type m = 0"
      using unzigzag_zigzag [of "data_type m"] by (simp add: unzigzag_def)
    with True that show ?thesis by (simp add: opts)
  qed (simp add: opts unzigzag_zigzag)
  have v7: "fold set_field (varint_opt 7 (unat (msg_hop_count m))) a = a\<lparr>msg_hop_count := msg_hop_count m\<rparr>"
      if "msg_hop_count a = 0" for a using that by (auto simp: opts unat_eq_0)
  have v8: "fold set_field (varint_opt 8 (unat (epoch_num m))) a = a\<lparr>epoch_num := epoch_num m\<rparr>"
      if "epoch_num a = 0" for a using that by (auto simp: opts unat_eq_0)
  have v9: "fold set_field (varint_opt 9 (unat (seq_num m))) a = a\<lparr>seq_num := seq_num m\<rparr>"
      if "seq_num a = 0" for a using that by (auto simp: opts unat_eq_0)
  have v10: "fold set_field (varint_opt 10 (unat (proto_version m))) a = a\<lparr>proto_version := proto_version m\<rparr>"
      if "proto_version a = 0" for a using that by (auto simp: opts unat_eq_0)
  have b: "fold set_field (bytes_opt 3 (origin_mac m)) a = a\<lparr>origin_mac := origin_mac m\<rparr>"
      if "origin_mac a = []" for a using that by (simp add: opts)
  have b4: "fold set_field (bytes_opt 4 (target_mac m)) a = a\<lparr>target_mac := target_mac m\<rparr>"
      if "target_mac a = []" for a using that by (simp add: opts)
  have b5: "fold set_field (bytes_opt 5 (last_hop_mac m)) a = a\<lparr>last_hop_mac := last_hop_mac m\<rparr>"
      if "last_hop_mac a = []" for a using that by (simp add: opts)
  have b6: "fold set_field (bytes_opt 6 (msg_data m)) a = a\<lparr>msg_data := msg_data m\<rparr>"
      if "msg_data a = []" for a using that by (simp add: opts)
  have b11: "fold set_field (bytes_opt 11 (msg_public_key m)) a = a\<lparr>msg_public_key := msg_public_key m\<rparr>"
      if "msg_public_key a = []" for a using that by (simp add: opts)
  have e12: "fold set_field (explicit_varint 12 (route_len m)) a = a\<lparr>route_len := route_len m\<rparr>"
      if "route_len a = None" for a using that by (auto simp: opts split: option.split)
  have e13: "fold set_field (explicit_bytes 13 (msg_route_path m)) a = a\<lparr>msg_route_path := msg_route_path m\<rparr>"
      if "msg_route_path a = None" for a using that by (auto simp: opts split: option.split)
  have e14: "fold set_field (explicit_bytes 14 (auth_tag m)) a = a\<lparr>auth_tag := auth_tag m\<rparr>"
      if "auth_tag a = None" for a using that by (auto simp: opts split: option.split)
  have e17: "fold set_field (explicit_bytes 17 (auth_path m)) a = a\<lparr>auth_path := auth_path m\<rparr>"
      if "auth_path a = None" for a using that by (auto simp: opts split: option.split)
  show ?thesis
    unfolding fields_of_message_def
    by (simp add: v v2 v7 v8 v9 v10 b b4 b5 b6 b11 e12 e13 e14 e17)
qed

lemma unat_u32_less: "unat (w :: u32) < 2 ^ 64"
proof -
  have "unat w < 2 ^ LENGTH(32)" by (rule unsigned_less)
  then show ?thesis by simp
qed

lemma zigzag_less_64: "zigzag w < 2 ^ 64"
  by (rule less_le_trans [OF zigzag_less]) simp

text \<open>Everything but the length of a byte field is right by construction.\<close>

fun field_shape :: "wire_field \<Rightarrow> bool" where
  "field_shape (VarintField num v) = (0 < num \<and> num < 2 ^ 29 \<and> v < 2 ^ 64)"
| "field_shape (BytesField num bs) = (0 < num \<and> num < 2 ^ 29)"
| "field_shape (FixedField num bs) = False"

lemma shape_opts:
  "0 < num \<Longrightarrow> num < 2 ^ 29 \<Longrightarrow> v < 2 ^ 64 \<Longrightarrow> list_all field_shape (varint_opt num v)"
  "0 < num \<Longrightarrow> num < 2 ^ 29 \<Longrightarrow> list_all field_shape (bytes_opt num bs)"
  "0 < num \<Longrightarrow> num < 2 ^ 29 \<Longrightarrow> list_all field_shape (explicit_bytes num b)"
  by (simp_all add: varint_opt_def bytes_opt_def explicit_bytes_def split: option.split)

lemma shape_explicit_varint:
  "0 < num \<Longrightarrow> num < 2 ^ 29 \<Longrightarrow> list_all field_shape (explicit_varint num w)"
  using unat_u32_less by (simp add: explicit_varint_def split: option.split)

lemma fields_of_message_shape: "list_all field_shape (fields_of_message m)"
  unfolding fields_of_message_def list_all_append
  by (intro conjI shape_opts shape_explicit_varint unat_u32_less zigzag_less_64) simp_all

lemma fields_of_message_valid:
  assumes len: "length (concat (map put_field (fields_of_message m))) < 2 ^ 31"
    and f: "f \<in> set (fields_of_message m)"
  shows "valid_field f"
proof -
  from f obtain xs ys where "fields_of_message m = xs @ f # ys" by (auto simp: in_set_conv_decomp)
  with len have "length (put_field f) < 2 ^ 31" by simp
  also have "(2 :: nat) ^ 31 < 2 ^ 64" by simp
  finally have "length (put_field f) < 2 ^ 64" .
  then have "f = BytesField num bs \<Longrightarrow> length bs < 2 ^ 64" for num bs by simp
  moreover have "field_shape f"
    using fields_of_message_shape f by (auto simp: list_all_iff)
  ultimately show ?thesis by (cases f) auto
qed

interpretation wire: proto_codec proto_marshal proto_unmarshal
proof unfold_locales
  fix msg bs
  assume "proto_marshal msg = Some bs"
  then have bs: "bs = concat (map put_field (fields_of_message msg))"
    and len: "length (concat (map put_field (fields_of_message msg))) < 2 ^ 31"
    by (auto simp: proto_marshal_def Let_def split: if_splits)
  have "get_fields bs = Some (fields_of_message msg)"
    unfolding bs by (rule get_fields_put) (use fields_of_message_valid [OF len] in blast)
  then show "proto_unmarshal bs = Some msg"
    by (simp add: proto_unmarshal_def set_fields_message)
qed

text \<open>
  Every message the hub sends is frameable: with a version number and at most 3796 bytes of byte
  fields, the encoding is neither empty nor longer than the 4096 bytes \<open>ReadFrame\<close> accepts.
\<close>

definition payload_bytes :: "mesh_message \<Rightarrow> nat" where
  "payload_bytes m = length (origin_mac m) + length (target_mac m) + length (last_hop_mac m) +
     length (msg_data m) + length (msg_public_key m) +
     (case msg_route_path m of None \<Rightarrow> 0 | Some b \<Rightarrow> length b) +
     (case auth_tag m of None \<Rightarrow> 0 | Some b \<Rightarrow> length b) +
     (case auth_path m of None \<Rightarrow> 0 | Some b \<Rightarrow> length b)"

lemma length_put_varint_le: "n < 128 ^ Suc k \<Longrightarrow> length (put_varint n) \<le> Suc k"
proof (induction n arbitrary: k rule: put_varint.induct)
  case (1 n)
  show ?case
  proof (cases "n < 128")
    case True
    then show ?thesis by (subst put_varint.simps) simp
  next
    case False
    then obtain k' where k: "k = Suc k'" using "1.prems" by (cases k) auto
    have "n div 128 < 128 ^ Suc k'" using "1.prems" k by (simp add: less_mult_imp_div_less)
    with "1.IH" False k have "length (put_varint (n div 128)) \<le> k" by simp
    with False show ?thesis by (subst put_varint.simps) simp
  qed
qed

lemma length_put_varint: "n < 2 ^ 64 \<Longrightarrow> length (put_varint n) \<le> 10"
  using length_put_varint_le [of n 9] by simp

fun field_size :: "wire_field \<Rightarrow> nat" where
  "field_size (VarintField num v) = 20"
| "field_size (BytesField num bs) = 20 + length bs"
| "field_size (FixedField num bs) = 20 + length bs"

lemma length_put_field: "valid_field f \<Longrightarrow> length (put_field f) \<le> field_size f"
proof (cases f)
  case (VarintField num v)
  moreover assume "valid_field f"
  ultimately show ?thesis
    using length_put_varint [of "8 * num"] length_put_varint [of v] by simp
next
  case (BytesField num bs)
  moreover assume "valid_field f"
  ultimately show ?thesis
    using length_put_varint [of "8 * num + 2"] length_put_varint [of "length bs"] by simp
qed simp

lemma length_put_fields:
  "\<forall>f \<in> set fs. valid_field f \<Longrightarrow>
     length (concat (map put_field fs)) \<le> sum_list (map field_size fs)"
  by (induction fs) (auto dest: length_put_field intro: add_mono)

lemma size_opts:
  "sum_list (map field_size (varint_opt num v)) \<le> 20"
  "sum_list (map field_size (bytes_opt num bs)) \<le> 20 + length bs"
  "sum_list (map field_size (explicit_varint num w)) \<le> 20"
  "sum_list (map field_size (explicit_bytes num b)) \<le> 20 + (case b of None \<Rightarrow> 0 | Some x \<Rightarrow> length x)"
  by (simp_all add: varint_opt_def bytes_opt_def explicit_varint_def explicit_bytes_def split: option.split)

lemma size_fields_of_message:
  "sum_list (map field_size (fields_of_message m)) \<le> 300 + payload_bytes m"
  unfolding fields_of_message_def payload_bytes_def map_append sum_list_append
  using size_opts(1) [of 1 "unat (message_type m)"] size_opts(1) [of 2 "zigzag (data_type m)"]
    size_opts(2) [of 3 "origin_mac m"] size_opts(2) [of 4 "target_mac m"]
    size_opts(2) [of 5 "last_hop_mac m"] size_opts(2) [of 6 "msg_data m"]
    size_opts(1) [of 7 "unat (msg_hop_count m)"] size_opts(1) [of 8 "unat (epoch_num m)"]
    size_opts(1) [of 9 "unat (seq_num m)"] size_opts(1) [of 10 "unat (proto_version m)"]
    size_opts(2) [of 11 "msg_public_key m"] size_opts(3) [of 12 "route_len m"]
    size_opts(4) [of 13 "msg_route_path m"] size_opts(4) [of 14 "auth_tag m"]
    size_opts(4) [of 17 "auth_path m"]
  by linarith

lemma explicit_bytes_valid:
  "list_all field_shape fs \<Longrightarrow> sum_list (map field_size fs) < 2 ^ 64 \<Longrightarrow> f \<in> set fs \<Longrightarrow> valid_field f"
proof -
  assume sh: "list_all field_shape fs" and sz: "sum_list (map field_size fs) < 2 ^ 64" and f: "f \<in> set fs"
  have "field_size f \<le> sum_list (map field_size fs)" using f by (simp add: member_le_sum_list)
  with sh sz f show ?thesis by (cases f) (auto simp: list_all_iff)
qed

lemma small_frameable:
  assumes "proto_version m \<noteq> 0" and "payload_bytes m \<le> 3796"
  shows "frameable proto_marshal m"
proof -
  let ?fs = "fields_of_message m"
  have sz: "sum_list (map field_size ?fs) \<le> 4096" using size_fields_of_message [of m] assms(2) by linarith
  also have "(4096 :: nat) < 2 ^ 64" by simp
  finally have "\<forall>f \<in> set ?fs. valid_field f"
    using explicit_bytes_valid [OF fields_of_message_shape] by blast
  from length_put_fields [OF this] sz have len: "length (concat (map put_field ?fs)) \<le> 4096" by linarith
  have "VarintField 10 (unat (proto_version m)) \<in> set ?fs"
    using assms(1) by (simp add: fields_of_message_def varint_opt_def unat_eq_0)
  then have "concat (map put_field ?fs) \<noteq> []" using put_field_nonempty by (metis concat_eq_Nil_conv imageI list.set_map)
  with len show ?thesis by (simp add: frameable_def proto_marshal_def Let_def)
qed

section \<open>Properties\<close>

text \<open>
  C15. A sequence of messages written to a working port and read back yields the same messages
  in order and leaves the bytes that follow untouched, for every protobuf codec with the
  round-trip law, provided each message marshals to between 1 and 4096 bytes.
\<close>

theorem frames_roundtrip:
  assumes "\<And>msg bs. marshal msg = Some bs \<Longrightarrow> unmarshal bs = Some msg"
    and "\<forall>msg \<in> set msgs. frameable marshal msg"
  shows "read_frames unmarshal chunk (length msgs)
           (fold (\<lambda>msg out. snd (write_frame marshal (\<lambda>_. None) out msg)) msgs [] @ rest)
         = (map Inr msgs, rest)"
proof -
  have codec: "proto_codec marshal unmarshal" by (rule proto_codec.intro) (rule assms(1))
  have step: "snd (write_frame marshal (\<lambda>_. None) out msg) = out @ frame_bytes marshal msg"
    if "frameable marshal msg" for out msg
    using that by (auto simp: frameable_def write_frame_ok split: option.splits)
  have "fold (\<lambda>msg out. snd (write_frame marshal (\<lambda>_. None) out msg)) ms out
        = out @ concat (map (frame_bytes marshal) ms)"
    if "\<forall>msg \<in> set ms. frameable marshal msg" for ms out
    using that by (induction ms arbitrary: out) (auto simp: step)
  from this [OF assms(2)] show ?thesis
    using assms(2) by (simp add: proto_codec.read_frames_frame_bytes [OF codec])
qed

theorem frames_roundtrip_witness:
  "read_frames proto_unmarshal (\<lambda>_. 0) 2
     (fold (\<lambda>msg out. snd (write_frame proto_marshal (\<lambda>_. None) out msg))
        [build_health_request_message,
         zero_message\<lparr>proto_version := 5, message_type := MessageTypeMasterBeacon\<rparr>] [] @ [7])
   = ([Inr build_health_request_message,
       Inr (zero_message\<lparr>proto_version := 5, message_type := MessageTypeMasterBeacon\<rparr>)], [7])"
proof -
  have fr: "frameable proto_marshal build_health_request_message"
    by (rule small_frameable)
       (simp_all add: payload_bytes_def build_health_request_message_def MaxDataLength_def)
  have fr': "frameable proto_marshal
      (zero_message\<lparr>proto_version := 5, message_type := MessageTypeMasterBeacon\<rparr>)"
    by (rule small_frameable) (simp_all add: payload_bytes_def)
  show ?thesis
    using frames_roundtrip [of proto_marshal proto_unmarshal
      "[build_health_request_message,
        zero_message\<lparr>proto_version := 5, message_type := MessageTypeMasterBeacon\<rparr>]" "\<lambda>_. 0" "[7]"]
      wire.unmarshal_marshal fr fr'
    by (simp add: numeral_2_eq_2)
qed

section \<open>Two writers on one port\<close>

text \<open>A command frame as \<open>SendNodeData\<close> sends it to the LED nodes, and its encoding.\<close>

definition led_frame :: "byte list \<Rightarrow> mesh_message" where
  "led_frame d = zero_message\<lparr> proto_version := 5, message_type := MessageTypeSerialCmdBroadcast,
     data_type := AdapterTypeLED, msg_data := d \<rparr>"

lemma led_frame_bytes:
  assumes "length d = 64"
  shows "proto_marshal (led_frame d) = Some ([8, 3, 16, 6, 50, 64] @ d @ [80, 5])"
proof -
  have "d \<noteq> []" using assms by auto
  then show ?thesis using assms
    by (simp add: proto_marshal_def fields_of_message_def led_frame_def zero_message_def varint_opt_def bytes_opt_def
        explicit_varint_def explicit_bytes_def wire_consts zigzag_def put_varint.simps Let_def)
qed

lemma led_frameable: "length d = 64 \<Longrightarrow> frameable proto_marshal (led_frame d)"
  by (simp add: frameable_def led_frame_bytes)

lemma led_frame_writes:
  "length d = 64 \<Longrightarrow>
     frame_writes proto_marshal (led_frame d) = [[72, 0], [8, 3, 16, 6, 50, 64] @ d @ [80, 5]]"
  by (simp add: frame_writes_def led_frame_bytes le16_def)

text \<open>What the reader makes of the second header followed by all but the last two bytes of the first message.\<close>

lemma torn_frame:
  assumes "length d = 64"
  shows "proto_unmarshal ([72, 0, 8, 3, 16, 6, 50, 64] @ d) = Some (led_frame d\<lparr> proto_version := 0 \<rparr>)"
proof -
  let ?fs = "[VarintField 9 0, VarintField 1 3, VarintField 2 6, BytesField 6 d]"
  have bytes: "concat (map put_field ?fs) = [72, 0, 8, 3, 16, 6, 50, 64] @ d"
    using assms by (simp add: put_varint.simps)
  have "get_fields (concat (map put_field ?fs)) = Some ?fs"
    by (rule get_fields_put) (simp add: assms)
  then have "get_fields ([72, 0, 8, 3, 16, 6, 50, 64] @ d) = Some ?fs" unfolding bytes .
  then show ?thesis
    by (simp add: proto_unmarshal_def led_frame_def zero_message_def wire_consts unzigzag_def)
qed

lemma torn_header: "of_le16 80 5 = 1360"
  by (simp add: of_le16_def)

lemma led_header: "of_le16 72 0 = 72"
  by (simp add: of_le16_def)

text \<open>Writers that hold a lock over each \<open>WriteFrame\<close> interleave whole frames only.\<close>

lemma locked_writers:
  assumes "\<forall>msg \<in> set xs \<union> set ys. frameable proto_marshal msg" and "msgs \<in> shuffles xs ys"
  shows "read_frames proto_unmarshal chunk (length msgs) (concat (map (frame_bytes proto_marshal) msgs) @ rest) =
           (map Inr msgs, rest)"
proof -
  have "\<forall>msg \<in> set msgs. frameable proto_marshal msg" using assms set_shuffles [OF assms(2)] by simp
  then show ?thesis by (rule wire.read_frames_frame_bytes)
qed

end
