(* ===== verification/Replay_Cache.thy ===== *)
theory Replay_Cache
  imports Hub_Prelude
begin

text \<open>
  The replay filter of \<open>nodeauth/replay.go\<close>: per node a ring of 32 \<open>(epoch, seq)\<close> pairs. The
  map is keyed by the six address bytes; the ring is an array with the slot written next.
\<close>

section \<open>State\<close>

type_synonym ring_entry = "u32 \<times> u32"

record node_buf =
  nb_buf :: "ring_entry list"
  nb_idx :: nat

type_synonym replay_cache = "(byte list, node_buf) gomap"

definition new_replay_cache :: "int \<Rightarrow> replay_cache" where
  "new_replay_cache capacity = []"

definition empty_buf :: node_buf where
  "empty_buf = \<lparr> nb_buf = replicate 32 (0, 0), nb_idx = 0 \<rparr>"

section \<open>The operation\<close>

definition buf_contains :: "u32 \<Rightarrow> u32 \<Rightarrow> node_buf \<Rightarrow> bool" where
  "buf_contains epoch seq nb \<longleftrightarrow>
     list_ex (\<lambda>(e, s). e = epoch \<and> s = seq \<and> (e \<noteq> 0 \<or> s \<noteq> 0)) (nb_buf nb)"

definition record_entry :: "u32 \<Rightarrow> u32 \<Rightarrow> node_buf \<Rightarrow> node_buf" where
  "record_entry epoch seq nb =
     \<lparr> nb_buf = (nb_buf nb)[nb_idx nb := (epoch, seq)], nb_idx = (nb_idx nb + 1) mod 32 \<rparr>"

text \<open>A node's first message allocates its ring even when the message is then a duplicate.\<close>

definition is_duplicate ::
    "byte list \<Rightarrow> u32 \<Rightarrow> u32 \<Rightarrow> replay_cache \<Rightarrow> bool \<times> replay_cache" where
  "is_duplicate mac epoch seq rc =
     (let nb = (case map_of rc mac of None \<Rightarrow> empty_buf | Some b \<Rightarrow> b);
          rc' = (case map_of rc mac of None \<Rightarrow> AList.update mac nb rc | Some b \<Rightarrow> rc)
      in if buf_contains epoch seq nb then (True, rc')
         else (False, AList.update mac (record_entry epoch seq nb) rc'))"

section \<open>The ring is a window over the past\<close>

definition buf_ok :: "node_buf \<Rightarrow> bool" where
  "buf_ok nb \<longleftrightarrow> length (nb_buf nb) = 32 \<and> nb_idx nb < 32"

definition window :: "node_buf \<Rightarrow> ring_entry list" where
  "window nb = rev (drop (nb_idx nb) (nb_buf nb) @ take (nb_idx nb) (nb_buf nb))"

lemma buf_ok_empty [simp]: "buf_ok empty_buf"
  by (simp add: buf_ok_def empty_buf_def)

lemma buf_ok_record: "buf_ok nb \<Longrightarrow> buf_ok (record_entry e s nb)"
  by (simp add: buf_ok_def record_entry_def)

lemma window_empty: "window empty_buf = replicate 32 (0, 0)"
  by (simp add: window_def empty_buf_def)

lemma set_window: "buf_ok nb \<Longrightarrow> set (window nb) = set (nb_buf nb)"
  unfolding window_def by (metis append_take_drop_id set_append set_rev sup_commute)

lemma rotated_update:
  assumes "i < length xs"
  shows "drop (Suc i) (xs[i := x]) @ take (Suc i) (xs[i := x]) = tl (drop i xs) @ take i xs @ [x]"
proof -
  have "xs[i := x] = take i xs @ x # drop (Suc i) xs" by (rule upd_conv_take_nth_drop [OF assms])
  moreover have "tl (drop i xs) = drop (Suc i) xs" by (simp add: drop_Suc tl_drop)
  ultimately show ?thesis using assms by simp
qed

text \<open>Recording pushes onto the window and drops its oldest entry.\<close>

lemma window_record:
  assumes "buf_ok nb"
  shows "window (record_entry e s nb) = take 32 ((e, s) # window nb)"
proof -
  let ?i = "nb_idx nb" and ?b = "nb_buf nb"
  have i: "?i < 32" and b: "length ?b = 32" using assms by (simp_all add: buf_ok_def)
  have split: "drop ?i ?b = ?b ! ?i # tl (drop ?i ?b)"
    using i b by (simp add: Cons_nth_drop_Suc [symmetric] drop_Suc tl_drop)
  have new: "window (record_entry e s nb) = rev (tl (drop ?i ?b) @ take ?i ?b @ [(e, s)])"
  proof (cases "?i = 31")
    case True
    then show ?thesis
      using b rotated_update [of ?i ?b "(e, s)"] by (simp add: window_def record_entry_def)
  next
    case False
    then have "(?i + 1) mod 32 = Suc ?i" using i by simp
    then show ?thesis
      using i b rotated_update [of ?i ?b "(e, s)"] by (simp add: window_def record_entry_def)
  qed
  have "window nb = rev (tl (drop ?i ?b) @ take ?i ?b) @ [?b ! ?i]"
    unfolding window_def by (subst split) simp
  moreover have "length (rev (tl (drop ?i ?b) @ take ?i ?b)) = 31" using i b by simp
  ultimately show ?thesis unfolding new by simp
qed

section \<open>Histories\<close>

text \<open>
  A run of the filter over a stream of messages, and its specification: per node the list of the
  pairs it let through, newest first.
\<close>

type_synonym replay_msg = "byte list \<times> u32 \<times> u32"

fun filter_run :: "replay_cache \<Rightarrow> replay_msg list \<Rightarrow> bool list \<times> replay_cache" where
  "filter_run rc [] = ([], rc)"
| "filter_run rc ((mac, e, s) # ms) =
     (let (dup, rc1) = is_duplicate mac e s rc; (ds, rc2) = filter_run rc1 ms in (dup # ds, rc2))"

definition spec_duplicate :: "ring_entry list \<Rightarrow> u32 \<Rightarrow> u32 \<Rightarrow> bool" where
  "spec_duplicate past e s \<longleftrightarrow> (e, s) \<in> set (take 32 past) \<and> (e, s) \<noteq> (0, 0)"

fun spec_run :: "(byte list \<Rightarrow> ring_entry list) \<Rightarrow> replay_msg list \<Rightarrow> bool list" where
  "spec_run past [] = []"
| "spec_run past ((mac, e, s) # ms) =
     (if spec_duplicate (past mac) e s then True # spec_run past ms
      else False # spec_run (past(mac := (e, s) # past mac)) ms)"

definition buf_for :: "replay_cache \<Rightarrow> byte list \<Rightarrow> node_buf" where
  "buf_for rc mac = (case map_of rc mac of None \<Rightarrow> empty_buf | Some b \<Rightarrow> b)"

definition ring_refines :: "replay_cache \<Rightarrow> (byte list \<Rightarrow> ring_entry list) \<Rightarrow> bool" where
  "ring_refines rc past \<longleftrightarrow>
     (\<forall>mac. buf_ok (buf_for rc mac) \<and>
        window (buf_for rc mac) = take 32 (past mac @ replicate 32 (0, 0)))"

lemma buf_for_is_duplicate:
  "fst (is_duplicate mac e s rc) = buf_contains e s (buf_for rc mac)"
  "buf_for (snd (is_duplicate mac e s rc)) m =
     (if m = mac \<and> \<not> buf_contains e s (buf_for rc mac) then record_entry e s (buf_for rc mac)
      else buf_for rc m)"
  by (auto simp: is_duplicate_def buf_for_def Let_def gm.lookup_put split: option.splits)

lemma buf_contains_spec:
  assumes "ring_refines rc past"
  shows "buf_contains e s (buf_for rc mac) = spec_duplicate (past mac) e s"
proof -
  have ok: "buf_ok (buf_for rc mac)"
    and w: "window (buf_for rc mac) = take 32 (past mac @ replicate 32 (0, 0))"
    using assms by (auto simp: ring_refines_def)
  have "buf_contains e s (buf_for rc mac) \<longleftrightarrow> (e, s) \<in> set (window (buf_for rc mac)) \<and> (e, s) \<noteq> (0, 0)"
    unfolding set_window [OF ok] by (auto simp: buf_contains_def list_ex_iff)
  moreover have "set (take 32 (past mac @ replicate 32 (0, 0))) \<subseteq> set (take 32 (past mac)) \<union> {(0, 0)}"
    by (auto simp: take_append dest: in_set_takeD)
  moreover have "set (take 32 (past mac)) \<subseteq> set (take 32 (past mac @ replicate 32 (0, 0)))"
    by (auto simp: take_append)
  ultimately show ?thesis unfolding w spec_duplicate_def by blast
qed

lemma take_pushed: "take 32 (x # take 32 xs) = take 32 (x # xs)"
  by (simp add: take_Cons')

lemma ring_refines_step:
  assumes "ring_refines rc past"
  shows "ring_refines (snd (is_duplicate mac e s rc))
           (if spec_duplicate (past mac) e s then past else past(mac := (e, s) # past mac))"
  using assms buf_contains_spec [OF assms, of e s mac]
  by (auto simp: ring_refines_def buf_for_is_duplicate buf_ok_record window_record take_pushed)

lemma ring_refines_start: "ring_refines (new_replay_cache n) (\<lambda>_. [])"
  by (simp add: ring_refines_def buf_for_def new_replay_cache_def window_empty)

lemma filter_run_spec:
  "ring_refines rc past \<Longrightarrow> fst (filter_run rc ms) = spec_run past ms"
proof (induction ms arbitrary: rc past)
  case Nil
  then show ?case by simp
next
  case (Cons m ms)
  obtain mac e s where m: "m = (mac, e, s)" by (cases m)
  show ?case
    using Cons.IH [OF ring_refines_step [OF Cons.prems, of mac e s]]
      buf_contains_spec [OF Cons.prems, of e s mac] buf_for_is_duplicate(1) [of mac e s rc]
    by (simp add: m case_prod_beta Let_def)
qed

section \<open>Properties\<close>

text \<open>
  C27. The ring buffer is the sliding-window filter it stands for: on every stream of messages
  from any nodes, \<open>IsDuplicate\<close> answers exactly as the specification that remembers, per node,
  the last 32 pairs it let through, and nodes never disturb each other. In particular the
  modular index never leaves the array.
\<close>

theorem replay_filter_refines_window:
  "fst (filter_run (new_replay_cache n) ms) = spec_run (\<lambda>_. []) ms"
  by (rule filter_run_spec [OF ring_refines_start])

lemma spec_run_length: "length (spec_run past ms) = length ms"
  by (induction ms arbitrary: past) auto

lemma spec_run_snoc: "spec_run past (ms @ [m]) \<noteq> []"
  using spec_run_length [of past "ms @ [m]"] by auto

lemma set_take_push: "x \<in> set (take k xs) \<Longrightarrow> x \<in> set (take (Suc k) (y # xs))"
  by simp

lemma spec_catches:
  assumes "(e, s) \<in> set (take (32 - length [m \<leftarrow> ms. fst m = mac]) (past mac))"
    and "(e, s) \<noteq> (0, 0)" and "length [m \<leftarrow> ms. fst m = mac] < 32"
  shows "last (spec_run past (ms @ [(mac, e, s)])) = True"
  using assms
proof (induction ms arbitrary: past)
  case Nil
  then show ?case by (simp add: spec_duplicate_def)
next
  case (Cons m ms)
  obtain mac' e' s' where m: "m = (mac', e', s')" by (cases m)
  let ?n = "length [m \<leftarrow> ms. fst m = mac]"
  have le: "?n < 32" using Cons.prems(3) by (auto split: if_splits)
  have keep: "(e, s) \<in> set (take (32 - ?n) (past mac))"
    using Cons.prems(1) set_take_subset_set_take [OF diff_le_mono [of 31 32 ?n], of "past mac"]
    by (cases "fst m = mac") auto
  have push: "(e, s) \<in> set (take (32 - ?n) ((past(mac' := (e', s') # past mac')) mac))"
  proof (cases "mac' = mac")
    case True
    then have old: "(e, s) \<in> set (take (32 - Suc ?n) (past mac))"
      using Cons.prems(1) m by simp
    have "32 - ?n = Suc (32 - Suc ?n)" using le by arith
    then show ?thesis using set_take_push [OF old, of "(e', s')"] True by (simp only: fun_upd_same)
  next
    case False
    then show ?thesis using keep by simp
  qed
  show ?case
    using Cons.IH [of past, OF keep Cons.prems(2) le]
      Cons.IH [of "past(mac' := (e', s') # past mac')", OF push Cons.prems(2) le] spec_run_snoc
    by (simp add: m del: fun_upd_apply)
qed

lemma spec_catches_accepted:
  assumes "last (spec_run past (before @ [(mac, e, s)])) = False"
    and "(e, s) \<noteq> (0, 0)" and "length [m \<leftarrow> between. fst m = mac] < 32"
  shows "last (spec_run past (before @ (mac, e, s) # between @ [(mac, e, s)])) = True"
  using assms(1)
proof (induction before arbitrary: past)
  case Nil
  let ?past = "past(mac := (e, s) # past mac)"
  have "(e, s) \<in> set (take (32 - length [m \<leftarrow> between. fst m = mac]) (?past mac))"
    using assms(3) by (simp add: take_Cons')
  from spec_catches [where past = ?past and ms = between and mac = mac, OF this assms(2,3)] show ?case
    using Nil spec_run_snoc by (simp split: if_splits)
next
  case (Cons m ms)
  have ne: "spec_run p (ms @ (mac, e, s) # between @ [(mac, e, s)]) \<noteq> []" for p
    using spec_run_snoc [of p "ms @ (mac, e, s) # between"] by simp
  show ?case
    using Cons.IH Cons.prems ne spec_run_snoc by (cases m) (auto split: if_splits)
qed

text \<open>
  A replayed message is caught: once \<open>IsDuplicate\<close> has let a message with a non-zero pair
  through, the same message is reported as a duplicate if fewer than 32 messages of the same
  node came in between, no matter how many came from other nodes and what came before.
\<close>

theorem replay_is_caught:
  assumes "last (fst (filter_run (new_replay_cache n) (before @ [(mac, e, s)]))) = False"
    and "(e, s) \<noteq> (0, 0)" and "length [m \<leftarrow> between. fst m = mac] < 32"
  shows "last (fst (filter_run (new_replay_cache n) (before @ (mac, e, s) # between @ [(mac, e, s)]))) = True"
  using spec_catches_accepted [OF _ assms(2,3)] assms(1)
  unfolding filter_run_spec [OF ring_refines_start] by blast

theorem replay_is_caught_witness:
  "last (fst (filter_run (new_replay_cache 0) [([1], 1, 5), ([2], 1, 5), ([1], 1, 5)])) = True"
proof -
  have "last (fst (filter_run (new_replay_cache 0) ([] @ [([1], 1, 5)]))) = False"
    by (simp add: new_replay_cache_def is_duplicate_def buf_contains_def empty_buf_def list_ex_iff)
  from replay_is_caught [OF this, of "[([2], 1, 5)]"] show ?thesis by simp
qed

end
