(* ===== verification/Table_Store.thy ===== *)
theory Table_Store
  imports Hub_Prelude
begin

text \<open>
  What the hub's three on-disk registries (nodes, node authentication, zones) share: inserting
  through a freshly allocated or an existing pointer, the JSON file behind a registry, and the
  loops that save it. The locale \<open>persisted_table\<close> states the contract between a registry and
  its file format; each registry interprets it on its own \<open>Persist\<close> and \<open>Load\<close> code.
\<close>

section \<open>Insert through a pointer\<close>

text \<open>
  The idiom \<open>node, ok := m[k]; if !ok { node = &T{...}; m[k] = node }; node.f = ...\<close>: the
  update \<open>f\<close> goes to the existing entry, or to a new one that starts as \<open>fresh\<close>.
\<close>

definition upsert :: "'k \<Rightarrow> 'v \<Rightarrow> ('v \<Rightarrow> 'v) \<Rightarrow> ('k, 'v) gomap \<Rightarrow> ('k, 'v) gomap" where
  "upsert k fresh f m = AList.update k (f (case map_of m k of None \<Rightarrow> fresh | Some v \<Rightarrow> v)) m"

lemma lookup_upsert:
  "map_of (upsert k fresh f m) =
     (map_of m)(k \<mapsto> f (case map_of m k of None \<Rightarrow> fresh | Some v \<Rightarrow> v))"
  by (simp add: upsert_def gm.lookup_put)

lemma keys_distinct_upsert [simp]: "keys_distinct m \<Longrightarrow> keys_distinct (upsert k fresh f m)"
  by (simp add: upsert_def gm.wf_put)

lemma keys_distinct_update [simp]: "keys_distinct m \<Longrightarrow> keys_distinct (AList.update k v m)"
  by (rule gm.wf_put)

lemma keys_distinct_delete [simp]: "keys_distinct m \<Longrightarrow> keys_distinct (AList.delete k m)"
  by (rule gm.wf_del)

text \<open>
  A table is well formed when its keys are distinct and each entry satisfies the registry's
  own condition relating an entry to its key.
\<close>

definition table_inv :: "('k \<Rightarrow> 'v \<Rightarrow> bool) \<Rightarrow> ('k, 'v) gomap \<Rightarrow> bool" where
  "table_inv P m \<longleftrightarrow> keys_distinct m \<and> (\<forall>k v. map_of m k = Some v \<longrightarrow> P k v)"

lemma table_inv_empty [simp]: "table_inv P []"
  by (simp add: table_inv_def)

lemma table_invD: "table_inv P m \<Longrightarrow> map_of m k = Some v \<Longrightarrow> P k v"
  by (simp add: table_inv_def)

lemma table_inv_distinct: "table_inv P m \<Longrightarrow> keys_distinct m"
  by (simp add: table_inv_def)

lemma table_inv_put: "table_inv P m \<Longrightarrow> P k v \<Longrightarrow> table_inv P (AList.update k v m)"
  by (auto simp: table_inv_def gm.lookup_put)

lemma table_inv_del: "table_inv P m \<Longrightarrow> table_inv P (AList.delete k m)"
  by (auto simp: table_inv_def gm.lookup_del)

lemma table_inv_upsert:
  "table_inv P m \<Longrightarrow> P k (f fresh) \<Longrightarrow> (\<And>v. P k v \<Longrightarrow> P k (f v)) \<Longrightarrow>
     table_inv P (upsert k fresh f m)"
  unfolding upsert_def
  by (rule table_inv_put) (auto dest: table_invD split: option.split)

lemma table_inv_adjust:
  "table_inv P m \<Longrightarrow> (\<And>v. P k v \<Longrightarrow> P k (f v)) \<Longrightarrow> table_inv P (adjust k f m)"
  by (auto simp: table_inv_def lookup_adjust)

lemmas table_inv_intros = table_inv_put table_inv_del table_inv_upsert table_inv_adjust

section \<open>The JSON file of a registry\<close>

text \<open>
  What \<open>os.ReadFile\<close> followed by \<open>json.Unmarshal\<close> finds at a path: no file, a read error, text
  that does not decode, or the decoded entries. \<open>json.MarshalIndent\<close> of the entries decodes to
  the same entries (all strings the hub stores are valid UTF-8, since they were decoded from
  JSON or printed by the hub), so a successful \<open>os.WriteFile\<close> leaves \<open>Json entries\<close>; a failed
  one leaves whatever the operating system left.
\<close>

datatype 'e disk_file = Missing | ReadFails go_error | BadJson go_error | Json "'e list"

datatype 'e write_outcome = Written | WriteFails go_error "'e disk_file"

definition read_entries :: "'e disk_file \<Rightarrow> go_error + 'e list" where
  "read_entries f = (case f of Missing \<Rightarrow> Inr [] | ReadFails e \<Rightarrow> Inl e | BadJson e \<Rightarrow> Inl e | Json es \<Rightarrow> Inr es)"

definition write_file :: "'e write_outcome \<Rightarrow> 'e list \<Rightarrow> go_error option \<times> 'e disk_file" where
  "write_file out es = (case out of Written \<Rightarrow> (None, Json es) | WriteFails e left \<Rightarrow> (Some e, left))"

text \<open>The load loop: entries that do not decode are logged and skipped.\<close>

definition load_table ::
    "('e \<Rightarrow> ('k \<times> 'v) option) \<Rightarrow> 'e list \<Rightarrow> ('k, 'v) gomap \<Rightarrow> ('k, 'v) gomap" where
  "load_table decode es m =
     fold (\<lambda>e m. case decode e of None \<Rightarrow> m | Some (k, v) \<Rightarrow> AList.update k v m) es m"

lemma load_table_eq_fold_put:
  "load_table decode es m = fold (\<lambda>(k, v). AList.update k v) (List.map_filter decode es) m"
  unfolding load_table_def
  by (induction es arbitrary: m) (auto simp: List.map_filter_def split: option.splits)

lemma keys_distinct_load_table: "keys_distinct m \<Longrightarrow> keys_distinct (load_table decode es m)"
  unfolding load_table_eq_fold_put by (rule gm.wf_fold_put)

lemma table_inv_load_table:
  assumes "table_inv P m" and "\<And>e k v. e \<in> set es \<Longrightarrow> decode e = Some (k, v) \<Longrightarrow> P k v"
  shows "table_inv P (load_table decode es m)"
  unfolding load_table_def
  by (rule fold_invariant_step)
    (use assms in \<open>auto intro!: table_inv_put split: option.splits\<close>)

lemma map_of_distinct_rev: "distinct (map fst m) \<Longrightarrow> map_of (rev m) = map_of m"
  by (rule map_of_eqI) (auto simp: rev_map [symmetric])

locale persisted_table =
  fixes key_ok :: "'k \<Rightarrow> 'v \<Rightarrow> bool"
    and encode :: "'v \<Rightarrow> 'e"
    and decode :: "'e \<Rightarrow> ('k \<times> 'v) option"
    and norm :: "'v \<Rightarrow> 'v"
  assumes decode_encode: "key_ok k v \<Longrightarrow> decode (encode v) = Some (k, norm v)"
    and key_ok_norm: "key_ok k v \<Longrightarrow> key_ok k (norm v)"
begin

lemma decode_entries:
  "table_inv key_ok m \<Longrightarrow>
     List.map_filter decode (map (encode \<circ> snd) m) = map (\<lambda>(k, v). (k, norm v)) m"
proof -
  assume "table_inv key_ok m"
  then have "\<forall>(k, v) \<in> set m. key_ok k v"
    by (auto simp: table_inv_def simp flip: gm.entries_lookup)
  then show ?thesis
    by (induction m) (auto simp: map_filter_simps decode_encode)
qed

text \<open>Loading a saved registry into an empty one restores it, up to what the format rounds.\<close>

lemma load_saved:
  assumes "table_inv key_ok m"
  shows "map_of (load_table decode (map (encode \<circ> snd) m) []) = map_option norm \<circ> map_of m"
proof -
  have "distinct (map fst (map (\<lambda>(k, v). (k, norm v)) m))"
    using assms by (simp add: table_inv_def keys_distinct_def comp_def case_prod_beta)
  then show ?thesis
    unfolding load_table_eq_fold_put decode_entries [OF assms] gm.lookup_fold_put
    by (simp add: map_of_distinct_rev map_of_map)
qed

lemma load_saved_inv:
  "table_inv key_ok m \<Longrightarrow> table_inv key_ok (load_table decode (map (encode \<circ> snd) m) [])"
  using load_saved [of m] keys_distinct_load_table [of "[]" decode "map (encode \<circ> snd) m"]
  by (auto simp: table_inv_def key_ok_norm)

text \<open>A second save and load changes nothing more when rounding is idempotent.\<close>

lemma load_saved_twice:
  assumes inv: "table_inv key_ok m" and idem: "\<And>v. norm (norm v) = norm v"
  shows "map_of (load_table decode (map (encode \<circ> snd)
            (load_table decode (map (encode \<circ> snd) m) [])) []) =
         map_of (load_table decode (map (encode \<circ> snd) m) [])"
  unfolding load_saved [OF load_saved_inv [OF inv]] load_saved [OF inv]
  by (auto simp: fun_eq_iff idem option.map_comp comp_def)

end

section \<open>Save loops\<close>

text \<open>
  A \<open>PersistLoop\<close> goroutine: it saves on every tick, and once more when the stop channel is
  closed, after which it returns. Its history is the list of the events it selects, each with
  the registry at that moment and the result the operating system gives the save.
\<close>

datatype loop_event = Tick | StopSignal

fun persist_loop ::
    "('w \<Rightarrow> 'r \<Rightarrow> 'f \<Rightarrow> go_error option \<times> 'f) \<Rightarrow> (loop_event \<times> 'r \<times> 'w) list \<Rightarrow> 'f \<Rightarrow> bool \<times> 'f" where
  "persist_loop save [] f = (False, f)"
| "persist_loop save ((Tick, r, w) # evs) f = persist_loop save evs (snd (save w r f))"
| "persist_loop save ((StopSignal, r, w) # evs) f = (True, snd (save w r f))"

text \<open>The loop returns exactly when the stop signal comes, and its last save is the one made then.\<close>

lemma persist_loop_returns: "fst (persist_loop save evs f) \<longleftrightarrow> StopSignal \<in> fst ` set evs"
  by (induction save evs f rule: persist_loop.induct) auto

lemma persist_loop_final:
  assumes "\<And>ev. ev \<in> set ticks \<Longrightarrow> fst ev = Tick"
  shows "\<exists>f'. persist_loop save (ticks @ (StopSignal, r, w) # rest) f = (True, snd (save w r f'))"
  using assms
proof (induction ticks arbitrary: f)
  case Nil
  then show ?case by auto
next
  case (Cons ev ticks)
  from Cons.prems [of ev] obtain r' w' where "ev = (Tick, r', w')" by (cases ev) auto
  with Cons show ?case by auto
qed

end
