(* ===== verification/Node_Registry.thy ===== *)
theory Node_Registry
  imports Table_Store Mesh_Message
begin

text \<open>
  The registry of known mesh nodes, \<open>mesh/node_registry.go\<close>: its entries, every operation, the
  JSON file it is saved to, and the invariant tying an entry to its key. The node map is an
  association list in the order a \<open>range\<close> loop meets it.
\<close>

section \<open>State\<close>

record node_info =
  ni_mac :: "byte list"
  ni_mac_string :: string
  ni_adapter_type :: i32
  ni_uptime :: u32
  ni_last_seen :: time
  ni_hop_count :: u32
  ni_node_id :: byte
  ni_name :: string
  ni_zone :: string
  ni_status :: string
  ni_replaced_by :: string
  ni_route_path :: "string list"
  ni_parent_id :: "byte option"

type_synonym node_registry = "(string, node_info) gomap"

definition new_node_registry :: node_registry where
  "new_node_registry = []"

text \<open>\<open>&NodeInfo{MAC: copy of mac, MACString: macStr}\<close>; \<open>AdapterTypeUnknown\<close> is the zero value too.\<close>

definition fresh_node :: "byte list \<Rightarrow> node_info" where
  "fresh_node mac = \<lparr> ni_mac = mac, ni_mac_string = mac_to_string mac,
     ni_adapter_type = AdapterTypeUnknown, ni_uptime = 0, ni_last_seen = time_zero,
     ni_hop_count = 0, ni_node_id = 0, ni_name = [], ni_zone = [], ni_status = [],
     ni_replaced_by = [], ni_route_path = [], ni_parent_id = None \<rparr>"

section \<open>Operations\<close>

definition update_node ::
    "time \<Rightarrow> byte list \<Rightarrow> i32 \<Rightarrow> u32 \<Rightarrow> u32 \<Rightarrow> node_registry \<Rightarrow> node_registry" where
  "update_node now mac adapter uptime hops nr =
     upsert (mac_to_string mac) (fresh_node mac)
       (\<lambda>n. n\<lparr> ni_adapter_type := adapter, ni_uptime := uptime, ni_last_seen := now,
               ni_hop_count := hops \<rparr>) nr"

definition assign_node ::
    "byte list \<Rightarrow> byte \<Rightarrow> string \<Rightarrow> string \<Rightarrow> node_registry \<Rightarrow> node_registry" where
  "assign_node mac node_id name zone nr =
     (let mac_str = mac_to_string mac;
          name' = (if name = [] then mac_str else name)
      in upsert mac_str (fresh_node mac)
           (\<lambda>n. n\<lparr> ni_node_id := node_id, ni_name := name', ni_zone := zone \<rparr>) nr)"

definition used_ids :: "node_registry \<Rightarrow> byte list" where
  "used_ids nr = [ni_node_id n. (k, n) \<leftarrow> nr, 0 < ni_node_id n]"

text \<open>The counter of the loop \<open>for id := 1; id <= 255; id++\<close> is an \<open>int\<close>, converted at each test.\<close>

function free_id_from :: "byte list \<Rightarrow> nat \<Rightarrow> byte" where
  "free_id_from used i =
     (if i \<le> 255 then if of_nat i \<notin> set used then of_nat i else free_id_from used (Suc i) else 0)"
  by pat_completeness auto
termination by (relation "measure (\<lambda>(used, i). 256 - i)") auto

declare free_id_from.simps [simp del]

definition next_free_node_id :: "node_registry \<Rightarrow> byte" where
  "next_free_node_id nr = free_id_from (used_ids nr) 1"

definition get_node :: "byte list \<Rightarrow> node_registry \<Rightarrow> node_info option" where
  "get_node mac nr = map_of nr (mac_to_string mac)"

definition get_all_nodes :: "node_registry \<Rightarrow> node_info list" where
  "get_all_nodes nr = map snd nr"

definition get_node_by_id :: "byte \<Rightarrow> node_registry \<Rightarrow> node_info option" where
  "get_node_by_id i nr =
     map_option snd (find (\<lambda>e. ni_node_id (snd e) = i \<and> ni_status (snd e) \<noteq> ''replaced'') nr)"

definition get_nodes_by_zone :: "string \<Rightarrow> node_registry \<Rightarrow> node_info list" where
  "get_nodes_by_zone zone nr =
     [n \<leftarrow> map snd nr. ni_zone n = zone \<and> ni_status n \<noteq> ''replaced'']"

definition get_online_nodes :: "time \<Rightarrow> duration \<Rightarrow> node_registry \<Rightarrow> node_info list" where
  "get_online_nodes now timeout nr =
     (let cutoff = now - timeout
      in [n \<leftarrow> map snd nr. cutoff < ni_last_seen n \<and> ni_status n \<noteq> ''replaced''])"

definition remove_node :: "byte list \<Rightarrow> node_registry \<Rightarrow> bool \<times> node_registry" where
  "remove_node mac nr =
     (let k = mac_to_string mac
      in case map_of nr k of None \<Rightarrow> (False, nr) | Some n \<Rightarrow> (True, AList.delete k nr))"

text \<open>The parent is looked up after the origin node was inserted, so a node can be its own parent.\<close>

definition parent_of :: "byte list list \<Rightarrow> node_registry \<Rightarrow> byte option" where
  "parent_of relays nr =
     (case relays of
        [] \<Rightarrow> None
      | r # rs \<Rightarrow>
          (case map_of nr (mac_to_string r) of
             None \<Rightarrow> None
           | Some p \<Rightarrow> if 0 < ni_node_id p then Some (ni_node_id p) else None))"

definition update_node_route :: "byte list \<Rightarrow> byte list list \<Rightarrow> node_registry \<Rightarrow> node_registry" where
  "update_node_route origin relays nr =
     (let k = mac_to_string origin;
          nr' = upsert k (fresh_node origin) (\<lambda>n. n\<lparr> ni_route_path := map mac_to_string relays \<rparr>) nr
      in adjust k (\<lambda>n. n\<lparr> ni_parent_id := parent_of relays nr' \<rparr>) nr')"

definition mark_replaced :: "byte list \<Rightarrow> string \<Rightarrow> node_registry \<Rightarrow> node_registry" where
  "mark_replaced mac by_str nr =
     adjust (mac_to_string mac)
       (\<lambda>n. n\<lparr> ni_status := ''replaced'', ni_replaced_by := by_str, ni_node_id := 0 \<rparr>) nr"

definition node_count :: "node_registry \<Rightarrow> nat" where
  "node_count nr = length nr"

section \<open>The saved form\<close>

record persisted_node =
  pn_mac :: string
  pn_adapter_type :: i32
  pn_uptime :: u32
  pn_last_seen :: time
  pn_hop_count :: u32
  pn_node_id :: byte
  pn_name :: string
  pn_zone :: string
  pn_status :: string
  pn_replaced_by :: string
  pn_route_path :: "string list"
  pn_parent_id :: "byte option"

definition persisted_of_node :: "node_info \<Rightarrow> persisted_node" where
  "persisted_of_node n = \<lparr> pn_mac = ni_mac_string n, pn_adapter_type = ni_adapter_type n,
     pn_uptime = ni_uptime n, pn_last_seen = ni_last_seen n, pn_hop_count = ni_hop_count n,
     pn_node_id = ni_node_id n, pn_name = ni_name n, pn_zone = ni_zone n, pn_status = ni_status n,
     pn_replaced_by = ni_replaced_by n, pn_route_path = ni_route_path n,
     pn_parent_id = ni_parent_id n \<rparr>"

definition node_of_persisted :: "persisted_node \<Rightarrow> (string \<times> node_info) option" where
  "node_of_persisted e =
     (case string_to_mac (pn_mac e) of
        Inl err \<Rightarrow> None
      | Inr mac \<Rightarrow> Some (pn_mac e,
          \<lparr> ni_mac = mac, ni_mac_string = pn_mac e, ni_adapter_type = pn_adapter_type e,
            ni_uptime = pn_uptime e, ni_last_seen = pn_last_seen e, ni_hop_count = pn_hop_count e,
            ni_node_id = pn_node_id e, ni_name = pn_name e, ni_zone = pn_zone e,
            ni_status = pn_status e, ni_replaced_by = pn_replaced_by e,
            ni_route_path = pn_route_path e, ni_parent_id = pn_parent_id e \<rparr>))"

text \<open>
  \<open>time.Time\<close> marshals only when its year is in 0..9999; \<open>lastSeen\<close> is the one time in the file.
\<close>

definition json_time_ok :: "time \<Rightarrow> bool" where
  "json_time_ok t \<longleftrightarrow> - 31622400 * 1000000000 \<le> t \<and> t < 315537897600 * 1000000000"

definition nodes_persist ::
    "go_error option \<Rightarrow> persisted_node write_outcome \<Rightarrow> node_registry \<Rightarrow> persisted_node disk_file
       \<Rightarrow> go_error option \<times> persisted_node disk_file" where
  "nodes_persist mkdir out nr f =
     (let entries = map (persisted_of_node \<circ> snd) nr
      in if \<not> list_all (\<lambda>e. json_time_ok (pn_last_seen e)) entries then (Some ''marshal nodes'', f)
         else case mkdir of
                Some e \<Rightarrow> (Some e, f)
              | None \<Rightarrow> write_file out entries)"

definition nodes_load :: "persisted_node disk_file \<Rightarrow> node_registry \<Rightarrow> go_error option \<times> node_registry" where
  "nodes_load f nr =
     (case read_entries f of
        Inl e \<Rightarrow> (Some e, nr)
      | Inr es \<Rightarrow> (None, load_table node_of_persisted es nr))"

definition nodes_persist_loop ::
    "(loop_event \<times> node_registry \<times> go_error option \<times> persisted_node write_outcome) list
       \<Rightarrow> persisted_node disk_file \<Rightarrow> bool \<times> persisted_node disk_file" where
  "nodes_persist_loop = persist_loop (\<lambda>(mkdir, out). nodes_persist mkdir out)"

section \<open>The invariant\<close>

text \<open>
  An entry sits under the string of its own address. Addresses come from frames, where nothing
  bounds their length; only six-byte ones are read back from the file.
\<close>

definition node_ok :: "string \<Rightarrow> node_info \<Rightarrow> bool" where
  "node_ok k n \<longleftrightarrow> k = mac_to_string (ni_mac n) \<and> ni_mac_string n = k"

definition node_saved :: "string \<Rightarrow> node_info \<Rightarrow> bool" where
  "node_saved k n \<longleftrightarrow> node_ok k n \<and> length (ni_mac n) = 6"

abbreviation node_registry_inv :: "node_registry \<Rightarrow> bool" where
  "node_registry_inv \<equiv> table_inv node_ok"

lemma node_registry_key:
  "node_registry_inv nr \<Longrightarrow> map_of nr k = Some n \<Longrightarrow> k = mac_to_string (ni_mac n)"
  using table_invD [of node_ok nr k n] unfolding node_ok_def by blast

lemma node_ok_fresh: "node_ok (mac_to_string mac) (fresh_node mac)"
  by (simp add: node_ok_def fresh_node_def)

lemma update_node_inv:
  "node_registry_inv nr \<Longrightarrow> node_registry_inv (update_node now mac a u h nr)"
  unfolding update_node_def
  by (rule table_inv_upsert) (use node_ok_fresh in \<open>auto simp: node_ok_def fresh_node_def\<close>)

lemma assign_node_inv:
  "node_registry_inv nr \<Longrightarrow> node_registry_inv (assign_node mac i name zone nr)"
  unfolding assign_node_def Let_def
  by (rule table_inv_upsert) (auto simp: node_ok_def fresh_node_def)

lemma remove_node_inv: "node_registry_inv nr \<Longrightarrow> node_registry_inv (snd (remove_node mac nr))"
  by (auto simp: remove_node_def Let_def intro: table_inv_del split: option.splits)

lemma mark_replaced_inv: "node_registry_inv nr \<Longrightarrow> node_registry_inv (mark_replaced mac s nr)"
  unfolding mark_replaced_def by (rule table_inv_adjust) (auto simp: node_ok_def)

lemma update_node_route_inv:
  assumes "node_registry_inv nr"
  shows "node_registry_inv (update_node_route origin relays nr)"
proof -
  have "node_registry_inv
      (upsert (mac_to_string origin) (fresh_node origin) (\<lambda>n. n\<lparr>ni_route_path := p\<rparr>) nr)" for p
    by (rule table_inv_upsert) (use assms in \<open>auto simp: node_ok_def fresh_node_def\<close>)
  then show ?thesis
    unfolding update_node_route_def Let_def by (rule table_inv_adjust) (auto simp: node_ok_def)
qed

lemmas node_registry_invs =
  update_node_inv assign_node_inv remove_node_inv mark_replaced_inv update_node_route_inv


section \<open>Reading and writing entries\<close>

lemma lookup_update_node:
  "map_of (update_node now mac a u h nr) (mac_to_string mac) =
     Some ((case map_of nr (mac_to_string mac) of None \<Rightarrow> fresh_node mac | Some n \<Rightarrow> n)
        \<lparr> ni_adapter_type := a, ni_uptime := u, ni_last_seen := now, ni_hop_count := h \<rparr>)"
  "k \<noteq> mac_to_string mac \<Longrightarrow> map_of (update_node now mac a u h nr) k = map_of nr k"
  by (simp_all add: update_node_def lookup_upsert)

lemma lookup_assign_node:
  "map_of (assign_node mac i name zone nr) (mac_to_string mac) =
     Some ((case map_of nr (mac_to_string mac) of None \<Rightarrow> fresh_node mac | Some n \<Rightarrow> n)
        \<lparr> ni_node_id := i, ni_name := (if name = [] then mac_to_string mac else name),
           ni_zone := zone \<rparr>)"
  "k \<noteq> mac_to_string mac \<Longrightarrow> map_of (assign_node mac i name zone nr) k = map_of nr k"
  by (simp_all add: assign_node_def Let_def lookup_upsert)

lemma lookup_mark_replaced:
  "map_of (mark_replaced mac s nr) k =
     (if k = mac_to_string mac
      then map_option (\<lambda>n. n\<lparr> ni_status := ''replaced'', ni_replaced_by := s, ni_node_id := 0 \<rparr>) (map_of nr k)
      else map_of nr k)"
  by (simp add: mark_replaced_def lookup_adjust)

lemma lookup_update_node_route:
  "map_of (update_node_route mac relays nr) (mac_to_string mac) =
     Some ((case map_of nr (mac_to_string mac) of None \<Rightarrow> fresh_node mac | Some n \<Rightarrow> n)
        \<lparr> ni_route_path := map mac_to_string relays,
          ni_parent_id := parent_of relays
             (upsert (mac_to_string mac) (fresh_node mac)
                (\<lambda>n. n\<lparr> ni_route_path := map mac_to_string relays \<rparr>) nr) \<rparr>)"
  "k \<noteq> mac_to_string mac \<Longrightarrow> map_of (update_node_route mac relays nr) k = map_of nr k"
  by (simp_all add: update_node_route_def Let_def lookup_adjust lookup_upsert)

lemmas node_lookups =
  lookup_update_node lookup_assign_node lookup_mark_replaced lookup_update_node_route

section \<open>Node ids\<close>

lemma free_id_from_stops:
  "i \<le> 256 \<Longrightarrow> \<exists>r. i \<le> r \<and> (\<forall>j. i \<le> j \<and> j < r \<longrightarrow> of_nat j \<in> set used) \<and>
     (r \<le> 255 \<and> of_nat r \<notin> set used \<and> free_id_from used i = of_nat r \<or>
      r = 256 \<and> free_id_from used i = 0)"
proof (induction used i rule: free_id_from.induct)
  case (1 used i)
  note step = free_id_from.simps [of used i]
  show ?case
  proof (cases "i \<le> 255 \<and> of_nat i \<in> set used")
    case True
    with "1.IH" obtain r where r: "Suc i \<le> r"
      "\<forall>j. Suc i \<le> j \<and> j < r \<longrightarrow> of_nat j \<in> set used"
      "r \<le> 255 \<and> of_nat r \<notin> set used \<and> free_id_from used (Suc i) = of_nat r \<or>
       r = 256 \<and> free_id_from used (Suc i) = 0" by auto
    have "\<forall>j. i \<le> j \<and> j < r \<longrightarrow> of_nat j \<in> set used"
      using r(2) True by (metis Suc_leI le_neq_implies_less)
    moreover have "free_id_from used i = free_id_from used (Suc i)" using True step by simp
    ultimately show ?thesis using r(1,3) by (intro exI [of _ r]) simp
  next
    case False
    then show ?thesis using "1.prems" step by (intro exI [of _ i]) auto
  qed
qed

lemma free_id_from_spec:
  "(free_id_from used 1 = 0 \<longrightarrow> (\<forall>j. 1 \<le> j \<and> j \<le> 255 \<longrightarrow> of_nat j \<in> set used)) \<and>
   (free_id_from used 1 \<noteq> 0 \<longrightarrow> free_id_from used 1 \<notin> set used \<and>
      (\<forall>j. 1 \<le> j \<and> j < unat (free_id_from used 1) \<longrightarrow> of_nat j \<in> set used))"
proof -
  obtain r where r: "1 \<le> r" and below: "\<forall>j. 1 \<le> j \<and> j < r \<longrightarrow> of_nat j \<in> set used"
    and stop: "r \<le> 255 \<and> of_nat r \<notin> set used \<and> free_id_from used 1 = of_nat r \<or>
       r = 256 \<and> free_id_from used 1 = 0"
    using free_id_from_stops [of 1 used] by auto
  from stop show ?thesis
  proof
    assume st: "r \<le> 255 \<and> of_nat r \<notin> set used \<and> free_id_from used 1 = of_nat r"
    then have un: "unat (of_nat r :: byte) = r" by (simp add: unat_of_nat)
    have "(of_nat r :: byte) \<noteq> 0"
    proof
      assume "(of_nat r :: byte) = 0"
      with un r show False by simp
    qed
    with un st below show ?thesis by presburger
  next
    assume "r = 256 \<and> free_id_from used 1 = 0"
    with below show ?thesis by auto
  qed
qed

lemma used_ids_iff:
  "keys_distinct nr \<Longrightarrow> i \<in> set (used_ids nr) \<longleftrightarrow> i \<noteq> 0 \<and> (\<exists>k n. map_of nr k = Some n \<and> ni_node_id n = i)"
  by (auto simp: used_ids_def word_gt_0 simp flip: gm.entries_lookup)

text \<open>
  Every id of an active node, one that was not replaced, is held by no other active node. A
  replaced entry that is approved again gets an id and keeps its status, so it does not count.
\<close>

definition active :: "node_info \<Rightarrow> bool" where
  "active n \<longleftrightarrow> ni_status n \<noteq> ''replaced''"

definition ids_unique :: "node_registry \<Rightarrow> bool" where
  "ids_unique nr \<longleftrightarrow> keys_distinct nr \<and>
     (\<forall>k n k' n'. map_of nr k = Some n \<and> map_of nr k' = Some n' \<and> active n \<and> active n' \<and>
        ni_node_id n = ni_node_id n' \<and> ni_node_id n \<noteq> 0 \<longrightarrow> k = k')"

lemma ids_uniqueI:
  assumes "keys_distinct nr"
    and "\<And>k n k' n'. map_of nr k = Some n \<Longrightarrow> map_of nr k' = Some n' \<Longrightarrow> active n \<Longrightarrow> active n' \<Longrightarrow>
           ni_node_id n = ni_node_id n' \<Longrightarrow> ni_node_id n \<noteq> 0 \<Longrightarrow> k = k'"
  shows "ids_unique nr"
  using assms unfolding ids_unique_def by blast

lemma ids_uniqueD:
  "ids_unique nr \<Longrightarrow> map_of nr k = Some n \<Longrightarrow> map_of nr k' = Some n' \<Longrightarrow> active n \<Longrightarrow> active n' \<Longrightarrow>
     ni_node_id n = ni_node_id n' \<Longrightarrow> ni_node_id n \<noteq> 0 \<Longrightarrow> k = k'"
  unfolding ids_unique_def by blast

lemma ids_unique_cong:
  assumes "ids_unique a" and "keys_distinct b" and "\<And>j. map_of b j = map_of a j"
  shows "ids_unique b"
  by (rule ids_uniqueI [OF assms(2)]) (metis assms(1,3) ids_uniqueD)

lemma ids_unique_distinct: "ids_unique nr \<Longrightarrow> keys_distinct nr"
  by (simp add: ids_unique_def)

text \<open>Storing an entry keeps ids unique when its id is 0, its own already, or nobody's.\<close>

lemma ids_unique_put:
  assumes uniq: "ids_unique nr"
    and free: "active n \<Longrightarrow> ni_node_id n \<noteq> 0 \<Longrightarrow>
       (\<forall>k' n'. map_of nr k' = Some n' \<and> active n' \<and> ni_node_id n' = ni_node_id n \<longrightarrow> k' = k)"
  shows "ids_unique (AList.update k n nr)"
proof (rule ids_uniqueI)
  show "keys_distinct (AList.update k n nr)" using uniq by (simp add: ids_unique_distinct)
  fix k1 n1 k2 n2
  assume m: "map_of (AList.update k n nr) k1 = Some n1" "map_of (AList.update k n nr) k2 = Some n2"
    and act: "active n1" "active n2" and eq: "ni_node_id n1 = ni_node_id n2" and nz: "ni_node_id n1 \<noteq> 0"
  consider "k1 = k" "k2 = k" | "k1 = k" "k2 \<noteq> k" | "k1 \<noteq> k" "k2 = k" | "k1 \<noteq> k" "k2 \<noteq> k" by blast
  then show "k1 = k2"
  proof cases
    case 2
    then have "n1 = n" "map_of nr k2 = Some n2" using m by (simp_all add: gm.lookup_put)
    then show ?thesis using free act eq nz 2 by metis
  next
    case 3
    then have "n2 = n" "map_of nr k1 = Some n1" using m by (simp_all add: gm.lookup_put)
    then show ?thesis using free act eq nz 3 by metis
  next
    case 4
    then have "map_of nr k1 = Some n1" "map_of nr k2 = Some n2" using m by (simp_all add: gm.lookup_put)
    then show ?thesis using ids_uniqueD [OF uniq] act eq nz by blast
  qed simp
qed

lemma ids_unique_upsert:
  assumes uniq: "ids_unique nr"
    and keep: "\<And>n. ni_node_id (f n) = ni_node_id n" "\<And>n. active (f n) = active n"
    and fresh: "ni_node_id fresh = 0"
  shows "ids_unique (upsert k fresh f nr)"
  unfolding upsert_def
proof (rule ids_unique_put [OF uniq])
  let ?n = "case map_of nr k of None \<Rightarrow> fresh | Some v \<Rightarrow> v"
  assume "active (f ?n)" and nz: "ni_node_id (f ?n) \<noteq> 0"
  then obtain v where v: "map_of nr k = Some v" "active v" "ni_node_id v \<noteq> 0"
    using keep fresh by (cases "map_of nr k") auto
  have id: "ni_node_id (f ?n) = ni_node_id v" using keep(1) v(1) by simp
  show "\<forall>k' n'. map_of nr k' = Some n' \<and> active n' \<and> ni_node_id n' = ni_node_id (f ?n) \<longrightarrow> k' = k"
  proof (intro allI impI)
    fix k' n' assume h: "map_of nr k' = Some n' \<and> active n' \<and> ni_node_id n' = ni_node_id (f ?n)"
    show "k' = k"
      by (rule ids_uniqueD [where n = n' and n' = v, OF uniq _ v(1) _ v(2)]) (use h id v(3) in simp_all)
  qed
qed

lemma ids_unique_adjust:
  assumes uniq: "ids_unique nr"
    and keep: "\<And>n. ni_node_id (f n) = ni_node_id n \<or> ni_node_id (f n) = 0"
      "\<And>n. active (f n) \<Longrightarrow> active n"
  shows "ids_unique (adjust k f nr)"
proof (rule ids_uniqueI)
  show "keys_distinct (adjust k f nr)" using uniq by (simp add: ids_unique_distinct)
  have src: "\<exists>n. map_of nr j = Some n \<and> active n \<and> ni_node_id n = ni_node_id n'"
    if h: "map_of (adjust k f nr) j = Some n'" "active n'" "ni_node_id n' \<noteq> 0" for j n'
  proof (cases "j = k")
    case True
    then obtain n where "map_of nr j = Some n" "n' = f n" using h(1) unfolding lookup_adjust by auto
    then show ?thesis using h keep [of n] by auto
  next
    case False
    then show ?thesis using that by (simp add: lookup_adjust)
  qed
  fix k1 n1 k2 n2
  assume m: "map_of (adjust k f nr) k1 = Some n1" "map_of (adjust k f nr) k2 = Some n2"
    and act: "active n1" "active n2" and eq: "ni_node_id n1 = ni_node_id n2" and nz: "ni_node_id n1 \<noteq> 0"
  obtain n1' where 1: "map_of nr k1 = Some n1'" "active n1'" "ni_node_id n1' = ni_node_id n1"
    using src [OF m(1) act(1) nz] by blast
  obtain n2' where 2: "map_of nr k2 = Some n2'" "active n2'" "ni_node_id n2' = ni_node_id n2"
    using src [OF m(2) act(2)] eq nz by auto
  show "k1 = k2" by (rule ids_uniqueD [OF uniq 1(1) 2(1) 1(2) 2(2)]) (use 1(3) 2(3) eq nz in simp_all)
qed

lemma next_free_unused:
  assumes "keys_distinct nr" and "next_free_node_id nr \<noteq> 0"
  shows "\<forall>k n. map_of nr k = Some n \<longrightarrow> ni_node_id n \<noteq> next_free_node_id nr"
  using assms free_id_from_spec [of "used_ids nr"]
  by (auto simp: next_free_node_id_def used_ids_iff)

lemma ids_unique_assign:
  assumes "ids_unique nr"
    and "i = 0 \<or> (\<forall>k n. map_of nr k = Some n \<and> active n \<and> ni_node_id n = i \<longrightarrow> k = mac_to_string mac)"
  shows "ids_unique (assign_node mac i name zone nr)"
  unfolding assign_node_def Let_def upsert_def
  by (rule ids_unique_put [OF assms(1)]) (use assms(2) in auto)

lemma ids_unique_mark_replaced: "ids_unique nr \<Longrightarrow> ids_unique (mark_replaced mac s nr)"
  unfolding mark_replaced_def by (rule ids_unique_adjust) (auto simp: active_def)

lemma ids_unique_update: "ids_unique nr \<Longrightarrow> ids_unique (update_node now mac a u h nr)"
  unfolding update_node_def by (rule ids_unique_upsert) (auto simp: fresh_node_def active_def)

lemma ids_unique_route: "ids_unique nr \<Longrightarrow> ids_unique (update_node_route mac rs nr)"
  unfolding update_node_route_def Let_def
  by (rule ids_unique_adjust, rule ids_unique_upsert) (auto simp: fresh_node_def active_def)

lemma ids_unique_remove: "ids_unique nr \<Longrightarrow> ids_unique (snd (remove_node mac nr))"
  by (auto simp: remove_node_def Let_def ids_unique_def gm.lookup_del split: option.splits if_splits)

lemmas ids_uniques = ids_unique_mark_replaced ids_unique_update ids_unique_route ids_unique_remove

text \<open>With unique ids the search by id has one possible answer, whatever the map order.\<close>

lemma get_node_by_id_unique:
  assumes uniq: "ids_unique nr" and n: "map_of nr k = Some n" "ni_node_id n = i" "i \<noteq> 0"
    and act: "active n"
  shows "get_node_by_id i nr = Some n"
proof -
  have only: "k' = k" if "map_of nr k' = Some v'" "ni_node_id v' = i \<and> ni_status v' \<noteq> ''replaced''" for k' v'
    by (rule ids_uniqueD [OF uniq that(1) n(1)]) (use that(2) n act in \<open>simp_all add: active_def\<close>)
  have "find (\<lambda>e. ni_node_id (snd e) = i \<and> ni_status (snd e) \<noteq> ''replaced'') nr = Some (k, n)"
    using n(2) act [unfolded active_def] only
    by (intro gm.find_unique [where P = "\<lambda>v. ni_node_id v = i \<and> ni_status v \<noteq> ''replaced''",
          OF ids_unique_distinct [OF uniq] n(1)]) blast+
  then show ?thesis by (simp add: get_node_by_id_def)
qed

lemma get_node_by_id_Some:
  assumes "keys_distinct nr" and "get_node_by_id i nr = Some n"
  shows "\<exists>k. map_of nr k = Some n \<and> ni_node_id n = i \<and> ni_status n \<noteq> ''replaced''"
proof -
  let ?P = "\<lambda>v. ni_node_id v = i \<and> ni_status v \<noteq> ''replaced''"
  obtain k where f: "find (\<lambda>e. ?P (snd e)) nr = Some (k, n)"
    using assms(2) unfolding get_node_by_id_def by (auto simp only: map_option_eq_Some prod.sel)
  show ?thesis using gm.find_some_lookup [where P = ?P, OF assms(1) f] by blast
qed

section \<open>The file format\<close>

lemma node_of_persisted_of_node: "node_saved k n \<Longrightarrow> node_of_persisted (persisted_of_node n) = Some (k, n)"
  using mesh_codec.parse_show [of "ni_mac n"]
  by (cases n) (simp add: node_saved_def node_ok_def node_of_persisted_def persisted_of_node_def)

interpretation nodes_table: persisted_table node_saved persisted_of_node node_of_persisted id
  by unfold_locales (auto simp: node_of_persisted_of_node)

section \<open>Properties\<close>

text \<open>
  C28. \<open>NextFreeNodeID\<close> returns the lowest id from 1 to 255 that no entry holds, and 0 exactly
  when all 255 are held: the loop ends, its result is unused and every smaller id is taken.
\<close>

theorem next_free_node_id_lowest:
  "keys_distinct nr \<Longrightarrow>
   (next_free_node_id nr = 0 \<longleftrightarrow> (\<forall>i \<noteq> 0. \<exists>k n. map_of nr k = Some n \<and> ni_node_id n = i)) \<and>
   (next_free_node_id nr \<noteq> 0 \<longrightarrow>
      (\<forall>k n. map_of nr k = Some n \<longrightarrow> ni_node_id n \<noteq> next_free_node_id nr) \<and>
      (\<forall>i. i \<noteq> 0 \<and> i < next_free_node_id nr \<longrightarrow> (\<exists>k n. map_of nr k = Some n \<and> ni_node_id n = i)))"
proof -
  assume kd: "keys_distinct nr"
  note spec = free_id_from_spec [of "used_ids nr", folded next_free_node_id_def]
  have held: "i \<in> set (used_ids nr) \<longleftrightarrow> (\<exists>k n. map_of nr k = Some n \<and> ni_node_id n = i)" if "i \<noteq> 0" for i
    using used_ids_iff [OF kd] that by simp
  have all: "\<exists>k n. map_of nr k = Some n \<and> ni_node_id n = i" if "next_free_node_id nr = 0" "i \<noteq> 0" for i
    using spec that word_pos_unat [OF that(2)] byte_le_255 [of i] held [OF that(2)]
    by (metis le_refl le_trans one_le_numeral of_nat_unat_same)
  have below: "\<exists>k n. map_of nr k = Some n \<and> ni_node_id n = i"
    if "next_free_node_id nr \<noteq> 0" "i \<noteq> 0" "i < next_free_node_id nr" for i
    using spec that word_pos_unat [OF that(2)] held [OF that(2)]
    by (metis one_le_numeral le_refl word_less_nat_alt of_nat_unat_same)
  show ?thesis using all below next_free_unused [OF kd] by blast
qed

theorem next_free_node_id_lowest_witness:
  "let nr = assign_node [0,0,0,0,0,1] 1 [] [] [] in
     keys_distinct nr \<and> next_free_node_id nr = 2 \<and>
     (\<forall>k n. map_of nr k = Some n \<longrightarrow> ni_node_id n \<noteq> next_free_node_id nr)"
proof -
  let ?nr = "assign_node [0,0,0,0,0,1] 1 [] [] []"
  have kd: "keys_distinct ?nr" by (simp add: assign_node_def Let_def)
  have "used_ids ?nr = [1]"
    by (simp add: used_ids_def assign_node_def Let_def upsert_def fresh_node_def)
  then have "next_free_node_id ?nr = 2"
    by (simp add: next_free_node_id_def free_id_from.simps [of _ "Suc 0"] free_id_from.simps [of _ "Suc (Suc 0)"])
  then show ?thesis using next_free_node_id_lowest [OF kd] kd by simp
qed

lemma active_queries:
  assumes "keys_distinct nr"
  shows "n \<in> set (get_nodes_by_zone z nr) \<Longrightarrow> (\<exists>k. map_of nr k = Some n) \<and> ni_status n \<noteq> ''replaced''"
    and "n \<in> set (get_online_nodes now t nr) \<Longrightarrow> (\<exists>k. map_of nr k = Some n) \<and> ni_status n \<noteq> ''replaced''"
  using assms by (auto simp only: get_nodes_by_zone_def get_online_nodes_def Let_def set_filter
      set_map mem_Collect_eq image_iff gm.entries_lookup split_paired_Ex prod.sel Bex_def)

text \<open>
  A hot-swapped node disappears from every active query: after \<open>MarkReplaced(mac, by)\<close> its
  entry is kept for audit with status \<open>replaced\<close>, its successor and node id 0, and no lookup by
  id, by zone or by recent activity returns it.
\<close>
theorem marked_replaced_is_inactive:
  assumes inv: "node_registry_inv nr" and old: "get_node mac nr = Some n"
  shows "let nr' = mark_replaced mac by_str nr in
           get_node mac nr' = Some (n\<lparr> ni_status := ''replaced'', ni_replaced_by := by_str, ni_node_id := 0 \<rparr>) \<and>
           (\<forall>i a. get_node_by_id i nr' = Some a \<longrightarrow> ni_mac a \<noteq> mac) \<and>
           (\<forall>z. \<forall>a \<in> set (get_nodes_by_zone z nr'). ni_mac a \<noteq> mac) \<and>
           (\<forall>now t. \<forall>a \<in> set (get_online_nodes now t nr'). ni_mac a \<noteq> mac)"
proof -
  let ?nr = "mark_replaced mac by_str nr"
  have inv': "node_registry_inv ?nr" by (rule mark_replaced_inv [OF inv])
  note kd = table_inv_distinct [OF inv']
  have entry: "get_node mac ?nr =
      Some (n\<lparr> ni_status := ''replaced'', ni_replaced_by := by_str, ni_node_id := 0 \<rparr>)"
    using old unfolding get_node_def lookup_mark_replaced by simp
  have gone: "ni_mac a \<noteq> mac" if "map_of ?nr k = Some a" and "ni_status a \<noteq> ''replaced''" for k a
  proof
    assume eq: "ni_mac a = mac"
    from table_invD [OF inv' that(1)] eq have "k = mac_to_string mac" by (simp only: node_ok_def)
    with that(1) entry have "a = n\<lparr> ni_status := ''replaced'', ni_replaced_by := by_str, ni_node_id := 0 \<rparr>"
      by (simp only: get_node_def option.inject)
    with that(2) show False by simp
  qed
  show ?thesis
    unfolding Let_def
    using entry gone get_node_by_id_Some [OF kd] active_queries [OF kd] by blast
qed

theorem marked_replaced_is_inactive_witness:
  "let nr = assign_node [0,0,0,0,0,1] 7 [] [] [] in
     get_node [0,0,0,0,0,1] nr \<noteq> None \<and>
     (\<forall>a. get_node_by_id 7 (mark_replaced [0,0,0,0,0,1] ''02'' nr) = Some a \<longrightarrow> ni_mac a \<noteq> [0,0,0,0,0,1])"
proof -
  let ?m = "[0,0,0,0,0,1] :: byte list"
  let ?nr = "assign_node ?m 7 [] [] []"
  have inv: "node_registry_inv ?nr" by (rule assign_node_inv) simp
  obtain n where n: "get_node ?m ?nr = Some n" unfolding get_node_def lookup_assign_node by simp
  show ?thesis
    using marked_replaced_is_inactive [OF inv n, of "''02''"] n by (simp add: Let_def)
qed

datatype node_report = Health time "byte list" i32 u32 u32 | Route "byte list" "byte list list"

fun apply_report :: "node_report \<Rightarrow> node_registry \<Rightarrow> node_registry" where
  "apply_report (Health now mac a u h) nr = update_node now mac a u h nr"
| "apply_report (Route mac relays) nr = update_node_route mac relays nr"

definition node_identity :: "node_info \<Rightarrow> byte list \<times> string \<times> byte \<times> string \<times> string \<times> string \<times> string" where
  "node_identity n = (ni_mac n, ni_mac_string n, ni_node_id n, ni_name n, ni_zone n, ni_status n, ni_replaced_by n)"

lemma apply_report_identity:
  assumes "map_of nr k = Some n"
  shows "\<exists>n'. map_of (apply_report r nr) k = Some n' \<and> node_identity n' = node_identity n"
proof (cases r)
  case (Health now mac a u h)
  then show ?thesis
    using assms by (cases "k = mac_to_string mac") (simp_all add: lookup_update_node node_identity_def)
next
  case (Route mac relays)
  then show ?thesis
    using assms by (cases "k = mac_to_string mac") (simp_all add: lookup_update_node_route node_identity_def)
qed

text \<open>
  C29. The identity of a node survives traffic: health reports (\<open>UpdateNode\<close>) and route reports
  (\<open>UpdateNodeRoute\<close>), in any number and order, for any node, never change the node id, name,
  zone, replacement status or stored address of a known node.
\<close>
theorem reports_keep_identity:
  assumes "map_of nr k = Some n"
  shows "\<exists>n'. map_of (fold apply_report rs nr) k = Some n' \<and> node_identity n' = node_identity n"
  using assms
proof (induction rs arbitrary: nr n)
  case Nil
  then show ?case by simp
next
  case (Cons r rs)
  obtain n' where "map_of (apply_report r nr) k = Some n'" "node_identity n' = node_identity n"
    using apply_report_identity [OF Cons.prems] by blast
  with Cons.IH [of "apply_report r nr" n'] show ?case by simp
qed

theorem reports_keep_identity_witness:
  "\<exists>n'. map_of (fold apply_report [Health 5 [0,0,0,0,0,1] 2 9 1, Route [0,0,0,0,0,1] []]
           [(mac_to_string [0,0,0,0,0,1], (fresh_node [0,0,0,0,0,1])\<lparr> ni_node_id := 7 \<rparr>)])
           (mac_to_string [0,0,0,0,0,1]) = Some n' \<and> ni_node_id n' = 7"
  using reports_keep_identity [of "[(mac_to_string [0,0,0,0,0,1], (fresh_node [0,0,0,0,0,1])\<lparr> ni_node_id := 7 \<rparr>)]"
      "mac_to_string [0,0,0,0,0,1]" "(fresh_node [0,0,0,0,0,1])\<lparr> ni_node_id := 7 \<rparr>"
      "[Health 5 [0,0,0,0,0,1] 2 9 1, Route [0,0,0,0,0,1] []]"]
  by (auto simp: node_identity_def fresh_node_def)

lemma nodes_restored:
  assumes inv: "node_registry_inv nr"
    and saved: "\<forall>k n. map_of nr k = Some n \<longrightarrow> length (ni_mac n) = 6 \<and> json_time_ok (ni_last_seen n)"
  shows "fst (nodes_load (snd (nodes_persist None Written nr f)) []) = None \<and>
         map_of (snd (nodes_load (snd (nodes_persist None Written nr f)) [])) = map_of nr \<and>
         node_registry_inv (snd (nodes_load (snd (nodes_persist None Written nr f)) []))"
proof -
  have inv': "table_inv node_saved nr"
    using inv saved by (simp add: table_inv_def node_saved_def)
  have save: "nodes_persist None Written nr f = (None, Json (map (persisted_of_node \<circ> snd) nr))"
    using saved table_inv_distinct [OF inv]
    by (auto simp: nodes_persist_def Let_def write_file_def list_all_iff persisted_of_node_def
        simp flip: gm.entries_lookup)
  have "map_of (load_table node_of_persisted (map (persisted_of_node \<circ> snd) nr) []) = map_of nr"
    using nodes_table.load_saved [OF inv'] by (simp add: option.map_id0)
  moreover have "node_registry_inv (load_table node_of_persisted (map (persisted_of_node \<circ> snd) nr) [])"
    using nodes_table.load_saved_inv [OF inv'] by (auto simp: table_inv_def node_saved_def)
  ultimately show ?thesis
    by (simp add: save nodes_load_def read_entries_def)
qed

text \<open>
  The node registry survives a restart exactly: when the save loop gets its stop signal and
  the final write succeeds, and every address has six bytes, loading the file into an empty registry gives the same map, every
  field of every entry included, and the invariant again.
\<close>

theorem nodes_survive_restart:
  assumes inv: "node_registry_inv nr"
    and saved: "\<forall>k n. map_of nr k = Some n \<longrightarrow> length (ni_mac n) = 6 \<and> json_time_ok (ni_last_seen n)"
    and ticks: "\<forall>ev \<in> set ticks. fst ev = Tick"
  shows "\<exists>f'. nodes_persist_loop (ticks @ [(StopSignal, nr, None, Written)]) f = (True, f') \<and>
              fst (nodes_load f' []) = None \<and>
              map_of (snd (nodes_load f' [])) = map_of nr \<and>
              node_registry_inv (snd (nodes_load f' []))"
proof -
  obtain f'' where "nodes_persist_loop (ticks @ [(StopSignal, nr, None, Written)]) f =
      (True, snd (nodes_persist None Written nr f''))"
    using persist_loop_final [of ticks "\<lambda>(mkdir, out). nodes_persist mkdir out" nr "(None, Written)" "[]" f] ticks
    unfolding nodes_persist_loop_def by auto
  then show ?thesis using nodes_restored [OF inv saved, of f''] by simp
qed

theorem nodes_survive_restart_witness:
  "\<exists>f'. nodes_persist_loop [(Tick, [], None, Written),
      (StopSignal, assign_node [0,0,0,0,0,1] 7 ''lamp'' ''hall'' [], None, Written)] Missing = (True, f') \<and>
      map_of (snd (nodes_load f' [])) = map_of (assign_node [0,0,0,0,0,1] 7 ''lamp'' ''hall'' [])"
proof -
  let ?nr = "assign_node [0,0,0,0,0,1] 7 ''lamp'' ''hall'' []"
  have inv: "node_registry_inv ?nr" by (rule assign_node_inv) simp
  have t: "\<forall>k n. map_of ?nr k = Some n \<longrightarrow> length (ni_mac n) = 6 \<and> json_time_ok (ni_last_seen n)"
    by (auto simp: assign_node_def Let_def upsert_def fresh_node_def json_time_ok_def time_zero_def)
  show ?thesis
    using nodes_survive_restart [OF inv t, of "[(Tick, [], None, Written)]" Missing] by auto
qed

end
