(* ===== verification/Auth_Registry.thy ===== *)
theory Auth_Registry
  imports Table_Store Mac_Address
begin

text \<open>
  The trust state of the mesh nodes, \<open>nodeauth/registry.go\<close> and \<open>nodeauth/persistence.go\<close>:
  enrollment requests, the administrator's decisions, and the file they are kept in.
\<close>

section \<open>State\<close>

text \<open>A \<open>TrustStatus\<close> is an \<open>int\<close>, and the file may hold any: the three named values are constants.\<close>

type_synonym trust_status = int

definition TrustPending :: trust_status where [hub_simps]: "TrustPending = 0"
definition TrustApproved :: trust_status where [hub_simps]: "TrustApproved = 1"
definition TrustRejected :: trust_status where [hub_simps]: "TrustRejected = 2"

record node_auth =
  na_mac :: "byte list"
  na_mac_string :: string
  na_public_key :: "byte list"
  na_status :: trust_status
  na_received_at :: time
  na_approved_at :: time

type_synonym auth_registry = "(string, node_auth) gomap"

definition new_auth_registry :: auth_registry where
  "new_auth_registry = []"

section \<open>Operations\<close>

datatype add_error = AlreadyApprovedSameKey

datatype auth_error = NodeNotFound string

definition add_pending ::
    "time \<Rightarrow> byte list \<Rightarrow> byte list \<Rightarrow> auth_registry \<Rightarrow> add_error option \<times> auth_registry" where
  "add_pending now mac pub r =
     (let key = auth_mac_to_string mac;
          fresh = \<lparr> na_mac = mac, na_mac_string = key, na_public_key = pub, na_status = TrustPending,
                    na_received_at = now, na_approved_at = time_zero \<rparr>
      in case map_of r key of
           None \<Rightarrow> (None, AList.update key fresh r)
         | Some e \<Rightarrow>
             if na_status e = TrustApproved
             then if na_public_key e = pub
                  then (Some AlreadyApprovedSameKey, AList.update key (e\<lparr> na_received_at := now \<rparr>) r)
                  else (None, AList.update key
                          (e\<lparr> na_public_key := pub, na_status := TrustPending,
                              na_received_at := now, na_approved_at := time_zero \<rparr>) r)
             else (None, AList.update key fresh r))"

definition auth_key :: "string \<Rightarrow> string" where
  "auth_key = normalise auth_mac_to_string parse_mac"

definition approve :: "time \<Rightarrow> string \<Rightarrow> auth_registry \<Rightarrow> (auth_error + node_auth) \<times> auth_registry" where
  "approve now mac_str r =
     (let key = auth_key mac_str
      in case map_of r key of
           None \<Rightarrow> (Inl (NodeNotFound key), r)
         | Some n \<Rightarrow>
             (let n' = n\<lparr> na_status := TrustApproved, na_approved_at := now \<rparr>
              in (Inr n', AList.update key n' r)))"

definition reject :: "string \<Rightarrow> auth_registry \<Rightarrow> auth_error option \<times> auth_registry" where
  "reject mac_str r =
     (let key = auth_key mac_str
      in case map_of r key of
           None \<Rightarrow> (Some (NodeNotFound key), r)
         | Some n \<Rightarrow> (None, AList.update key (n\<lparr> na_status := TrustRejected \<rparr>) r))"

definition auth_get_all :: "auth_registry \<Rightarrow> node_auth list" where
  "auth_get_all r = map snd r"

definition get_pending :: "auth_registry \<Rightarrow> node_auth list" where
  "get_pending r = [n \<leftarrow> map snd r. na_status n = TrustPending]"

definition is_approved :: "byte list \<Rightarrow> auth_registry \<Rightarrow> bool" where
  "is_approved mac r =
     (case map_of r (auth_mac_to_string mac) of None \<Rightarrow> False | Some n \<Rightarrow> na_status n = TrustApproved)"

definition get_approved_public_key :: "byte list \<Rightarrow> auth_registry \<Rightarrow> byte list option" where
  "get_approved_public_key mac r =
     (case map_of r (auth_mac_to_string mac) of
        None \<Rightarrow> None
      | Some n \<Rightarrow> if na_status n \<noteq> TrustApproved then None else Some (na_public_key n))"

definition parse_public_key :: "string \<Rightarrow> byte list option" where
  "parse_public_key s =
     (case hex_decode s of None \<Rightarrow> None | Some b \<Rightarrow> if length b \<noteq> 32 then None else Some b)"

section \<open>The saved form\<close>

record persisted_entry =
  pe_mac :: string
  pe_public_key :: string
  pe_status :: int
  pe_received_at :: int
  pe_approved_at :: int

definition persisted_of_auth :: "node_auth \<Rightarrow> persisted_entry" where
  "persisted_of_auth n = \<lparr> pe_mac = na_mac_string n, pe_public_key = hex_encode (na_public_key n),
     pe_status = na_status n, pe_received_at = to_unix (na_received_at n),
     pe_approved_at = to_unix (na_approved_at n) \<rparr>"

definition auth_of_persisted :: "persisted_entry \<Rightarrow> (string \<times> node_auth) option" where
  "auth_of_persisted e =
     (case parse_mac (pe_mac e) of
        Inl err \<Rightarrow> None
      | Inr mac \<Rightarrow>
          (case parse_public_key (pe_public_key e) of
             None \<Rightarrow> None
           | Some pub \<Rightarrow> Some (pe_mac e,
               \<lparr> na_mac = mac, na_mac_string = pe_mac e, na_public_key = pub, na_status = pe_status e,
                 na_received_at = of_unix (pe_received_at e),
                 na_approved_at = of_unix (pe_approved_at e) \<rparr>)))"

definition auth_persist ::
    "persisted_entry write_outcome \<Rightarrow> auth_registry \<Rightarrow> persisted_entry disk_file
       \<Rightarrow> go_error option \<times> persisted_entry disk_file" where
  "auth_persist out r f = write_file out (map (persisted_of_auth \<circ> snd) r)"

definition auth_load ::
    "persisted_entry disk_file \<Rightarrow> auth_registry \<Rightarrow> go_error option \<times> auth_registry" where
  "auth_load f r =
     (case read_entries f of
        Inl e \<Rightarrow> (Some e, r)
      | Inr es \<Rightarrow> (None, load_table auth_of_persisted es r))"

definition auth_persist_loop ::
    "(loop_event \<times> auth_registry \<times> persisted_entry write_outcome) list
       \<Rightarrow> persisted_entry disk_file \<Rightarrow> bool \<times> persisted_entry disk_file" where
  "auth_persist_loop = persist_loop auth_persist"

section \<open>The invariant\<close>

definition auth_ok :: "string \<Rightarrow> node_auth \<Rightarrow> bool" where
  "auth_ok k n \<longleftrightarrow> length (na_mac n) = 6 \<and> k = auth_mac_to_string (na_mac n) \<and>
     na_mac_string n = k \<and> length (na_public_key n) = 32"

abbreviation auth_registry_inv :: "auth_registry \<Rightarrow> bool" where
  "auth_registry_inv \<equiv> table_inv auth_ok"

lemma add_pending_inv:
  "length mac = 6 \<Longrightarrow> length pub = 32 \<Longrightarrow> auth_registry_inv r \<Longrightarrow>
     auth_registry_inv (snd (add_pending now mac pub r))"
  by (auto simp: add_pending_def Let_def auth_ok_def dest: table_invD intro!: table_inv_put
      split: option.split)

lemma approve_inv: "auth_registry_inv r \<Longrightarrow> auth_registry_inv (snd (approve now s r))"
  by (auto simp: approve_def Let_def auth_ok_def dest: table_invD intro!: table_inv_put split: option.split)

lemma reject_inv: "auth_registry_inv r \<Longrightarrow> auth_registry_inv (snd (reject s r))"
  by (auto simp: reject_def Let_def auth_ok_def dest: table_invD intro!: table_inv_put split: option.split)

lemmas auth_invs = add_pending_inv approve_inv reject_inv

definition auth_norm :: "node_auth \<Rightarrow> node_auth" where
  "auth_norm n = n\<lparr> na_received_at := of_unix (to_unix (na_received_at n)),
                    na_approved_at := of_unix (to_unix (na_approved_at n)) \<rparr>"

lemma auth_of_persisted_of_auth:
  "auth_ok k n \<Longrightarrow> auth_of_persisted (persisted_of_auth n) = Some (k, auth_norm n)"
  using auth_codec.parse_show [of "na_mac n"]
  by (cases n) (simp add: auth_ok_def auth_of_persisted_def persisted_of_auth_def auth_norm_def
      parse_public_key_def hex_decode_encode)

interpretation auth_table: persisted_table auth_ok persisted_of_auth auth_of_persisted auth_norm
proof unfold_locales
  fix k n assume ok: "auth_ok k n"
  show "auth_of_persisted (persisted_of_auth n) = Some (k, auth_norm n)"
    by (rule auth_of_persisted_of_auth [OF ok])
  show "auth_ok k (auth_norm n)" using ok by (simp add: auth_ok_def auth_norm_def)
qed

lemma auth_norm_idem: "auth_norm (auth_norm n) = auth_norm n"
  by (simp add: auth_norm_def)

lemma auth_norm_trust:
  "na_status (auth_norm n) = na_status n" "na_public_key (auth_norm n) = na_public_key n"
  by (simp_all add: auth_norm_def)


section \<open>Histories\<close>

text \<open>
  Everything that reaches the registry: join requests from the mesh, the administrator's
  decisions, and restarts of the hub. A history lists the requests and decisions, newest first.
\<close>

datatype auth_event =
    Offer time "byte list" "byte list"
  | Approval time string
  | Rejection string

inductive auth_reach :: "auth_event list \<Rightarrow> auth_registry \<Rightarrow> bool" where
  auth_start: "auth_reach [] new_auth_registry"
| auth_offer: "auth_reach h r \<Longrightarrow> length mac = 6 \<Longrightarrow> length pub = 32 \<Longrightarrow>
    auth_reach (Offer now mac pub # h) (snd (add_pending now mac pub r))"
| auth_approval: "auth_reach h r \<Longrightarrow> auth_reach (Approval now s # h) (snd (approve now s r))"
| auth_rejection: "auth_reach h r \<Longrightarrow> auth_reach (Rejection s # h) (snd (reject s r))"
| auth_restart: "auth_reach h r \<Longrightarrow>
    auth_reach h (snd (auth_load (snd (auth_persist Written r f)) new_auth_registry))"

inductive_cases auth_reach_emptyE: "auth_reach [] r"

lemma restarted_lookup:
  "auth_registry_inv r \<Longrightarrow>
     map_of (snd (auth_load (snd (auth_persist Written r f)) new_auth_registry)) =
       map_option auth_norm \<circ> map_of r"
  using auth_table.load_saved [of r]
  by (simp add: auth_load_def auth_persist_def write_file_def read_entries_def new_auth_registry_def)

lemma restarted_inv:
  "auth_registry_inv r \<Longrightarrow>
     auth_registry_inv (snd (auth_load (snd (auth_persist Written r f)) new_auth_registry))"
  using auth_table.load_saved_inv [of r]
  by (simp add: auth_load_def auth_persist_def write_file_def read_entries_def new_auth_registry_def)

lemma auth_reach_inv: "auth_reach h r \<Longrightarrow> auth_registry_inv r"
proof (induction rule: auth_reach.induct)
  case auth_start
  show ?case by (simp add: new_auth_registry_def)
next
  case (auth_restart h r f)
  show ?case by (rule restarted_inv [OF auth_restart.IH])
qed (simp_all add: auth_invs)

text \<open>
  The specification over histories: the key a node offered last, and when the hub may trust a
  key: it was approved while it was the node's latest key, and since then the node was not
  rejected and offered no other key.
\<close>

fun latest_offer :: "byte list \<Rightarrow> auth_event list \<Rightarrow> byte list option" where
  "latest_offer mac [] = None"
| "latest_offer mac (Offer now m pub # h) = (if m = mac then Some pub else latest_offer mac h)"
| "latest_offer mac (Approval now s # h) = latest_offer mac h"
| "latest_offer mac (Rejection s # h) = latest_offer mac h"

fun trusted_by :: "byte list \<Rightarrow> byte list \<Rightarrow> auth_event list \<Rightarrow> bool" where
  "trusted_by mac pub [] \<longleftrightarrow> False"
| "trusted_by mac pub (Offer now m p # h) \<longleftrightarrow> (m = mac \<longrightarrow> p = pub) \<and> trusted_by mac pub h"
| "trusted_by mac pub (Approval now s # h) \<longleftrightarrow>
     auth_key s = auth_mac_to_string mac \<and> latest_offer mac h = Some pub \<or> trusted_by mac pub h"
| "trusted_by mac pub (Rejection s # h) \<longleftrightarrow>
     auth_key s \<noteq> auth_mac_to_string mac \<and> trusted_by mac pub h"

definition auth_refines :: "auth_event list \<Rightarrow> auth_registry \<Rightarrow> byte list \<Rightarrow> bool" where
  "auth_refines h r mac \<longleftrightarrow>
     (case map_of r (auth_mac_to_string mac) of
        None \<Rightarrow> latest_offer mac h = None \<and> (\<forall>pub. \<not> trusted_by mac pub h)
      | Some n \<Rightarrow> latest_offer mac h = Some (na_public_key n) \<and>
          (\<forall>pub. trusted_by mac pub h \<longleftrightarrow> na_status n = TrustApproved \<and> pub = na_public_key n))"

lemma auth_refines_offer:
  assumes "length mac = 6" and "length m = 6" and "auth_refines h r mac"
  shows "auth_refines (Offer now m pub # h) (snd (add_pending now m pub r)) mac"
proof (cases "m = mac")
  case True
  then show ?thesis using assms(3)
    by (auto simp: auth_refines_def add_pending_def Let_def gm.lookup_put hub_simps split: option.splits)
next
  case False
  then have "auth_mac_to_string m \<noteq> auth_mac_to_string mac"
    using auth_codec.show_inj [OF assms(2,1)] by blast
  then show ?thesis using assms(3) False
    by (auto simp: auth_refines_def add_pending_def Let_def gm.lookup_put split: option.splits)
qed

lemma auth_refines_approval:
  "auth_refines h r mac \<Longrightarrow> auth_refines (Approval now s # h) (snd (approve now s r)) mac"
  by (cases "auth_key s = auth_mac_to_string mac")
    (auto simp: auth_refines_def approve_def Let_def gm.lookup_put split: option.splits)

lemma auth_refines_rejection:
  "auth_refines h r mac \<Longrightarrow> auth_refines (Rejection s # h) (snd (reject s r)) mac"
  by (cases "auth_key s = auth_mac_to_string mac")
    (auto simp: auth_refines_def reject_def Let_def gm.lookup_put hub_simps split: option.splits)

lemma auth_reach_refines: "auth_reach h r \<Longrightarrow> length mac = 6 \<Longrightarrow> auth_refines h r mac"
proof (induction rule: auth_reach.induct)
  case auth_start
  then show ?case by (simp add: auth_refines_def new_auth_registry_def)
next
  case (auth_restart h r f)
  then show ?case
    using restarted_lookup [OF auth_reach_inv [OF auth_restart(1)]]
    by (auto simp: auth_refines_def auth_norm_trust split: option.splits)
qed (simp_all add: auth_refines_offer auth_refines_approval auth_refines_rejection)

section \<open>Properties\<close>

text \<open>
  C2. No node is trusted without the administrator: in every state the hub can reach, through
  any mix of join requests, decisions and restarts, \<open>GetApprovedPublicKey\<close> returns a key exactly
  when that key was approved while it was the node's latest key and the node was neither
  rejected nor re-keyed since. A join request with a new key revokes the trust by itself.
\<close>

theorem approved_key_is_trusted:
  assumes "auth_reach h r" and "length mac = 6"
  shows "get_approved_public_key mac r = Some pub \<longleftrightarrow> trusted_by mac pub h"
  using auth_reach_refines [OF assms]
  by (auto simp: auth_refines_def get_approved_public_key_def split: option.splits)

theorem approved_key_is_trusted_witness:
  "\<exists>r. auth_reach [Approval 2 ''000000000001'', Offer 1 [0,0,0,0,0,1] (replicate 32 9)] r \<and>
       get_approved_public_key [0,0,0,0,0,1] r = Some (replicate 32 9)"
proof -
  let ?m = "[0,0,0,0,0,1] :: byte list" and ?k = "replicate 32 9 :: byte list"
  obtain r where r: "auth_reach [Approval 2 ''000000000001'', Offer 1 ?m ?k] r"
    using auth_approval [OF auth_offer [OF auth_start, of ?m ?k]] by auto
  have "auth_key ''000000000001'' = auth_mac_to_string ?m"
    by code_simp
  then have "trusted_by ?m ?k [Approval 2 ''000000000001'', Offer 1 ?m ?k]" by simp
  then show ?thesis using r approved_key_is_trusted [OF r, of ?m ?k] by auto
qed

text \<open>
  C14. A node can never be wedged out of the mesh: whatever the registry holds for it (approved
  with an old key, rejected, pending or unknown), a join request either is recognised as a
  repeat of the approved key, which stays trusted, or leaves a pending request that one approval
  turns into trust in the new key. Requests and decisions of other nodes are untouched.
\<close>

theorem join_request_is_resolvable:
  assumes "length mac = 6"
  shows "let (e, r1) = add_pending now mac pub r;
             (res, r2) = approve later (auth_mac_to_string mac) r1
         in (e = Some AlreadyApprovedSameKey \<longrightarrow>
               get_approved_public_key mac r = Some pub \<and> get_approved_public_key mac r1 = Some pub) \<and>
            (e = None \<longrightarrow> get_approved_public_key mac r1 = None \<and>
               (\<exists>n \<in> set (get_pending r1). na_public_key n = pub \<and> map_of r1 (auth_mac_to_string mac) = Some n)) \<and>
            (\<exists>n. res = Inr n \<and> na_public_key n = pub) \<and>
            get_approved_public_key mac r2 = Some pub \<and>
            (\<forall>k. k \<noteq> auth_mac_to_string mac \<longrightarrow> map_of r2 k = map_of r k)"
proof -
  let ?key = "auth_mac_to_string mac"
  obtain e r1 where ap: "add_pending now mac pub r = (e, r1)" by fastforce
  have others: "\<forall>k. k \<noteq> ?key \<longrightarrow> map_of r1 k = map_of r k"
    using ap by (auto simp: add_pending_def Let_def gm.lookup_put split: option.splits if_splits)
  obtain n where n: "map_of r1 ?key = Some n" and pub: "na_public_key n = pub"
    and same: "e = Some AlreadyApprovedSameKey \<Longrightarrow> na_status n = TrustApproved \<and> get_approved_public_key mac r = Some pub"
    and pend: "e = None \<Longrightarrow> na_status n = TrustPending"
    using ap by (auto simp: add_pending_def Let_def gm.lookup_put get_approved_public_key_def
        split: option.splits if_splits)
  have key: "auth_key ?key = ?key"
    by (simp add: auth_key_def auth_codec.normalise_show assms)
  have "approve later ?key r1 =
      (Inr (n\<lparr> na_status := TrustApproved, na_approved_at := later \<rparr>),
       AList.update ?key (n\<lparr> na_status := TrustApproved, na_approved_at := later \<rparr>) r1)"
    by (simp add: approve_def Let_def key n)
  moreover have "e = None \<Longrightarrow> n \<in> set (get_pending r1)"
    using pend map_of_SomeD [OF n] by (force simp: get_pending_def)
  ultimately show ?thesis
    using n pub same pend others
    by (auto simp: ap get_approved_public_key_def gm.lookup_put hub_simps)
qed

theorem join_request_is_resolvable_witness:
  "length ([0,0,0,0,0,1] :: byte list) = 6 \<and>
   get_approved_public_key [0,0,0,0,0,1]
     (snd (approve 9 (auth_mac_to_string [0,0,0,0,0,1])
        (snd (add_pending 8 [0,0,0,0,0,1] (replicate 32 7) [])))) = Some (replicate 32 7)"
  using join_request_is_resolvable [of "[0,0,0,0,0,1]" 8 "replicate 32 7" "[]" 9]
  by (simp add: case_prod_beta Let_def)

text \<open>
  A restart changes no trust decision: after the final save and a load, every node has the
  status and the key it had, and the two timestamps are the old ones cut to whole seconds (the
  file stores Unix seconds), the zero time of a never-approved node included.
\<close>

theorem auth_survives_restart:
  assumes inv: "auth_registry_inv r" and ticks: "\<forall>ev \<in> set ticks. fst ev = Tick"
  shows "\<exists>f'. auth_persist_loop (ticks @ [(StopSignal, r, Written)]) f = (True, f') \<and>
           fst (auth_load f' new_auth_registry) = None \<and>
           auth_registry_inv (snd (auth_load f' new_auth_registry)) \<and>
           (\<forall>k. rel_option (\<lambda>a b. na_mac a = na_mac b \<and> na_public_key a = na_public_key b \<and>
                  na_status a = na_status b \<and>
                  na_received_at a = na_received_at b - na_received_at b mod second \<and>
                  na_approved_at a = na_approved_at b - na_approved_at b mod second)
                (map_of (snd (auth_load f' new_auth_registry)) k) (map_of r k))"
proof -
  obtain f'' where loop: "auth_persist_loop (ticks @ [(StopSignal, r, Written)]) f =
      (True, snd (auth_persist Written r f''))"
    using persist_loop_final [of ticks auth_persist r Written "[]" f] ticks
    unfolding auth_persist_loop_def by auto
  have "fst (auth_load (snd (auth_persist Written r f'')) new_auth_registry) = None"
    by (simp add: auth_load_def auth_persist_def write_file_def read_entries_def)
  then show ?thesis
    using loop restarted_lookup [OF inv, of f''] restarted_inv [OF inv, of f'']
    by (auto simp: auth_norm_def of_unix_to_unix second_def option.rel_map option.rel_refl)
qed

theorem auth_survives_restart_witness:
  "\<exists>f'. auth_persist_loop [(StopSignal, snd (add_pending 1500000000 [0,0,0,0,0,1] (replicate 32 7) []), Written)]
           Missing = (True, f') \<and>
         map_option na_received_at
           (map_of (snd (auth_load f' new_auth_registry)) (auth_mac_to_string [0,0,0,0,0,1])) = Some 1000000000"
proof -
  let ?r = "snd (add_pending 1500000000 [0,0,0,0,0,1] (replicate 32 7) [])"
  have inv: "auth_registry_inv ?r" by (rule add_pending_inv) simp_all
  obtain n where n: "map_of ?r (auth_mac_to_string [0,0,0,0,0,1]) = Some n"
    and t: "na_received_at n = 1500000000" by (simp add: add_pending_def Let_def)
  obtain f' where f: "auth_persist_loop [(StopSignal, ?r, Written)] Missing = (True, f')"
    and rel: "\<forall>k. rel_option (\<lambda>a b. na_mac a = na_mac b \<and> na_public_key a = na_public_key b \<and>
                  na_status a = na_status b \<and>
                  na_received_at a = na_received_at b - na_received_at b mod second \<and>
                  na_approved_at a = na_approved_at b - na_approved_at b mod second)
                (map_of (snd (auth_load f' new_auth_registry)) k) (map_of ?r k)"
    using auth_survives_restart [OF inv, of "[]" Missing] by auto
  from rel have "map_option na_received_at
      (map_of (snd (auth_load f' new_auth_registry)) (auth_mac_to_string [0,0,0,0,0,1])) = Some 1000000000"
    using n t by (auto simp: second_def option_rel_Some2 dest!: spec [where x = "auth_mac_to_string [0,0,0,0,0,1]"])
  with f show ?thesis by blast
qed

text \<open>
  C39. The bare-hexadecimal entries that \<open>ParseMAC\<close> accepts for backward compatibility load
  under the string as it was stored, so an approved node from such a file is listed by \<open>GetAll\<close>
  but is not approved, has no approved key, and cannot be approved or rejected again.
\<close>

theorem bare_hex_entry_is_unreachable:
  assumes len: "length m = 6" and key: "length pub = 32"
  shows "let e = \<lparr> pe_mac = hex_encode m, pe_public_key = hex_encode pub, pe_status = TrustApproved,
                    pe_received_at = t, pe_approved_at = u \<rparr>;
             r = snd (auth_load (Json [e]) new_auth_registry)
         in (\<exists>n. auth_get_all r = [n] \<and> na_mac n = m \<and> na_status n = TrustApproved) \<and>
            \<not> is_approved m r \<and> get_approved_public_key m r = None \<and>
            fst (approve now (hex_encode m) r) = Inl (NodeNotFound (auth_mac_to_string m)) \<and>
            fst (reject (hex_encode m) r) = Some (NodeNotFound (auth_mac_to_string m))"
proof -
  have scan: "scan_colon_hex 6 (hex_encode m) = None"
    using scan_six_hex_decode [of "hex_encode m"]
    by (cases "scan_colon_hex 6 (hex_encode m)") (auto simp: hex_decode_encode)
  have parse: "parse_mac (hex_encode m) = Inr m"
    using len by (simp add: parse_mac_def scan hex_decode_encode)
  have ne: "auth_mac_to_string m \<noteq> hex_encode m"
    using colon_in_shown [OF len] colon_notin_hex_encode [of m] by (auto simp: auth_mac_to_string_def)
  have ak: "auth_key (hex_encode m) = auth_mac_to_string m"
    by (simp add: auth_key_def auth_codec.normalise_parse [OF parse])
  show ?thesis
    using ne key
    by (simp add: auth_load_def read_entries_def load_table_def new_auth_registry_def auth_of_persisted_def
        parse parse_public_key_def hex_decode_encode auth_get_all_def is_approved_def
        get_approved_public_key_def approve_def reject_def ak Let_def)
qed

theorem bare_hex_entry_is_unreachable_witness:
  "\<not> is_approved [0,0,0,0,0,1] (snd (auth_load (Json [\<lparr> pe_mac = hex_encode [0,0,0,0,0,1],
        pe_public_key = hex_encode (replicate 32 7), pe_status = TrustApproved, pe_received_at = 5,
        pe_approved_at = 6 \<rparr>]) new_auth_registry))"
  using bare_hex_entry_is_unreachable [of "[0,0,0,0,0,1]" "replicate 32 7"] by (simp add: Let_def)

end
