(* ===== verification/Zone_Registry.thy ===== *)
theory Zone_Registry
  imports Table_Store Go_Strings
begin

text \<open>
  The artist-defined zones of \<open>mesh/zone_registry.go\<close>: a map from a URL-safe id to a zone, its
  operations and its file. Zone names are ASCII here, where \<open>strings.ToLower\<close> is \<open>to_lower\<close>.
\<close>

section \<open>State and operations\<close>

record zone_v1 =
  zone_id :: string
  zone_name :: string

type_synonym zone_registry = "(string, zone_v1) gomap"

definition new_zone_registry :: zone_registry where
  "new_zone_registry = []"

definition zone_slug :: "string \<Rightarrow> string" where
  "zone_slug name = replace_char CHR '' '' CHR ''-'' (to_lower name)"

datatype zone_error = ZoneExists string

definition zone_add :: "string \<Rightarrow> zone_registry \<Rightarrow> (zone_error + zone_v1) \<times> zone_registry" where
  "zone_add name zr =
     (let i = zone_slug name
      in case map_of zr i of
           Some z \<Rightarrow> (Inl (ZoneExists i), zr)
         | None \<Rightarrow> (let z = \<lparr> zone_id = i, zone_name = name \<rparr> in (Inr z, AList.update i z zr)))"

definition zone_get :: "string \<Rightarrow> zone_registry \<Rightarrow> zone_v1 option" where
  "zone_get i zr = map_of zr i"

definition zone_list :: "zone_registry \<Rightarrow> zone_v1 list" where
  "zone_list zr = map snd zr"

definition zone_update :: "string \<Rightarrow> string \<Rightarrow> zone_registry \<Rightarrow> zone_v1 option \<times> zone_registry" where
  "zone_update i new_name zr =
     (case map_of zr i of
        None \<Rightarrow> (None, zr)
      | Some z \<Rightarrow> (Some (z\<lparr> zone_name := new_name \<rparr>), AList.update i (z\<lparr> zone_name := new_name \<rparr>) zr))"

definition zone_delete :: "string \<Rightarrow> zone_registry \<Rightarrow> bool \<times> zone_registry" where
  "zone_delete i zr = (map_of zr i \<noteq> None, AList.delete i zr)"

section \<open>The file\<close>

text \<open>
  \<open>Load\<close> decodes into a slice of pointers, so a \<open>null\<close> element of the file is a nil pointer and
  reading its \<open>ID\<close> panics; the entries before it are already stored.
\<close>

definition zones_persist ::
    "zone_v1 option write_outcome \<Rightarrow> zone_registry \<Rightarrow> zone_v1 option disk_file
       \<Rightarrow> go_error option \<times> zone_v1 option disk_file" where
  "zones_persist out zr f = write_file out (map (Some \<circ> snd) zr)"

fun zones_load_entries :: "zone_v1 option list \<Rightarrow> zone_registry \<Rightarrow> zone_registry outcome" where
  "zones_load_entries [] zr = Ret zr"
| "zones_load_entries (None # es) zr = Panic ''nil pointer dereference''"
| "zones_load_entries (Some z # es) zr = zones_load_entries es (AList.update (zone_id z) z zr)"

definition zones_load ::
    "zone_v1 option disk_file \<Rightarrow> zone_registry \<Rightarrow> (go_error option \<times> zone_registry) outcome" where
  "zones_load f zr =
     (case read_entries f of
        Inl e \<Rightarrow> Ret (Some e, zr)
      | Inr es \<Rightarrow>
          (case zones_load_entries es zr of Panic p \<Rightarrow> Panic p | Ret zr' \<Rightarrow> Ret (None, zr')))"

section \<open>The invariant\<close>

definition zone_ok :: "string \<Rightarrow> zone_v1 \<Rightarrow> bool" where
  "zone_ok k z \<longleftrightarrow> zone_id z = k"

abbreviation zone_registry_inv :: "zone_registry \<Rightarrow> bool" where
  "zone_registry_inv \<equiv> table_inv zone_ok"

lemma zone_add_inv: "zone_registry_inv zr \<Longrightarrow> zone_registry_inv (snd (zone_add name zr))"
  by (auto simp: zone_add_def Let_def zone_ok_def intro!: table_inv_put split: option.split)

lemma zone_update_inv: "zone_registry_inv zr \<Longrightarrow> zone_registry_inv (snd (zone_update i name zr))"
  by (auto simp: zone_update_def zone_ok_def dest: table_invD intro!: table_inv_put split: option.split)

lemma zone_delete_inv: "zone_registry_inv zr \<Longrightarrow> zone_registry_inv (snd (zone_delete i zr))"
  by (simp add: zone_delete_def table_inv_del)

lemma zones_load_entries_ok:
  "zones_load_entries (map (Some \<circ> snd) es) zr =
     Ret (load_table (map_option (\<lambda>z. (zone_id z, z))) (map (Some \<circ> snd) es) zr)"
  by (induction es arbitrary: zr) (simp_all add: load_table_def)

interpretation zones_table: persisted_table zone_ok Some "map_option (\<lambda>z. (zone_id z, z))" id
  by unfold_locales (auto simp: zone_ok_def)

lemma zones_restored:
  assumes "zone_registry_inv zr"
  shows "\<exists>zr'. zones_load (snd (zones_persist Written zr f)) new_zone_registry = Ret (None, zr') \<and>
           map_of zr' = map_of zr \<and> zone_registry_inv zr'"
proof -
  let ?zr' = "load_table (map_option (\<lambda>z. (zone_id z, z))) (map (Some \<circ> snd) zr) []"
  have "map_of ?zr' = map_of zr"
    using zones_table.load_saved [OF assms] by (simp add: option.map_id0)
  moreover have "zone_registry_inv ?zr'" by (rule zones_table.load_saved_inv [OF assms])
  moreover have "zones_load (snd (zones_persist Written zr f)) new_zone_registry = Ret (None, ?zr')"
    by (simp add: zones_load_def zones_persist_def write_file_def read_entries_def
        zones_load_entries_ok new_zone_registry_def)
  ultimately show ?thesis by blast
qed

section \<open>Histories\<close>

datatype zone_op = ZAdd string | ZUpdate string string | ZDelete string

fun zone_apply :: "zone_op \<Rightarrow> zone_registry \<Rightarrow> zone_registry" where
  "zone_apply (ZAdd name) zr = snd (zone_add name zr)"
| "zone_apply (ZUpdate i name) zr = snd (zone_update i name zr)"
| "zone_apply (ZDelete i) zr = snd (zone_delete i zr)"

lemma zone_apply_inv: "zone_registry_inv zr \<Longrightarrow> zone_registry_inv (zone_apply op zr)"
  by (cases op) (simp_all add: zone_add_inv zone_update_inv zone_delete_inv)

lemma zones_run_inv: "zone_registry_inv (fold zone_apply ops new_zone_registry)"
  by (rule fold_invariant_step) (simp_all add: zone_apply_inv new_zone_registry_def)

text \<open>The name a zone has after a history: the specification of the registry.\<close>

fun zone_spec :: "zone_op \<Rightarrow> (string \<Rightarrow> string option) \<Rightarrow> string \<Rightarrow> string option" where
  "zone_spec (ZAdd name) m = (if m (zone_slug name) = None then m(zone_slug name \<mapsto> name) else m)"
| "zone_spec (ZUpdate i name) m = (if m i = None then m else m(i \<mapsto> name))"
| "zone_spec (ZDelete i) m = m(i := None)"

lemma zone_apply_spec:
  "map_option zone_name \<circ> map_of (zone_apply op zr) = zone_spec op (map_option zone_name \<circ> map_of zr)"
  by (cases op) (auto simp: fun_eq_iff zone_add_def zone_update_def zone_delete_def Let_def
      gomap_simps split: option.splits)

lemma zones_run_spec:
  "map_option zone_name \<circ> map_of (fold zone_apply ops zr) =
     fold zone_spec ops (map_option zone_name \<circ> map_of zr)"
  by (induction ops arbitrary: zr) (simp_all add: zone_apply_spec)

section \<open>Properties\<close>

text \<open>
  C30. The zone registry implements its specification, a map from ids to names: after any
  sequence of creations, renames and deletions, \<open>Get\<close> returns the name the specification gives,
  with an id that is the one asked for and never changes with a rename; a name whose id is taken
  changes nothing; and saving and loading the file gives the same zones without a panic.
\<close>

theorem zones_refine_map:
  "let zr = fold zone_apply ops new_zone_registry; m = fold zone_spec ops Map.empty
   in (\<forall>i. zone_get i zr = map_option (\<lambda>n. \<lparr> zone_id = i, zone_name = n \<rparr>) (m i)) \<and>
      (\<exists>zr'. zones_load (snd (zones_persist Written zr f)) new_zone_registry = Ret (None, zr') \<and>
             (\<forall>i. zone_get i zr' = zone_get i zr))"
proof -
  let ?zr = "fold zone_apply ops new_zone_registry" and ?m = "fold zone_spec ops Map.empty"
  have inv: "zone_registry_inv ?zr" by (rule zones_run_inv)
  have m: "map_option zone_name (map_of ?zr i) = ?m i" for i
    using zones_run_spec [of ops new_zone_registry] by (simp add: fun_eq_iff new_zone_registry_def comp_def)
  have "zone_get i ?zr = map_option (\<lambda>n. \<lparr> zone_id = i, zone_name = n \<rparr>) (?m i)" for i
    unfolding m [symmetric] zone_get_def
    using table_invD [OF inv, of i] by (cases "map_of ?zr i") (auto simp: zone_ok_def)
  then show ?thesis
    using zones_restored [OF inv, of f] by (auto simp: zone_get_def Let_def)
qed

end
