(* ===== verification/Command_Store.thy ===== *)
theory Command_Store
  imports Hub_Prelude
begin

text \<open>
  The commands in flight, \<open>mesh/command_store.go\<close>. \<open>uuid.Parse\<close> is third-party code: the
  parameter \<open>uuid_parse\<close> gives the 16 bytes of a UUID string, or nothing when it fails.
\<close>

section \<open>State and operations\<close>

datatype command_status = CommandStatusPending | CommandStatusAcked | CommandStatusTimeout

record pending_command =
  cmd_id :: string
  cmd_node_id :: byte
  cmd_action :: string
  cmd_sent_at :: time
  cmd_status :: command_status
  cmd_acked_at :: "time option"

type_synonym command_store = "(string, pending_command) gomap"

definition new_command_store :: command_store where
  "new_command_store = []"

definition cmd_add :: "pending_command \<Rightarrow> command_store \<Rightarrow> command_store" where
  "cmd_add c cs = AList.update (cmd_id c) c cs"

definition acked :: "time \<Rightarrow> pending_command \<Rightarrow> pending_command" where
  "acked now c = c\<lparr> cmd_status := CommandStatusAcked, cmd_acked_at := Some now \<rparr>"

definition cmd_ack :: "time \<Rightarrow> string \<Rightarrow> command_store \<Rightarrow> bool \<times> command_store" where
  "cmd_ack now i cs =
     (case map_of cs i of None \<Rightarrow> (False, cs) | Some c \<Rightarrow> (True, AList.update i (acked now c) cs))"

definition cmd_get :: "string \<Rightarrow> command_store \<Rightarrow> pending_command option" where
  "cmd_get i cs = map_of cs i"

definition token_of :: "(string \<Rightarrow> byte list option) \<Rightarrow> string \<Rightarrow> (byte \<times> byte) option" where
  "token_of uuid_parse i = (case uuid_parse i of None \<Rightarrow> None | Some u \<Rightarrow> Some (u ! 14, u ! 15))"

definition ack_by_token ::
    "(string \<Rightarrow> byte list option) \<Rightarrow> time \<Rightarrow> byte \<times> byte \<Rightarrow> command_store
       \<Rightarrow> string option \<times> command_store" where
  "ack_by_token uuid_parse now token cs =
     (case find (\<lambda>(i, c). cmd_status c = CommandStatusPending \<and> token_of uuid_parse i = Some token) cs of
        None \<Rightarrow> (None, cs)
      | Some (i, c) \<Rightarrow> (Some i, AList.update i (acked now c) cs))"

section \<open>Statuses only move forward\<close>

text \<open>The order in which a command progresses; a late acknowledgement would supersede a timeout.\<close>

instantiation command_status :: linorder
begin

definition rank_less_eq: "a \<le> b \<longleftrightarrow> (a = CommandStatusPending \<or> a = b \<or> b = CommandStatusAcked)"

definition rank_less: "a < b \<longleftrightarrow> a \<le> b \<and> a \<noteq> (b :: command_status)"

instance
proof
  fix a b c :: command_status
  show "a < b \<longleftrightarrow> a \<le> b \<and> \<not> b \<le> a" by (cases a; cases b) (simp_all add: rank_less rank_less_eq)
  show "a \<le> a" by (simp add: rank_less_eq)
  show "a \<le> b \<Longrightarrow> b \<le> c \<Longrightarrow> a \<le> c" by (cases a; cases b; cases c) (simp_all add: rank_less_eq)
  show "a \<le> b \<Longrightarrow> b \<le> a \<Longrightarrow> a = b" by (cases a; cases b) (simp_all add: rank_less_eq)
  show "a \<le> b \<or> b \<le> a" by (cases a; cases b) (simp_all add: rank_less_eq)
qed

end

definition cmds_ok :: "command_store \<Rightarrow> bool" where
  "cmds_ok cs \<longleftrightarrow> keys_distinct cs \<and>
     (\<forall>i c. map_of cs i = Some c \<longrightarrow> cmd_id c = i \<and>
        (cmd_status c = CommandStatusAcked \<longleftrightarrow> cmd_acked_at c \<noteq> None))"

lemma cmds_ok_add:
  "cmds_ok cs \<Longrightarrow> (cmd_status c = CommandStatusAcked \<longleftrightarrow> cmd_acked_at c \<noteq> None) \<Longrightarrow> cmds_ok (cmd_add c cs)"
  by (auto simp: cmds_ok_def cmd_add_def gomap_simps)

lemma cmds_ok_ack: "cmds_ok cs \<Longrightarrow> cmds_ok (snd (cmd_ack now i cs))"
  by (auto simp: cmds_ok_def cmd_ack_def gomap_simps acked_def split: option.splits)

text \<open>What a token acknowledges: the first pending command in map order whose id carries it.\<close>

lemma ack_by_token_cases:
  assumes "keys_distinct cs"
  obtains (none) "ack_by_token up now token cs = (None, cs)"
      "\<And>i c. map_of cs i = Some c \<Longrightarrow> cmd_status c = CommandStatusPending \<Longrightarrow> token_of up i \<noteq> Some token"
  | (hit) i c where "ack_by_token up now token cs = (Some i, AList.update i (acked now c) cs)"
      "map_of cs i = Some c" "cmd_status c = CommandStatusPending" "token_of up i = Some token"
proof (cases "find (\<lambda>(i, c). cmd_status c = CommandStatusPending \<and> token_of up i = Some token) cs")
  case None
  then have "token_of up i \<noteq> Some token"
    if "map_of cs i = Some c" "cmd_status c = CommandStatusPending" for i c
    using that map_of_SomeD [OF that(1)] by (auto simp: find_None_iff)
  with None show ?thesis by (intro none) (simp_all add: ack_by_token_def)
next
  case (Some ic)
  obtain i c where ic: "ic = (i, c)" by (cases ic)
  from find_SomeD [OF Some] have mem: "(i, c) \<in> set cs"
    and p: "cmd_status c = CommandStatusPending" "token_of up i = Some token"
    by (simp_all add: ic)
  from mem have "map_of cs i = Some c" using gm.entries_lookup [OF assms] by simp
  then show ?thesis using Some p by (intro hit [of i c]) (simp_all add: ack_by_token_def ic)
qed

lemma cmds_ok_ack_by_token:
  assumes "cmds_ok cs"
  shows "cmds_ok (snd (ack_by_token up now token cs))"
proof -
  have kd: "keys_distinct cs" using assms by (simp add: cmds_ok_def)
  show ?thesis
    by (rule ack_by_token_cases [OF kd, of up now token])
      (use assms in \<open>auto simp: cmds_ok_def gomap_simps acked_def\<close>)
qed

text \<open>No acknowledgement moves a status back, removes a command or changes what was sent.\<close>

definition same_command :: "pending_command \<Rightarrow> pending_command \<Rightarrow> bool" where
  "same_command c d \<longleftrightarrow> cmd_id c = cmd_id d \<and> cmd_node_id c = cmd_node_id d \<and>
     cmd_action c = cmd_action d \<and> cmd_sent_at c = cmd_sent_at d"

lemma acked_progress: "same_command c (acked now c) \<and> cmd_status c \<le> cmd_status (acked now c)"
  by (simp add: acked_def same_command_def rank_less_eq)

lemma ack_progress:
  assumes "cmd_get i cs = Some c"
  shows "\<exists>c'. cmd_get i (snd (cmd_ack now j cs)) = Some c' \<and> same_command c c' \<and> cmd_status c \<le> cmd_status c'"
  using assms acked_progress [of c now]
  by (cases "i = j") (auto simp: cmd_get_def cmd_ack_def gm.lookup_put same_command_def split: option.split)

lemma ack_unique_token:
  assumes ok: "cmds_ok cs" and c: "map_of cs i = Some c" "cmd_status c = CommandStatusPending"
    and tok: "token_of up i = Some token"
    and only: "\<And>j d. map_of cs j = Some d \<Longrightarrow> cmd_status d = CommandStatusPending \<Longrightarrow>
                token_of up j = Some token \<Longrightarrow> j = i"
  shows "let (r, cs') = ack_by_token up now token cs
         in r = Some i \<and> cmd_get i cs' = Some (acked now c) \<and>
            (\<forall>j. j \<noteq> i \<longrightarrow> cmd_get j cs' = cmd_get j cs) \<and>
            ack_by_token up later token cs' = (None, cs') \<and> cmds_ok cs'"
proof -
  have kd: "keys_distinct cs" using ok by (simp add: cmds_ok_def)
  have ok': "cmds_ok (AList.update i (acked now c) cs)"
    using ok c by (auto simp: cmds_ok_def gomap_simps acked_def)
  have hit: "ack_by_token up now token cs = (Some i, AList.update i (acked now c) cs)"
  proof (rule ack_by_token_cases [OF kd, of up now token])
    assume none: "\<And>i c. map_of cs i = Some c \<Longrightarrow> cmd_status c = CommandStatusPending \<Longrightarrow>
        token_of up i \<noteq> Some token"
    from none [OF c] tok show ?thesis by contradiction
  next
    fix j d assume h: "ack_by_token up now token cs = (Some j, AList.update j (acked now d) cs)"
      and d: "map_of cs j = Some d" "cmd_status d = CommandStatusPending" "token_of up j = Some token"
    from only [OF d] have "j = i" .
    with h d(1) c(1) show ?thesis by simp
  qed
  have again: "ack_by_token up later token (AList.update i (acked now c) cs) =
      (None, AList.update i (acked now c) cs)"
  proof (rule ack_by_token_cases [of "AList.update i (acked now c) cs" up later token])
    show "keys_distinct (AList.update i (acked now c) cs)" using kd by (rule gm.wf_put)
  next
    fix j d
    assume "map_of (AList.update i (acked now c) cs) j = Some d"
      "cmd_status d = CommandStatusPending" "token_of up j = Some token"
    then have "j \<noteq> i" and "map_of cs j = Some d" and "cmd_status d = CommandStatusPending"
      and "token_of up j = Some token"
      by (auto simp: gm.lookup_put acked_def split: if_splits)
    with only [of j d] have False by blast
    then show ?thesis ..
  qed assumption
  show ?thesis using ok' by (simp add: hit again cmd_get_def gm.lookup_put)
qed

section \<open>Properties\<close>

text \<open>
  C31. A two-byte acknowledgement token acknowledges exactly the command it names: when it
  belongs to one pending command only, \<open>AckByToken\<close> returns that command's id and sets its
  status and time, whatever the map order; every other command is untouched, and the same token
  afterwards acknowledges nothing more.
\<close>

theorem token_acks_its_command:
  assumes ok: "cmds_ok cs" and c: "map_of cs i = Some c" "cmd_status c = CommandStatusPending"
    and tok: "token_of up i = Some token"
    and only: "\<And>j d. map_of cs j = Some d \<Longrightarrow> cmd_status d = CommandStatusPending \<Longrightarrow>
                token_of up j = Some token \<Longrightarrow> j = i"
  shows "let (r, cs') = ack_by_token up now token cs
         in r = Some i \<and> cmd_get i cs' = Some (acked now c) \<and>
            (\<forall>j. j \<noteq> i \<longrightarrow> cmd_get j cs' = cmd_get j cs) \<and>
            ack_by_token up later token cs' = (None, cs') \<and> cmds_ok cs'"
  using assms by (rule ack_unique_token)

theorem token_acks_its_command_witness:
  "fst (ack_by_token (\<lambda>s. Some (replicate 14 0 @ [7, 9])) 5 (7, 9)
     [(''a'', \<lparr> cmd_id = ''a'', cmd_node_id = 1, cmd_action = ''off'', cmd_sent_at = 0,
                cmd_status = CommandStatusPending, cmd_acked_at = None \<rparr>)]) = Some ''a''"
proof -
  let ?c = "\<lparr> cmd_id = ''a'', cmd_node_id = 1, cmd_action = ''off'', cmd_sent_at = 0,
              cmd_status = CommandStatusPending, cmd_acked_at = None \<rparr> :: pending_command"
  have ok: "cmds_ok [(''a'', ?c)]" by (auto simp: cmds_ok_def keys_distinct_def)
  have tok: "token_of (\<lambda>s. Some (replicate 14 0 @ [7, 9])) ''a'' = Some (7, 9)"
    by (simp add: token_of_def nth_append)
  have "let (r, cs') = ack_by_token (\<lambda>s. Some (replicate 14 0 @ [7, 9])) 5 (7, 9) [(''a'', ?c)]
        in r = Some ''a'' \<and> cmd_get ''a'' cs' = Some (acked 5 ?c) \<and>
           (\<forall>j. j \<noteq> ''a'' \<longrightarrow> cmd_get j cs' = cmd_get j [(''a'', ?c)]) \<and>
           ack_by_token (\<lambda>s. Some (replicate 14 0 @ [7, 9])) 6 (7, 9) cs' = (None, cs') \<and> cmds_ok cs'"
    by (rule token_acks_its_command [OF ok _ _ tok]) (auto split: if_splits)
  then show ?thesis by (simp add: case_prod_beta Let_def)
qed

end
