(* ===== verification/Event_Broker.thy ===== *)
theory Event_Broker
  imports Hub_Prelude Go_Strings "HOL-Library.Sublist"
begin

text \<open>
  The in-process event bus of \<open>mesh/event_broker.go\<close>. Subscriber channels are buffered Go
  channels in a heap, named by numbers; the broker's client set lists the names in the order a
  \<open>range\<close> loop meets them. The mutex makes \<open>Publish\<close> and each of the two halves of
  \<open>Unsubscribe\<close> (removing the channel under the lock, closing it after) atomic, so the
  interleavings of publishers and subscribers are the runs of the step relation below.
\<close>

section \<open>State\<close>

datatype event_type =
    EventMotion | EventNodeOnline | EventNodeOffline | EventEnrolled | EventHealth
  | EventCommandAck | EventRouteUpdate

fun event_type_name :: "event_type \<Rightarrow> string" where
  "event_type_name EventMotion = ''motion''"
| "event_type_name EventNodeOnline = ''node_online''"
| "event_type_name EventNodeOffline = ''node_offline''"
| "event_type_name EventEnrolled = ''enrolled''"
| "event_type_name EventHealth = ''health''"
| "event_type_name EventCommandAck = ''command_ack''"
| "event_type_name EventRouteUpdate = ''route_update''"

record event =
  ev_type :: event_type
  ev_data :: json
  ev_timestamp :: time

type_synonym chan_id = nat

record chan =
  ch_buf :: "event list"
  ch_closed :: bool

record event_broker =
  eb_heap :: "(chan_id, chan) gomap"
  eb_clients :: "chan_id list"
  eb_next :: chan_id

definition event_buffer_size :: nat where
  "event_buffer_size = 32"

definition new_event_broker :: event_broker where
  "new_event_broker = \<lparr> eb_heap = [], eb_clients = [], eb_next = 0 \<rparr>"

section \<open>Operations\<close>

definition subscribe :: "event_broker \<Rightarrow> chan_id \<times> event_broker" where
  "subscribe b =
     (let ch = eb_next b
      in (ch, b\<lparr> eb_heap := AList.update ch \<lparr> ch_buf = [], ch_closed = False \<rparr> (eb_heap b),
                 eb_clients := eb_clients b @ [ch], eb_next := Suc ch \<rparr>))"

definition remove_client :: "chan_id \<Rightarrow> event_broker \<Rightarrow> event_broker" where
  "remove_client ch b = b\<lparr> eb_clients := remove1 ch (eb_clients b) \<rparr>"

definition close_chan :: "chan_id \<Rightarrow> event_broker \<Rightarrow> event_broker outcome" where
  "close_chan ch b =
     (case map_of (eb_heap b) ch of
        None \<Rightarrow> Panic ''close of nil channel''
      | Some c \<Rightarrow> if ch_closed c then Panic ''close of closed channel''
                  else Ret (b\<lparr> eb_heap := AList.update ch (c\<lparr> ch_closed := True \<rparr>) (eb_heap b) \<rparr>))"

definition unsubscribe :: "chan_id \<Rightarrow> event_broker \<Rightarrow> event_broker outcome" where
  "unsubscribe ch b = close_chan ch (remove_client ch b)"

text \<open>\<open>select { case ch <- e: default: }\<close>: a full buffer drops the event, a closed channel panics.\<close>

definition try_send :: "event \<Rightarrow> chan \<Rightarrow> chan outcome" where
  "try_send e c =
     (if ch_closed c then Panic ''send on closed channel''
      else if length (ch_buf c) < event_buffer_size then Ret (c\<lparr> ch_buf := ch_buf c @ [e] \<rparr>)
      else Ret c)"

fun send_all :: "event \<Rightarrow> chan_id list \<Rightarrow> (chan_id, chan) gomap \<Rightarrow> (chan_id, chan) gomap outcome" where
  "send_all e [] h = Ret h"
| "send_all e (ch # chs) h =
     (case map_of h ch of
        None \<Rightarrow> send_all e chs h
      | Some c \<Rightarrow>
          (case try_send e c of
             Panic p \<Rightarrow> Panic p
           | Ret c' \<Rightarrow> send_all e chs (AList.update ch c' h)))"

definition publish :: "event \<Rightarrow> event_broker \<Rightarrow> event_broker outcome" where
  "publish e b =
     (case send_all e (eb_clients b) (eb_heap b) of
        Panic p \<Rightarrow> Panic p
      | Ret h \<Rightarrow> Ret (b\<lparr> eb_heap := h \<rparr>))"

text \<open>A subscriber receives: the oldest buffered event, if there is one.\<close>

definition receive :: "chan_id \<Rightarrow> event_broker \<Rightarrow> event option \<times> event_broker" where
  "receive ch b =
     (case map_of (eb_heap b) ch of
        None \<Rightarrow> (None, b)
      | Some c \<Rightarrow>
          (case ch_buf c of
             [] \<Rightarrow> (None, b)
           | e # es \<Rightarrow> (Some e, b\<lparr> eb_heap := AList.update ch (c\<lparr> ch_buf := es \<rparr>) (eb_heap b) \<rparr>)))"

section \<open>Sending to every client\<close>

definition pushed :: "event \<Rightarrow> chan \<Rightarrow> chan" where
  "pushed e c = (if length (ch_buf c) < event_buffer_size then c\<lparr> ch_buf := ch_buf c @ [e] \<rparr> else c)"

lemma send_all_open:
  assumes "distinct chs" and "\<forall>ch \<in> set chs. \<exists>c. map_of h ch = Some c \<and> \<not> ch_closed c"
  shows "\<exists>h'. send_all e chs h = Ret h' \<and>
     (\<forall>ch. map_of h' ch = (if ch \<in> set chs then map_option (pushed e) (map_of h ch) else map_of h ch))"
  using assms
proof (induction chs arbitrary: h)
  case Nil
  then show ?case by simp
next
  case (Cons ch chs)
  then obtain c where c: "map_of h ch = Some c" "\<not> ch_closed c" by auto
  have send: "try_send e c = Ret (pushed e c)" using c by (simp add: try_send_def pushed_def)
  have "\<forall>x \<in> set chs. \<exists>d. map_of (AList.update ch (pushed e c) h) x = Some d \<and> \<not> ch_closed d"
    using Cons.prems by (auto simp: gm.lookup_put)
  with Cons.IH [of "AList.update ch (pushed e c) h"] Cons.prems(1) obtain h' where
    "send_all e chs (AList.update ch (pushed e c) h) = Ret h'" and
    "\<forall>x. map_of h' x = (if x \<in> set chs then map_option (pushed e) (map_of (AList.update ch (pushed e c) h) x)
        else map_of (AList.update ch (pushed e c) h) x)" by auto
  with c send Cons.prems(1) show ?case by (auto simp: gm.lookup_put)
qed

section \<open>Concurrent runs\<close>

text \<open>
  The state of a run: the broker, the channels whose \<open>Unsubscribe\<close> has removed them and not
  closed them yet, and the ghost history: every event published since a channel was subscribed
  and while it was a client, and every event its subscriber received.
\<close>

record bus =
  bus_broker :: event_broker
  bus_closing :: "chan_id set"
  bus_published :: "chan_id \<Rightarrow> event list"
  bus_received :: "chan_id \<Rightarrow> event list"

definition bus_init :: bus where
  "bus_init = \<lparr> bus_broker = new_event_broker, bus_closing = {}, bus_published = (\<lambda>_. []),
                bus_received = (\<lambda>_. []) \<rparr>"

inductive bus_step :: "bus \<Rightarrow> bus \<Rightarrow> bool" where
  bus_subscribe: "subscribe (bus_broker s) = (ch, b) \<Longrightarrow> bus_step s (s\<lparr> bus_broker := b \<rparr>)"
| bus_remove: "ch \<in> set (eb_clients (bus_broker s)) \<Longrightarrow>
    bus_step s (s\<lparr> bus_broker := remove_client ch (bus_broker s), bus_closing := insert ch (bus_closing s) \<rparr>)"
| bus_close: "ch \<in> bus_closing s \<Longrightarrow> close_chan ch (bus_broker s) = Ret b \<Longrightarrow>
    bus_step s (s\<lparr> bus_broker := b, bus_closing := bus_closing s - {ch} \<rparr>)"
| bus_publish: "publish e (bus_broker s) = Ret b \<Longrightarrow>
    bus_step s (s\<lparr> bus_broker := b,
      bus_published := (\<lambda>ch. if ch \<in> set (eb_clients (bus_broker s)) then bus_published s ch @ [e]
                             else bus_published s ch) \<rparr>)"
| bus_receive: "receive ch (bus_broker s) = (Some e, b) \<Longrightarrow>
    bus_step s (s\<lparr> bus_broker := b, bus_received := (bus_received s)(ch := bus_received s ch @ [e]) \<rparr>)"

inductive bus_reach :: "bus \<Rightarrow> bool" where
  bus_reach_init: "bus_reach bus_init"
| bus_reach_step: "bus_reach s \<Longrightarrow> bus_step s t \<Longrightarrow> bus_reach t"

inductive_cases bus_stepE: "bus_step s t"

text \<open>
  The invariant of one channel: its buffer is bounded, what its subscriber received followed by
  what is buffered is a subsequence of what was published to it, and all of it while no more
  than a bufferful was published.
\<close>

definition chan_ok :: "event list \<Rightarrow> event list \<Rightarrow> chan \<Rightarrow> bool" where
  "chan_ok pub rcv c \<longleftrightarrow> length (ch_buf c) \<le> event_buffer_size \<and> subseq (rcv @ ch_buf c) pub \<and>
     (length pub \<le> event_buffer_size \<longrightarrow> rcv @ ch_buf c = pub)"

text \<open>Clients and channels being closed are open and disjoint; names are never reused.\<close>

definition open_chan :: "event_broker \<Rightarrow> chan_id \<Rightarrow> bool" where
  "open_chan b ch \<longleftrightarrow> (\<exists>c. map_of (eb_heap b) ch = Some c \<and> \<not> ch_closed c)"

definition bus_inv :: "bus \<Rightarrow> bool" where
  "bus_inv s \<longleftrightarrow>
     distinct (eb_clients (bus_broker s)) \<and>
     set (eb_clients (bus_broker s)) \<inter> bus_closing s = {} \<and>
     (\<forall>ch \<in> set (eb_clients (bus_broker s)) \<union> bus_closing s. open_chan (bus_broker s) ch) \<and>
     (\<forall>ch c. map_of (eb_heap (bus_broker s)) ch = Some c \<longrightarrow> ch < eb_next (bus_broker s) \<and>
        chan_ok (bus_published s ch) (bus_received s ch) c) \<and>
     (\<forall>ch. eb_next (bus_broker s) \<le> ch \<longrightarrow> bus_published s ch = [] \<and> bus_received s ch = [])"

lemma bus_inv_init: "bus_inv bus_init"
  by (simp add: bus_inv_def bus_init_def new_event_broker_def)

lemma chan_ok_new: "chan_ok [] [] \<lparr> ch_buf = [], ch_closed = False \<rparr>"
  by (simp add: chan_ok_def)

lemma pushed_closed [simp]: "ch_closed (pushed e c) = ch_closed c"
  by (simp add: pushed_def)

lemma chan_ok_pushed: "chan_ok pub rcv c \<Longrightarrow> chan_ok (pub @ [e]) rcv (pushed e c)"
  using list_emb_append_mono [of "(=)" "rcv @ ch_buf c" pub "[e]" "[e]"]
    subseq_order.trans [of "rcv @ ch_buf c" pub "pub @ [e]"]
  by (auto simp: chan_ok_def pushed_def)

lemma chan_ok_received:
  "chan_ok pub rcv c \<Longrightarrow> ch_buf c = e # es \<Longrightarrow> chan_ok pub (rcv @ [e]) (c\<lparr> ch_buf := es \<rparr>)"
  by (simp add: chan_ok_def)

lemma chan_ok_closed: "chan_ok pub rcv c \<Longrightarrow> chan_ok pub rcv (c\<lparr> ch_closed := True \<rparr>)"
  by (simp add: chan_ok_def)

lemma bus_inv_fresh: "bus_inv s \<Longrightarrow> map_of (eb_heap (bus_broker s)) (eb_next (bus_broker s)) = None"
  unfolding bus_inv_def by (metis less_irrefl not_None_eq)

lemma bus_inv_open: "bus_inv s \<Longrightarrow> ch \<in> set (eb_clients (bus_broker s)) \<union> bus_closing s \<Longrightarrow>
    \<exists>c. map_of (eb_heap (bus_broker s)) ch = Some c \<and> \<not> ch_closed c"
  unfolding bus_inv_def open_chan_def by blast

lemma publish_open:
  assumes "bus_inv s"
  shows "\<exists>h. publish e (bus_broker s) = Ret (bus_broker s\<lparr> eb_heap := h \<rparr>) \<and>
     (\<forall>ch. map_of h ch = (if ch \<in> set (eb_clients (bus_broker s))
        then map_option (pushed e) (map_of (eb_heap (bus_broker s)) ch)
        else map_of (eb_heap (bus_broker s)) ch))"
proof -
  have "distinct (eb_clients (bus_broker s))" using assms by (simp add: bus_inv_def)
  moreover have "\<forall>ch \<in> set (eb_clients (bus_broker s)).
      \<exists>c. map_of (eb_heap (bus_broker s)) ch = Some c \<and> \<not> ch_closed c"
    using bus_inv_open [OF assms] by blast
  ultimately show ?thesis
    using send_all_open [of "eb_clients (bus_broker s)" "eb_heap (bus_broker s)" e]
    by (auto simp: publish_def)
qed

lemma bus_inv_subscribe:
  assumes "bus_inv s" and "subscribe (bus_broker s) = (ch, b)"
  shows "bus_inv (s\<lparr> bus_broker := b \<rparr>)"
proof -
  have b: "b = (bus_broker s)
    \<lparr> eb_heap := AList.update (eb_next (bus_broker s)) \<lparr> ch_buf = [], ch_closed = False \<rparr> (eb_heap (bus_broker s)),
      eb_clients := eb_clients (bus_broker s) @ [eb_next (bus_broker s)],
      eb_next := Suc (eb_next (bus_broker s)) \<rparr>"
    using assms(2) by (auto simp: subscribe_def Let_def)
  have fresh: "eb_next (bus_broker s) \<notin> set (eb_clients (bus_broker s)) \<union> bus_closing s"
    using bus_inv_open [OF assms(1)] bus_inv_fresh [OF assms(1)] by fastforce
  show ?thesis
    using assms(1) fresh unfolding bus_inv_def b
    by (auto simp: open_chan_def gm.lookup_put chan_ok_new less_SucI)
qed

lemma bus_inv_remove:
  "bus_inv s \<Longrightarrow> ch \<in> set (eb_clients (bus_broker s)) \<Longrightarrow>
     bus_inv (s\<lparr> bus_broker := remove_client ch (bus_broker s), bus_closing := insert ch (bus_closing s) \<rparr>)"
  by (auto simp: bus_inv_def remove_client_def open_chan_def)

lemma close_open_chan:
  "map_of (eb_heap b) ch = Some c \<Longrightarrow> \<not> ch_closed c \<Longrightarrow>
     close_chan ch b = Ret (b\<lparr> eb_heap := AList.update ch (c\<lparr> ch_closed := True \<rparr>) (eb_heap b) \<rparr>)"
  by (simp add: close_chan_def)

lemma bus_inv_close:
  assumes inv: "bus_inv s" and ch: "ch \<in> bus_closing s" and cl: "close_chan ch (bus_broker s) = Ret b"
  shows "bus_inv (s\<lparr> bus_broker := b, bus_closing := bus_closing s - {ch} \<rparr>)"
proof -
  obtain c where c: "map_of (eb_heap (bus_broker s)) ch = Some c" "\<not> ch_closed c"
    using bus_inv_open [OF inv] ch by blast
  have b: "b = (bus_broker s)\<lparr> eb_heap := AList.update ch (c\<lparr> ch_closed := True \<rparr>) (eb_heap (bus_broker s)) \<rparr>"
    using cl close_open_chan [OF c] by simp
  show ?thesis using inv c ch unfolding b bus_inv_def
    by (auto simp: open_chan_def gm.lookup_put chan_ok_closed)
qed

lemma bus_inv_publish:
  assumes inv: "bus_inv s" and pub: "publish e (bus_broker s) = Ret b"
  shows "bus_inv (s\<lparr> bus_broker := b,
      bus_published := (\<lambda>ch. if ch \<in> set (eb_clients (bus_broker s)) then bus_published s ch @ [e]
                             else bus_published s ch) \<rparr>)"
proof -
  obtain h where b: "b = (bus_broker s)\<lparr> eb_heap := h \<rparr>" and h: "\<And>ch. map_of h ch =
      (if ch \<in> set (eb_clients (bus_broker s)) then map_option (pushed e) (map_of (eb_heap (bus_broker s)) ch)
        else map_of (eb_heap (bus_broker s)) ch)"
    using publish_open [OF inv, of e] pub by auto
  have "map_of (eb_heap (bus_broker s)) ch = None" if "eb_next (bus_broker s) \<le> ch" for ch
    using inv that unfolding bus_inv_def by (metis not_le not_None_eq)
  then have "ch \<notin> set (eb_clients (bus_broker s))" if "eb_next (bus_broker s) \<le> ch" for ch
    using bus_inv_open [OF inv] that by fastforce
  moreover have "open_chan (bus_broker s\<lparr> eb_heap := h \<rparr>) x" if "open_chan (bus_broker s) x" for x
    using that by (auto simp: open_chan_def h)
  ultimately show ?thesis using inv unfolding b bus_inv_def
    by (auto simp: h chan_ok_pushed)
qed

lemma bus_inv_receive:
  assumes inv: "bus_inv s" and r: "receive ch (bus_broker s) = (Some e, b)"
  shows "bus_inv (s\<lparr> bus_broker := b, bus_received := (bus_received s)(ch := bus_received s ch @ [e]) \<rparr>)"
proof -
  obtain c es where c: "map_of (eb_heap (bus_broker s)) ch = Some c" "ch_buf c = e # es"
    and b: "b = (bus_broker s)\<lparr> eb_heap := AList.update ch (c\<lparr> ch_buf := es \<rparr>) (eb_heap (bus_broker s)) \<rparr>"
    using r by (auto simp: receive_def split: option.splits list.splits)
  have lt: "\<not> eb_next (bus_broker s) \<le> ch" using inv c unfolding bus_inv_def not_le by blast
  have "open_chan b x" if "open_chan (bus_broker s) x" for x
    using that c by (auto simp: b open_chan_def gm.lookup_put)
  with inv c lt show ?thesis unfolding bus_inv_def
    by (auto simp: b gm.lookup_put chan_ok_received)
qed

lemma bus_inv_step: "bus_step s t \<Longrightarrow> bus_inv s \<Longrightarrow> bus_inv t"
  by (erule bus_stepE)
    (simp_all add: bus_inv_subscribe bus_inv_remove bus_inv_close bus_inv_publish bus_inv_receive)

lemma bus_reach_inv: "bus_reach s \<Longrightarrow> bus_inv s"
  by (induction rule: bus_reach.induct) (simp_all add: bus_inv_init bus_inv_step)

section \<open>Properties\<close>

text \<open>
  C17. Publishing never panics and never blocks, in any interleaving of subscribers,
  unsubscribers, publishers and readers: in every reachable state \<open>Publish\<close> returns, although an
  \<open>Unsubscribe\<close> closes its channel outside the lock, and the close that follows a removal finds
  its channel still open.
\<close>

theorem publish_never_panics:
  assumes "bus_reach s"
  shows "(\<exists>b. publish e (bus_broker s) = Ret b) \<and>
         (\<forall>ch \<in> bus_closing s. \<exists>b. close_chan ch (bus_broker s) = Ret b) \<and>
         (\<forall>ch \<in> set (eb_clients (bus_broker s)). \<exists>b. unsubscribe ch (bus_broker s) = Ret b)"
proof -
  note inv = bus_reach_inv [OF assms]
  have "\<exists>b. close_chan ch (bus_broker s) = Ret b" if "ch \<in> bus_closing s" for ch
    using bus_inv_open [OF inv, of ch] that close_open_chan [of "bus_broker s" ch] by blast
  moreover have "\<exists>b. unsubscribe ch (bus_broker s) = Ret b" if "ch \<in> set (eb_clients (bus_broker s))" for ch
    using bus_inv_open [OF inv, of ch] that close_open_chan [of "remove_client ch (bus_broker s)" ch]
    by (auto simp: unsubscribe_def remove_client_def)
  ultimately show ?thesis using publish_open [OF inv] by blast
qed

lemma bus_reach_one: "bus_reach (bus_init\<lparr> bus_broker := snd (subscribe new_event_broker) \<rparr>)"
  by (rule bus_reach_step [OF bus_reach_init], rule bus_subscribe)
    (simp add: bus_init_def subscribe_def Let_def)

theorem publish_never_panics_witness:
  "\<exists>b. publish \<lparr> ev_type = EventMotion, ev_data = JNull, ev_timestamp = 0 \<rparr>
         (snd (subscribe new_event_broker)) = Ret b"
  using publish_never_panics [OF bus_reach_one, of "\<lparr> ev_type = EventMotion, ev_data = JNull, ev_timestamp = 0 \<rparr>"]
  by simp

text \<open>
  C18. Each subscriber sees a faithful stream: in every reachable state what it received,
  followed by its buffer, is a subsequence of what was published while it was subscribed (in
  order, nothing twice, nothing made up), the buffer never exceeds 32 events, and nothing is
  lost until more than 32 events were published to it. Other subscribers do not matter.
\<close>

theorem subscriber_stream_faithful:
  assumes "bus_reach s" and "map_of (eb_heap (bus_broker s)) ch = Some c"
  shows "length (ch_buf c) \<le> 32 \<and>
         subseq (bus_received s ch @ ch_buf c) (bus_published s ch) \<and>
         (length (bus_published s ch) \<le> 32 \<longrightarrow> bus_received s ch @ ch_buf c = bus_published s ch)"
  using bus_reach_inv [OF assms(1)] assms(2)
  by (simp add: bus_inv_def chan_ok_def event_buffer_size_def)

text \<open>A subscriber to which two events were published and which has received the first.\<close>

definition motion :: "time \<Rightarrow> event" where
  "motion t = \<lparr> ev_type = EventMotion, ev_data = JNull, ev_timestamp = t \<rparr>"

definition one_subscriber :: "event list \<Rightarrow> event list \<Rightarrow> event list \<Rightarrow> bus" where
  "one_subscriber buf pub rcv = bus_init\<lparr> bus_broker := \<lparr> eb_heap = [(0, \<lparr> ch_buf = buf, ch_closed = False \<rparr>)],
     eb_clients = [0], eb_next = 1 \<rparr>, bus_published := (bus_published bus_init)(0 := pub),
     bus_received := (bus_received bus_init)(0 := rcv) \<rparr>"

lemma one_subscriber_reach: "bus_reach (one_subscriber [motion 2] [motion 1, motion 2] [motion 1])"
proof -
  have init: "bus_step bus_init (one_subscriber [] [] [])"
    using bus_subscribe [of bus_init 0 "snd (subscribe new_event_broker)"]
    by (simp add: one_subscriber_def bus_init_def subscribe_def new_event_broker_def Let_def fun_upd_def)
  have push: "bus_step (one_subscriber buf pub []) (one_subscriber (buf @ [motion t]) (pub @ [motion t]) [])"
    if "length buf < 32" for buf pub t
    using bus_publish [of "motion t" "one_subscriber buf pub []"] that
    by (simp add: one_subscriber_def publish_def try_send_def event_buffer_size_def bus_init_def fun_upd_def cong: if_cong)
  have one: "bus_reach (one_subscriber [motion 1] [motion 1] [])"
    using bus_reach_step [OF bus_reach_step [OF bus_reach_init init]] push [of "[]" "[]" 1] by simp
  have two: "bus_reach (one_subscriber [motion 1, motion 2] [motion 1, motion 2] [])"
    using bus_reach_step [OF one] push [of "[motion 1]" "[motion 1]" 2] by simp
  show ?thesis
    using bus_receive [of 0 "one_subscriber [motion 1, motion 2] [motion 1, motion 2] []" "motion 1"]
    by (intro bus_reach_step [OF two]) (simp add: one_subscriber_def receive_def bus_init_def fun_upd_def)
qed

theorem subscriber_stream_faithful_witness:
  "[motion 1] @ [motion 2] = bus_published (one_subscriber [motion 2] [motion 1, motion 2] [motion 1]) 0"
  using subscriber_stream_faithful [OF one_subscriber_reach, of 0 "\<lparr> ch_buf = [motion 2], ch_closed = False \<rparr>"]
  by (simp add: one_subscriber_def)

end
