(* ===== verification/Event_Store.thy ===== *)
theory Event_Store
  imports Hub_Prelude Go_Strings
begin

text \<open>
  The event store of \<open>eventStore/\<close>: the statistics snapshot, the bootstrap of the Kafka topics
  with its retry loop, the asynchronous writer, and the in-memory store of
  \<open>mesh/mock_event_store.go\<close>. The Kafka client is third-party code: the broker's answer to a
  request and the fate of a delivery are arguments. The locale \<open>event_store\<close> is the contract of
  \<open>EventStoreInterface\<close>, and both stores are instances of it.
\<close>

section \<open>Topics and statistics\<close>

definition TopicMotionTrigger :: string where "TopicMotionTrigger = ''motion-trigger''"
definition TopicMeshEnrollment :: string where "TopicMeshEnrollment = ''mesh-enrollment''"
definition TopicMeshMessages :: string where "TopicMeshMessages = ''mesh-messages''"

definition topics :: "string list" where
  "topics = [TopicMotionTrigger, TopicMeshEnrollment, TopicMeshMessages]"

record topic_stats =
  ts_ready :: bool
  ts_failed_writes :: u64
  ts_last_error :: string
  ts_last_failure_at :: "time option"

record stats =
  st_connected :: bool
  st_topics_ready :: bool
  st_topics :: "(string, topic_stats) gomap"
  st_failed_writes :: u64
  st_last_error :: string
  st_last_failure_at :: "time option"

definition zero_topic_stats :: topic_stats where
  "zero_topic_stats = \<lparr> ts_ready = False, ts_failed_writes = 0, ts_last_error = [], ts_last_failure_at = None \<rparr>"

definition disconnected_stats :: stats where
  "disconnected_stats = \<lparr> st_connected = False, st_topics_ready = False,
     st_topics = fold (\<lambda>n m. AList.update n zero_topic_stats m) topics [],
     st_failed_writes = 0, st_last_error = [], st_last_failure_at = None \<rparr>"

definition topic_stats_of :: "string \<Rightarrow> stats \<Rightarrow> topic_stats" where
  "topic_stats_of t st = (case map_of (st_topics st) t of None \<Rightarrow> zero_topic_stats | Some ts \<Rightarrow> ts)"

definition record_write_failure :: "time \<Rightarrow> string \<Rightarrow> go_error \<Rightarrow> stats \<Rightarrow> stats" where
  "record_write_failure now t err st =
     (let ts = topic_stats_of t st
      in st\<lparr> st_topics := AList.update t
               (ts\<lparr> ts_failed_writes := ts_failed_writes ts + 1, ts_last_error := err,
                    ts_last_failure_at := Some now \<rparr>) (st_topics st),
             st_failed_writes := st_failed_writes st + 1,
             st_last_error := err, st_last_failure_at := Some now \<rparr>)"

definition set_connected :: "bool \<Rightarrow> stats \<Rightarrow> stats" where
  "set_connected c st = st\<lparr> st_connected := c \<rparr>"

section \<open>Creating the topics\<close>

text \<open>
  The broker's answer to \<open>CreateTopics\<close>: a failed request, or the error it reports for each
  topic, where \<open>TopicAlreadyExists\<close> counts as success.
\<close>

datatype topic_error = TopicAlreadyExists | OtherTopicError go_error

fun topic_error_text :: "topic_error \<Rightarrow> go_error" where
  "topic_error_text TopicAlreadyExists = ''topic already exists''"
| "topic_error_text (OtherTopicError e) = e"

type_synonym create_response = "go_error + (string \<times> topic_error) list"

definition ensure_topics :: "create_response \<Rightarrow> string list \<Rightarrow> go_error + (string, topic_error) gomap" where
  "ensure_topics res names =
     (case res of
        Inl e \<Rightarrow> Inl e
      | Inr errs \<Rightarrow> Inr (fold (\<lambda>n failed.
            case map_of errs n of
              None \<Rightarrow> failed
            | Some TopicAlreadyExists \<Rightarrow> failed
            | Some e \<Rightarrow> AList.update n e failed) names []))"

fun join_with :: "string \<Rightarrow> string list \<Rightarrow> string" where
  "join_with sep [] = []"
| "join_with sep [s] = s"
| "join_with sep (s # t # ts) = s @ sep @ join_with sep (t # ts)"

definition join_topic_errors :: "string list \<Rightarrow> (string, topic_error) gomap \<Rightarrow> go_error" where
  "join_topic_errors names failed =
     ''create topics: '' @ join_with ''; ''
       [n @ '': '' @ topic_error_text e. n \<leftarrow> names, (k, e) \<leftarrow> failed, k = n]"

text \<open>One attempt: the error it returns, and the statistics it leaves.\<close>

definition note_topic :: "time \<Rightarrow> (string, topic_error) gomap \<Rightarrow> string \<Rightarrow> stats \<Rightarrow> stats" where
  "note_topic now failed n st =
     (let ts = topic_stats_of n st;
          ts' = (case map_of failed n of
                   Some e \<Rightarrow> ts\<lparr> ts_ready := False, ts_last_error := topic_error_text e,
                               ts_last_failure_at := Some now \<rparr>
                 | None \<Rightarrow> ts\<lparr> ts_ready := True \<rparr>)
      in st\<lparr> st_topics := AList.update n ts' (st_topics st) \<rparr>)"

definition ensure_topics_once ::
    "time \<Rightarrow> create_response \<Rightarrow> string list \<Rightarrow> stats \<Rightarrow> go_error option \<times> stats" where
  "ensure_topics_once now res names st =
     (case ensure_topics res names of
        Inl e \<Rightarrow> (Some e, st\<lparr> st_topics_ready := False, st_last_error := e, st_last_failure_at := Some now \<rparr>)
      | Inr failed \<Rightarrow>
          (let st' = (fold (note_topic now failed) names st)\<lparr> st_topics_ready := (failed = []) \<rparr>
           in if failed \<noteq> []
              then (let err = join_topic_errors names failed
                    in (Some err, st'\<lparr> st_last_error := err, st_last_failure_at := Some now \<rparr>))
              else (None, st')))"

section \<open>The retry loop\<close>

text \<open>
  The background loop as a function of the broker's answers, one per attempt, with the time of
  the attempt and whether the context was cancelled while it ran or during the sleep after it. Its result lists the
  sleeps it made. The loop runs until it succeeds or is cancelled, so it is a partial function:
  \<open>None\<close> is a run that never ends.
\<close>

record attempt =
  at_time :: time
  at_response :: create_response
  at_cancelled :: bool
  at_sleep_cut :: bool

definition next_backoff :: "duration \<Rightarrow> duration \<Rightarrow> duration" where
  "next_backoff b m = min (b * 2) m"

partial_function (option) ensure_topics_loop ::
    "(nat \<Rightarrow> attempt) \<Rightarrow> duration \<Rightarrow> string list \<Rightarrow> nat \<Rightarrow> duration \<Rightarrow> stats \<times> duration list
       \<Rightarrow> (bool \<times> stats \<times> duration list) option" where
  "ensure_topics_loop att mx names i backoff s =
     (case ensure_topics_once (at_time (att i)) (at_response (att i)) names (fst s) of
        (None, st) \<Rightarrow> Some (True, st, snd s)
      | (Some e, st) \<Rightarrow>
          if at_cancelled (att i) then Some (False, st, snd s)
          else if at_sleep_cut (att i) then Some (False, st, snd s @ [backoff])
          else ensure_topics_loop att mx names (Suc i) (next_backoff backoff mx) (st, snd s @ [backoff]))"

section \<open>The Kafka store\<close>

record kafka_store =
  ks_broker :: string
  ks_group_id :: string
  ks_writer :: bool
  ks_topics :: "string list"
  ks_initial_backoff :: duration
  ks_max_backoff :: duration
  ks_ensuring :: bool
  ks_pending :: "(json \<times> string) list"
  ks_stats :: stats

definition new_store :: "string \<Rightarrow> string \<Rightarrow> kafka_store" where
  "new_store broker group_id = \<lparr> ks_broker = broker, ks_group_id = group_id, ks_writer = False, ks_topics = topics, ks_initial_backoff = second,
     ks_max_backoff = 30 * second, ks_ensuring = False, ks_pending = [], ks_stats = disconnected_stats \<rparr>"

text \<open>
  \<open>stopEnsure\<close>: afterwards no retry loop runs. What an attempt that it interrupts still records is
  an iteration of \<open>ensure_topics_loop\<close>, before this step.
\<close>

definition stop_ensure :: "kafka_store \<Rightarrow> kafka_store" where
  "stop_ensure s = s\<lparr> ks_ensuring := False \<rparr>"

declare stop_ensure_def [simp]

text \<open>
  \<open>Connect\<close>: the dial, then a new writer and the first attempt at the topics. A failing dial
  changes nothing; topic creation never fails the connect but starts the background loop.
\<close>

definition store_connect ::
    "go_error option \<Rightarrow> time \<Rightarrow> create_response \<Rightarrow> kafka_store \<Rightarrow> go_error option \<times> kafka_store" where
  "store_connect dial now res s =
     (case dial of
        Some e \<Rightarrow> (Some (''kafka broker unreachable at '' @ ks_broker s @ '': '' @ e), s)
      | None \<Rightarrow>
          (let s1 = (stop_ensure s)\<lparr> ks_writer := True, ks_stats := set_connected True (ks_stats s) \<rparr>;
               (err, st) = ensure_topics_once now res (ks_topics s1) (ks_stats s1)
           in (None, s1\<lparr> ks_stats := st, ks_ensuring := (err \<noteq> None) \<rparr>)))"

text \<open>
  \<open>WriteMessage\<close>: an error only when there is no writer; with one, the message is queued for the
  asynchronous delivery, and an enqueue error is counted but not returned.
\<close>

definition store_write ::
    "go_error option \<Rightarrow> time \<Rightarrow> json \<Rightarrow> string \<Rightarrow> kafka_store \<Rightarrow> go_error option \<times> kafka_store" where
  "store_write enqueue now event topic s =
     (if \<not> ks_writer s
      then (Some ''not connected'', s\<lparr> ks_stats := record_write_failure now topic ''not connected'' (ks_stats s) \<rparr>)
      else case enqueue of
             None \<Rightarrow> (None, s\<lparr> ks_pending := ks_pending s @ [(event, topic)] \<rparr>)
           | Some e \<Rightarrow> (None, s\<lparr> ks_stats := record_write_failure now topic e (ks_stats s) \<rparr>))"

text \<open>
  The writer's \<open>Completion\<close> callback for a batch of the queued messages, in whatever order the
  writer forms its batches.
\<close>

definition store_complete :: "go_error option \<Rightarrow> time \<Rightarrow> (json \<times> string) list \<Rightarrow> kafka_store \<Rightarrow> kafka_store" where
  "store_complete err now batch s =
     s\<lparr> ks_pending := fold remove1 batch (ks_pending s),
        ks_stats := (case err of
            None \<Rightarrow> ks_stats s
          | Some e \<Rightarrow> fold (\<lambda>(ev, t). record_write_failure now t e) batch (ks_stats s)) \<rparr>"

definition store_close :: "go_error option \<Rightarrow> kafka_store \<Rightarrow> go_error option \<times> kafka_store" where
  "store_close close_err s =
     (let s' = (stop_ensure s)\<lparr> ks_stats := set_connected False (ks_stats s) \<rparr>
      in (if ks_writer s' then map_option (\<lambda>e. ''closing writer: '' @ e) close_err else None, s'))"

definition store_stats :: "kafka_store \<Rightarrow> stats" where
  "store_stats s = ks_stats s"

section \<open>The in-memory store\<close>

record mock_store =
  mk_messages :: "json list"
  mk_topics :: "string list"
  mk_write_err :: "go_error option"
  mk_failed_writes :: "(string, u64) gomap"
  mk_last_error :: string
  mk_last_failure_at :: "time option"

definition new_mock_store :: mock_store where
  "new_mock_store = \<lparr> mk_messages = [], mk_topics = [], mk_write_err = None,
     mk_failed_writes = [], mk_last_error = [], mk_last_failure_at = None \<rparr>"

definition mock_write :: "time \<Rightarrow> json \<Rightarrow> string \<Rightarrow> mock_store \<Rightarrow> go_error option \<times> mock_store" where
  "mock_write now event topic m =
     (case mk_write_err m of
        Some e \<Rightarrow> (Some e, m\<lparr> mk_failed_writes := AList.update topic
                               ((case map_of (mk_failed_writes m) topic of None \<Rightarrow> 0 | Some n \<Rightarrow> n) + 1) (mk_failed_writes m),
                            mk_last_error := e, mk_last_failure_at := Some now \<rparr>)
      | None \<Rightarrow> (None, m\<lparr> mk_messages := mk_messages m @ [event], mk_topics := mk_topics m @ [topic] \<rparr>))"


definition mock_topic :: "mock_store \<Rightarrow> string \<times> u64 \<Rightarrow> stats \<Rightarrow> stats" where
  "mock_topic m = (\<lambda>(t, n) st. st\<lparr>
      st_topics := AList.update t
        ((topic_stats_of t st)\<lparr> ts_failed_writes := n, ts_last_error := mk_last_error m,
             ts_last_failure_at := mk_last_failure_at m \<rparr>) (st_topics st),
      st_failed_writes := st_failed_writes st + n \<rparr>)"

definition mock_stats :: "mock_store \<Rightarrow> stats" where
  "mock_stats m =
     (let st0 = disconnected_stats\<lparr> st_connected := True, st_topics_ready := True,
                  st_topics := map (\<lambda>(n, ts). (n, ts\<lparr> ts_ready := True \<rparr>)) (st_topics disconnected_stats) \<rparr>;
          st1 = fold (mock_topic m) (mk_failed_writes m) st0
      in st1\<lparr> st_last_error := mk_last_error m, st_last_failure_at := mk_last_failure_at m \<rparr>)"

section \<open>Counting failures\<close>

definition failed_for :: "string \<Rightarrow> stats \<Rightarrow> u64" where
  "failed_for t st = ts_failed_writes (topic_stats_of t st)"

definition failed_sum :: "(string, topic_stats) gomap \<Rightarrow> u64" where
  "failed_sum m = sum_list (map (ts_failed_writes \<circ> snd) m)"

lemma failed_sum_update:
  "failed_sum (AList.update t ts m) =
     failed_sum m + ts_failed_writes ts -
       (case map_of m t of None \<Rightarrow> 0 | Some old \<Rightarrow> ts_failed_writes old)"
  by (induction m) (auto simp: failed_sum_def split: option.splits)

definition stats_ok :: "stats \<Rightarrow> bool" where
  "stats_ok st \<longleftrightarrow> st_failed_writes st = failed_sum (st_topics st)"

lemma stats_ok_record: "stats_ok st \<Longrightarrow> stats_ok (record_write_failure now t e st)"
  by (simp add: stats_ok_def record_write_failure_def Let_def failed_sum_update topic_stats_of_def
      zero_topic_stats_def split: option.split)

lemma failed_for_record:
  "failed_for t' (record_write_failure now t e st) = failed_for t' st + (if t' = t then 1 else 0)"
  by (simp add: failed_for_def topic_stats_of_def record_write_failure_def Let_def gm.lookup_put)

lemma stats_ok_note: "stats_ok st \<Longrightarrow> stats_ok (note_topic now failed n st)"
  by (simp add: stats_ok_def note_topic_def Let_def failed_sum_update topic_stats_of_def
      zero_topic_stats_def split: option.split)

lemma stats_ok_ensure:
  assumes "stats_ok st"
  shows "stats_ok (snd (ensure_topics_once now res names st))"
proof -
  have "stats_ok (fold (note_topic now failed) names st)" for failed
    by (rule fold_invariant_step) (use assms in \<open>simp_all add: stats_ok_note\<close>)
  then show ?thesis
    using assms by (auto simp: ensure_topics_once_def Let_def stats_ok_def split: sum.split)
qed

lemma stats_ok_disconnected: "stats_ok disconnected_stats"
  by (simp add: stats_ok_def disconnected_stats_def topics_def failed_sum_def zero_topic_stats_def
      TopicMotionTrigger_def TopicMeshEnrollment_def TopicMeshMessages_def)

section \<open>The contract of a store\<close>

text \<open>
  A store writes a message in some environment (what the broker and the clock do) and shows its
  statistics. Its promises: the total is the sum over the topics; an error that is returned has
  been counted for its topic and is the last error; a write without error counts at most one
  failure, for its own topic.
\<close>

locale event_store =
  fixes emit :: "'w \<Rightarrow> time \<Rightarrow> json \<Rightarrow> string \<Rightarrow> 's \<Rightarrow> go_error option \<times> 's"
    and stats_of :: "'s \<Rightarrow> stats"
    and wf :: "'s \<Rightarrow> bool"
  assumes wf_emit: "wf s \<Longrightarrow> wf (snd (emit w now ev t s))"
    and stats_wf: "wf s \<Longrightarrow> stats_ok (stats_of s)"
    and write_error: "wf s \<Longrightarrow> emit w now ev t s = (Some e, s') \<Longrightarrow>
          (\<forall>t'. failed_for t' (stats_of s') = failed_for t' (stats_of s) + (if t' = t then 1 else 0)) \<and>
          st_last_error (stats_of s') = e \<and> st_last_failure_at (stats_of s') = Some now"
    and write_ok: "wf s \<Longrightarrow> emit w now ev t s = (None, s') \<Longrightarrow>
          (\<forall>t'. failed_for t' (stats_of s') = failed_for t' (stats_of s)) \<or>
          (\<forall>t'. failed_for t' (stats_of s') = failed_for t' (stats_of s) + (if t' = t then 1 else 0))"
begin

fun emits :: "('w \<times> time \<times> json \<times> string) list \<Rightarrow> 's \<Rightarrow> go_error option list \<times> 's" where
  "emits [] s = ([], s)"
| "emits ((w, now, ev, t) # rs) s =
     (let (r, s1) = emit w now ev t s; (rs', s2) = emits rs s1 in (r # rs', s2))"

lemma wf_emits: "wf s \<Longrightarrow> wf (snd (emits rs s))"
proof (induction rs arbitrary: s)
  case Nil
  then show ?case by simp
next
  case (Cons q rs)
  then show ?case using wf_emit by (cases q) (simp add: case_prod_beta Let_def)
qed

text \<open>
  The counter of a topic moves by at least the errors returned for it and by at most the emits
  made to it, whatever else is written in between.
\<close>

lemma failures_counted:
  assumes "wf s"
  shows "\<exists>k. failed_for t' (stats_of (snd (emits rs s))) = failed_for t' (stats_of s) + of_nat k \<and>
     length [p \<leftarrow> zip rs (fst (emits rs s)). snd (snd (snd (fst p))) = t' \<and> snd p \<noteq> None] \<le> k \<and>
     k \<le> length [q \<leftarrow> rs. snd (snd (snd q)) = t']"
  using assms
proof (induction rs arbitrary: s)
  case Nil
  show ?case by (intro exI [of _ 0]) simp
next
  case (Cons q rs)
  obtain w now ev t where q: "q = (w, now, ev, t)" by (cases q)
  obtain r s1 where wr: "emit w now ev t s = (r, s1)" by fastforce
  have "wf s1" using wf_emit [OF Cons.prems, of w now ev t] wr by simp
  from Cons.IH [OF this] obtain k where
    k: "failed_for t' (stats_of (snd (emits rs s1))) = failed_for t' (stats_of s1) + of_nat k"
    and lo: "length [p \<leftarrow> zip rs (fst (emits rs s1)). snd (snd (snd (fst p))) = t' \<and> snd p \<noteq> None] \<le> k"
    and hi: "k \<le> length [q \<leftarrow> rs. snd (snd (snd q)) = t']" by blast
  consider "failed_for t' (stats_of s1) = failed_for t' (stats_of s)" "r = None"
    | "failed_for t' (stats_of s1) = failed_for t' (stats_of s) + (if t' = t then 1 else 0)"
    using write_error [OF Cons.prems] write_ok [OF Cons.prems] wr by (cases r) metis+
  then show ?case
  proof cases
    case 1
    then show ?thesis using k lo hi by (intro exI [of _ k]) (auto simp: q wr case_prod_beta Let_def)
  next
    case 2
    then show ?thesis using k lo hi
      by (intro exI [of _ "k + (if t' = t then 1 else 0)"]) (auto simp: q wr case_prod_beta Let_def)
  qed
qed

end

interpretation kafka: event_store store_write store_stats "\<lambda>s. stats_ok (ks_stats s)"
proof unfold_locales
  fix s s' :: kafka_store and w now ev t e
  assume ok: "stats_ok (ks_stats s)"
  then show "stats_ok (ks_stats (snd (store_write w now ev t s)))"
    by (auto simp: store_write_def stats_ok_record split: option.split)
  show "stats_ok (store_stats s)" using ok by (simp add: store_stats_def)
  show "(\<forall>t'. failed_for t' (store_stats s') = failed_for t' (store_stats s) + (if t' = t then 1 else 0)) \<and>
        st_last_error (store_stats s') = e \<and> st_last_failure_at (store_stats s') = Some now"
    if "store_write w now ev t s = (Some e, s')"
    using that by (auto simp: store_write_def store_stats_def failed_for_record record_write_failure_def
        Let_def failed_for_def topic_stats_of_def gm.lookup_put split: if_splits option.splits)
  show "(\<forall>t'. failed_for t' (store_stats s') = failed_for t' (store_stats s)) \<or>
        (\<forall>t'. failed_for t' (store_stats s') = failed_for t' (store_stats s) + (if t' = t then 1 else 0))"
    if "store_write w now ev t s = (None, s')"
    using that by (auto simp: store_write_def store_stats_def failed_for_record split: if_splits option.splits)
qed


lemma mock_topics_folded:
  assumes "keys_distinct es" and "stats_ok st" and "\<forall>t \<in> fst ` set es. failed_for t st = 0"
  shows "stats_ok (fold (mock_topic m) es st) \<and>
    (\<forall>t. failed_for t (fold (mock_topic m) es st) = (case map_of es t of None \<Rightarrow> failed_for t st | Some n \<Rightarrow> n))"
  using assms
proof (induction es arbitrary: st)
  case Nil
  then show ?case by simp
next
  case (Cons q es)
  obtain t n where q: "q = (t, n)" by (cases q)
  let ?st = "mock_topic m (t, n) st"
  have t0: "failed_for t st = 0" using Cons.prems(3) by (simp add: q)
  have ff: "failed_for t' ?st = (if t' = t then n else failed_for t' st)" for t'
    by (simp add: mock_topic_def failed_for_def topic_stats_of_def gm.lookup_put)
  have ok: "stats_ok ?st"
    using Cons.prems(2) t0
    by (auto simp: mock_topic_def stats_ok_def failed_sum_update failed_for_def topic_stats_of_def
        zero_topic_stats_def split: option.splits)
  have t: "t \<notin> fst ` set es"
    using Cons.prems(1) by (auto simp: q keys_distinct_def)
  have "keys_distinct es" using Cons.prems(1) by (simp add: q keys_distinct_def)
  moreover from t ff Cons.prems(3) have "\<forall>t' \<in> fst ` set es. failed_for t' ?st = 0"
    by (auto simp: q)
  ultimately have
    "stats_ok (fold (mock_topic m) es ?st) \<and> (\<forall>t'. failed_for t' (fold (mock_topic m) es ?st) =
        (case map_of es t' of None \<Rightarrow> failed_for t' ?st | Some n \<Rightarrow> n))"
    using Cons.IH [OF _ ok] by blast
  moreover have "map_of es t = None" using t by (simp add: map_of_eq_None_iff)
  ultimately show ?case by (auto simp: q ff split: option.split)
qed

lemma mock_stats_facts:
  assumes "keys_distinct (mk_failed_writes m)"
  shows "stats_ok (mock_stats m)"
    and "failed_for t (mock_stats m) = (case map_of (mk_failed_writes m) t of None \<Rightarrow> 0 | Some n \<Rightarrow> n)"
    and "st_last_error (mock_stats m) = mk_last_error m"
    and "st_last_failure_at (mock_stats m) = mk_last_failure_at m"
proof -
  let ?st = "disconnected_stats\<lparr> st_connected := True, st_topics_ready := True,
                  st_topics := map (\<lambda>(n, ts). (n, ts\<lparr> ts_ready := True \<rparr>)) (st_topics disconnected_stats) \<rparr>"
  have zero: "failed_for t ?st = 0" for t
    by (simp add: failed_for_def topic_stats_of_def disconnected_stats_def zero_topic_stats_def topics_def)
  have "stats_ok ?st"
    by (simp add: stats_ok_def disconnected_stats_def topics_def failed_sum_def zero_topic_stats_def
        TopicMotionTrigger_def TopicMeshEnrollment_def TopicMeshMessages_def)
  from mock_topics_folded [OF assms this, of m] zero have
    ok: "stats_ok (fold (mock_topic m) (mk_failed_writes m) ?st)" and
    ff: "failed_for t (fold (mock_topic m) (mk_failed_writes m) ?st) =
        (case map_of (mk_failed_writes m) t of None \<Rightarrow> 0 | Some n \<Rightarrow> n)"
    by (simp_all split: option.split)
  show "stats_ok (mock_stats m)" using ok by (simp add: mock_stats_def Let_def stats_ok_def)
  have "failed_for t (mock_stats m) = failed_for t (fold (mock_topic m) (mk_failed_writes m) ?st)"
    by (simp add: mock_stats_def Let_def failed_for_def topic_stats_of_def)
  then show "failed_for t (mock_stats m) = (case map_of (mk_failed_writes m) t of None \<Rightarrow> 0 | Some n \<Rightarrow> n)"
    using ff by simp
qed (simp_all add: mock_stats_def Let_def)

definition mock_emit :: "unit \<Rightarrow> time \<Rightarrow> json \<Rightarrow> string \<Rightarrow> mock_store \<Rightarrow> go_error option \<times> mock_store" where
  "mock_emit w = mock_write"

interpretation mock: event_store mock_emit mock_stats "\<lambda>m. keys_distinct (mk_failed_writes m)"
proof unfold_locales
  fix s s' :: mock_store and w now ev t e
  assume kd: "keys_distinct (mk_failed_writes s)"
  then show kd': "keys_distinct (mk_failed_writes (snd (mock_emit w now ev t s)))"
    by (auto simp: mock_emit_def mock_write_def gm.wf_put split: option.split)
  show "stats_ok (mock_stats s)" by (rule mock_stats_facts [OF kd])
  show "(\<forall>t'. failed_for t' (mock_stats s') = failed_for t' (mock_stats s) + (if t' = t then 1 else 0)) \<and>
        st_last_error (mock_stats s') = e \<and> st_last_failure_at (mock_stats s') = Some now"
    if w: "mock_emit w now ev t s = (Some e, s')"
  proof -
    have s': "s' = s\<lparr> mk_failed_writes := AList.update t
          ((case map_of (mk_failed_writes s) t of None \<Rightarrow> 0 | Some n \<Rightarrow> n) + 1) (mk_failed_writes s),
        mk_last_error := e, mk_last_failure_at := Some now \<rparr>"
      using w by (auto simp: mock_emit_def mock_write_def split: option.splits)
    have "keys_distinct (mk_failed_writes s')" using kd' w by simp
    note f' = mock_stats_facts [OF this] and f = mock_stats_facts [OF kd]
    show ?thesis unfolding f' f by (simp add: s' gm.lookup_put)
  qed
  show "(\<forall>t'. failed_for t' (mock_stats s') = failed_for t' (mock_stats s)) \<or>
        (\<forall>t'. failed_for t' (mock_stats s') = failed_for t' (mock_stats s) + (if t' = t then 1 else 0))"
    if w: "mock_emit w now ev t s = (None, s')"
  proof -
    have s': "mk_failed_writes s' = mk_failed_writes s"
      using w by (auto simp: mock_emit_def mock_write_def split: option.splits)
    then have "keys_distinct (mk_failed_writes s')" using kd by simp
    then show ?thesis using mock_stats_facts(2) [OF kd] mock_stats_facts(2) [of s'] s' by simp
  qed
qed

section \<open>The bootstrap of the topics\<close>

definition attempt_ok :: "string list \<Rightarrow> attempt \<Rightarrow> bool" where
  "attempt_ok names a \<longleftrightarrow> ensure_topics (at_response a) names = Inr []"

lemma ensure_once_ok_iff:
  "fst (ensure_topics_once now res names st) = None \<longleftrightarrow> ensure_topics res names = Inr []"
  by (auto simp: ensure_topics_once_def Let_def split: sum.split)

lemma note_topic_ready:
  "ts_ready (topic_stats_of t (note_topic now [] n st)) \<longleftrightarrow> t = n \<or> ts_ready (topic_stats_of t st)"
  by (simp add: note_topic_def Let_def topic_stats_of_def gm.lookup_put)

lemma note_topics_ready:
  "ts_ready (topic_stats_of t (fold (note_topic now []) names st)) \<longleftrightarrow>
     t \<in> set names \<or> ts_ready (topic_stats_of t st)"
  by (induction names arbitrary: st) (auto simp: note_topic_ready)

lemma ensure_once_ready:
  assumes "ensure_topics_once now res names st = (None, st')"
  shows "st_topics_ready st' \<and> (\<forall>t \<in> set names. ts_ready (topic_stats_of t st'))"
proof -
  have e: "ensure_topics res names = Inr []"
    using assms ensure_once_ok_iff [of now res names st] by simp
  have "st' = (fold (note_topic now []) names st)\<lparr> st_topics_ready := True \<rparr>"
    using assms by (simp add: ensure_topics_once_def e)
  then show ?thesis
    using note_topics_ready [of _ now names st] by (simp add: topic_stats_of_def)
qed

definition backoff_at :: "duration \<Rightarrow> duration \<Rightarrow> nat \<Rightarrow> duration" where
  "backoff_at b m j = min (b * 2 ^ j) m"

lemma backoff_next: "0 \<le> m \<Longrightarrow> next_backoff (backoff_at b m j) m = backoff_at b m (Suc j)"
  by (simp add: next_backoff_def backoff_at_def min_def)

lemma ensure_loop_runs:
  assumes "0 \<le> mx" and "\<forall>j < n. \<not> attempt_ok names (att (i + j)) \<and> \<not> at_cancelled (att (i + j)) \<and>
      \<not> at_sleep_cut (att (i + j))"
    and "attempt_ok names (att (i + n))"
  shows "\<exists>st'. ensure_topics_loop att mx names i (backoff_at b mx i) (st, sl) =
      Some (True, st', sl @ map (backoff_at b mx) [i ..< i + n]) \<and>
      st_topics_ready st' \<and> (\<forall>t \<in> set names. ts_ready (topic_stats_of t st'))"
  using assms(2,3)
proof (induction n arbitrary: i st sl)
  case 0
  obtain st' where e: "ensure_topics_once (at_time (att i)) (at_response (att i)) names st = (None, st')"
    using 0 ensure_once_ok_iff [of "at_time (att i)" "at_response (att i)" names st]
    by (cases "ensure_topics_once (at_time (att i)) (at_response (att i)) names st") (simp add: attempt_ok_def)
  then show ?case
    using ensure_once_ready [OF e] by (subst ensure_topics_loop.simps) simp
next
  case (Suc n)
  have bad: "\<not> attempt_ok names (att i)" "\<not> at_cancelled (att i)" "\<not> at_sleep_cut (att i)"
    using Suc.prems(1) by auto
  then obtain e st1 where e: "ensure_topics_once (at_time (att i)) (at_response (att i)) names st = (Some e, st1)"
    using ensure_once_ok_iff [of "at_time (att i)" "at_response (att i)" names st]
    by (cases "ensure_topics_once (at_time (att i)) (at_response (att i)) names st") (auto simp: attempt_ok_def)
  have step: "ensure_topics_loop att mx names i (backoff_at b mx i) (st, sl) =
      ensure_topics_loop att mx names (Suc i) (backoff_at b mx (Suc i)) (st1, sl @ [backoff_at b mx i])"
    using bad by (subst ensure_topics_loop.simps) (simp add: e backoff_next [OF assms(1)])
  have "\<forall>j < n. \<not> attempt_ok names (att (Suc i + j)) \<and> \<not> at_cancelled (att (Suc i + j)) \<and> \<not> at_sleep_cut (att (Suc i + j))"
    using Suc.prems(1) by (metis Suc_less_eq add_Suc_right add_Suc)
  moreover have "attempt_ok names (att (Suc i + n))" using Suc.prems(2) by simp
  moreover have "[i ..< i + Suc n] = i # [Suc i ..< Suc i + n]" by (simp add: upt_conv_Cons)
  ultimately show ?case
    using Suc.IH [of "Suc i" st1 "sl @ [backoff_at b mx i]"] step by (simp del: upt_Suc)
qed

section \<open>Properties\<close>

text \<open>
  C20. The topic bootstrap ends as soon as the broker lets it: if the first n attempts fail, none
  is cancelled and the next one succeeds, the retry loop returns, every producer topic is marked
  ready, and its waits were 1 s, 2 s, 4 s, 8 s, 16 s and then 30 s each, as configured by \<open>New\<close>.
\<close>

theorem topic_bootstrap_terminates:
  assumes "\<forall>j < n. \<not> attempt_ok topics (att j) \<and> \<not> at_cancelled (att j) \<and> \<not> at_sleep_cut (att j)"
    and "attempt_ok topics (att n)"
  shows "\<exists>st'. ensure_topics_loop att (ks_max_backoff (new_store br gid)) topics 0
              (ks_initial_backoff (new_store br gid)) (st, []) =
           Some (True, st', map (\<lambda>j. min (second * 2 ^ j) (30 * second)) [0 ..< n]) \<and>
         st_topics_ready st' \<and> (\<forall>t \<in> set topics. ts_ready (topic_stats_of t st'))"
proof -
  have b: "backoff_at second (30 * second) 0 = second"
    and f: "backoff_at second (30 * second) = (\<lambda>j. min (second * 2 ^ j) (30 * second))"
    by (auto simp: backoff_at_def second_def)
  have kb: "ks_max_backoff (new_store br gid) = 30 * second" "ks_initial_backoff (new_store br gid) = second"
    by (simp_all add: new_store_def)
  have pos: "0 \<le> 30 * second" by (simp add: second_def)
  from ensure_loop_runs [of "30 * second" n topics att 0 second st "[]", OF pos] assms show ?thesis
    unfolding add_0 append_Nil kb b unfolding f by blast
qed

theorem topic_bootstrap_terminates_witness:
  "\<exists>st'. ensure_topics_loop (\<lambda>i :: nat. \<lparr> at_time = 0, at_response = (if i < 2 then Inl ''down'' else Inr []),
              at_cancelled = False, at_sleep_cut = False \<rparr>) (30 * second) topics 0 second (disconnected_stats, []) =
     Some (True, st', [1000000000, 2000000000])"
proof -
  let ?att = "\<lambda>i :: nat. \<lparr> at_time = 0, at_response = (if i < 2 then Inl ''down'' else Inr []),
              at_cancelled = False, at_sleep_cut = False \<rparr> :: attempt"
  have bad: "\<forall>j < 2. \<not> attempt_ok topics (?att j) \<and> \<not> at_cancelled (?att j) \<and> \<not> at_sleep_cut (?att j)"
    by (auto simp: attempt_ok_def ensure_topics_def)
  have good: "attempt_ok topics (?att 2)"
    by (simp add: attempt_ok_def ensure_topics_def topics_def)
  show ?thesis
    using topic_bootstrap_terminates [OF bad good, of undefined undefined disconnected_stats]
    by (auto simp: new_store_def second_def upt_rec)
qed

text \<open>
  A history of the Kafka store: connections, attempts of the background loop at the topics, writes,
  completions that the client reports, and closings, in any order. An operation settles the fate of
  messages: a write that finds no writer or is not enqueued loses its message, a completion delivers
  or loses its batch. The client completes only what was queued (the documented behaviour of
  \<open>kafka.Writer\<close>).
\<close>

datatype store_op =
    OpConnect "go_error option" time create_response
  | OpAttempt time create_response
  | OpWrite "go_error option" time json string
  | OpComplete "go_error option" time "(json \<times> string) list"
  | OpClose "go_error option"

fun store_apply :: "store_op \<Rightarrow> kafka_store \<Rightarrow> kafka_store" where
  "store_apply (OpConnect dial now res) s = snd (store_connect dial now res s)"
| "store_apply (OpAttempt now res) s =
     s\<lparr> ks_stats := snd (ensure_topics_once now res (ks_topics s) (ks_stats s)) \<rparr>"
| "store_apply (OpWrite enqueue now event topic) s = snd (store_write enqueue now event topic s)"
| "store_apply (OpComplete err now batch) s = store_complete err now batch s"
| "store_apply (OpClose err) s = snd (store_close err s)"

fun settles :: "store_op \<Rightarrow> kafka_store \<Rightarrow> (string \<times> bool) list" where
  "settles (OpWrite enqueue now event topic) s = (if ks_writer s \<and> enqueue = None then [] else [(topic, True)])"
| "settles (OpComplete err now batch) s = map (\<lambda>(event, topic). (topic, err \<noteq> None)) batch"
| "settles _ s = []"

fun completes_queued :: "store_op \<Rightarrow> kafka_store \<Rightarrow> bool" where
  "completes_queued (OpComplete err now batch) s \<longleftrightarrow>
     (\<forall>m \<in> set batch. count_list batch m \<le> count_list (ks_pending s) m)"
| "completes_queued _ s \<longleftrightarrow> True"

fun store_run :: "store_op list \<Rightarrow> kafka_store \<Rightarrow> (string \<times> bool) list \<times> kafka_store" where
  "store_run [] s = ([], s)"
| "store_run (a # as) s = (let (fates, s') = store_run as (store_apply a s) in (settles a s @ fates, s'))"

fun client_ok :: "store_op list \<Rightarrow> kafka_store \<Rightarrow> bool" where
  "client_ok [] s \<longleftrightarrow> True"
| "client_ok (a # as) s \<longleftrightarrow> completes_queued a s \<and> client_ok as (store_apply a s)"

fun written :: "store_op \<Rightarrow> string list" where
  "written (OpWrite enqueue now event topic) = [topic]"
| "written _ = []"

lemma count_remove1: "m \<in> set ps \<Longrightarrow> count_list (remove1 m ps) x + (if x = m then 1 else 0) = count_list ps x"
  by (induction ps) auto

lemma topics_remove1:
  "m \<in> set ps \<Longrightarrow> count_list (map snd (remove1 m ps)) t + (if snd m = t then 1 else 0) = count_list (map snd ps) t"
  by (induction ps) auto

lemma topics_removed:
  assumes "\<forall>m \<in> set batch. count_list batch m \<le> count_list ps m"
  shows "count_list (map snd (fold remove1 batch ps)) t + count_list (map snd batch) t = count_list (map snd ps) t"
  using assms
proof (induction batch arbitrary: ps)
  case Nil
  then show ?case by simp
next
  case (Cons m batch)
  have "count_list (m # batch) m \<le> count_list ps m" using Cons.prems by (meson list.set_intros(1))
  then have m: "m \<in> set ps" using count_notin [of m ps] by (cases "m \<in> set ps") simp_all
  have "\<forall>x \<in> set batch. count_list batch x \<le> count_list (remove1 m ps) x"
  proof
    fix x assume "x \<in> set batch"
    then have "count_list (m # batch) x \<le> count_list ps x" using Cons.prems by simp
    then show "count_list batch x \<le> count_list (remove1 m ps) x"
      using count_remove1 [OF m, of x] by (simp split: if_splits)
  qed
  from Cons.IH [OF this] topics_remove1 [OF m, of t] show ?case by (auto split: if_splits)
qed

lemma total_record: "st_failed_writes (record_write_failure now t e st) = st_failed_writes st + 1"
  by (simp add: record_write_failure_def Let_def)

lemma record_batch:
  "failed_for t (fold (\<lambda>(ev, t). record_write_failure now t e) batch st) =
     failed_for t st + of_nat (count_list (map snd batch) t)"
  "st_failed_writes (fold (\<lambda>(ev, t). record_write_failure now t e) batch st) =
     st_failed_writes st + of_nat (length batch)"
  "stats_ok st \<Longrightarrow> stats_ok (fold (\<lambda>(ev, t). record_write_failure now t e) batch st)"
  by (induction batch arbitrary: st) (auto simp: failed_for_record stats_ok_record total_record)

lemma ensure_keeps_counts:
  "failed_for t (snd (ensure_topics_once now res names st)) = failed_for t st"
  "st_failed_writes (snd (ensure_topics_once now res names st)) = st_failed_writes st"
proof -
  have one: "failed_for t (note_topic now failed n st) = failed_for t st"
    "st_failed_writes (note_topic now failed n st) = st_failed_writes st" for failed n st
    by (simp_all add: note_topic_def Let_def failed_for_def topic_stats_of_def gm.lookup_put split: option.split)
  have all: "failed_for t (fold (note_topic now failed) ns st) = failed_for t st"
    "st_failed_writes (fold (note_topic now failed) ns st) = st_failed_writes st" for failed ns st
    by (induction ns arbitrary: st) (simp_all add: one)
  show "failed_for t (snd (ensure_topics_once now res names st)) = failed_for t st"
    "st_failed_writes (snd (ensure_topics_once now res names st)) = st_failed_writes st"
    using all by (simp_all add: ensure_topics_once_def Let_def failed_for_def topic_stats_of_def split: sum.split)
qed

lemma batch_fates:
  "count_list (map (\<lambda>(ev, t). (t, b)) batch) (t, True) = (if b then count_list (map snd batch) t else 0)"
  "length (filter snd (map (\<lambda>(ev, t). (t, b)) batch)) = (if b then length batch else 0)"
  "fst \<circ> (\<lambda>(ev, t). (t, b)) = snd"
proof -
  show "count_list (map (\<lambda>(ev, t). (t, b)) batch) (t, True) = (if b then count_list (map snd batch) t else 0)"
    by (induction batch) auto
  show "length (filter snd (map (\<lambda>(ev, t). (t, b)) batch)) = (if b then length batch else 0)"
    by (cases b) (simp_all add: filter_map o_def case_prod_beta)
  show "fst \<circ> (\<lambda>(ev, t). (t, b)) = snd" by (auto simp: fun_eq_iff)
qed

lemma failed_connected: "failed_for t (set_connected c st) = failed_for t st"
  by (simp add: failed_for_def topic_stats_of_def set_connected_def)

lemma stats_ok_connected: "stats_ok st \<Longrightarrow> stats_ok (set_connected c st)"
  by (simp add: stats_ok_def set_connected_def)

text \<open>One operation.\<close>

lemma op_accounts:
  assumes "completes_queued a s"
  shows "failed_for t (ks_stats (store_apply a s)) = failed_for t (ks_stats s) + of_nat (count_list (settles a s) (t, True))"
    and "st_failed_writes (ks_stats (store_apply a s)) =
           st_failed_writes (ks_stats s) + of_nat (length (filter snd (settles a s)))"
    and "count_list (map snd (ks_pending s)) t + count_list (written a) t =
           count_list (map snd (ks_pending (store_apply a s))) t + count_list (map fst (settles a s)) t"
    and "stats_ok (ks_stats s) \<Longrightarrow> stats_ok (ks_stats (store_apply a s))"
proof -
  note simps = store_connect_def stop_ensure_def store_write_def store_complete_def store_close_def
    Let_def case_prod_beta ensure_keeps_counts failed_connected failed_for_record batch_fates
  show "failed_for t (ks_stats (store_apply a s)) = failed_for t (ks_stats s) + of_nat (count_list (settles a s) (t, True))"
    by (cases a) (simp_all add: simps record_batch split: option.split)
  show "st_failed_writes (ks_stats (store_apply a s)) =
          st_failed_writes (ks_stats s) + of_nat (length (filter snd (settles a s)))"
    by (cases a) (simp_all add: simps record_batch set_connected_def record_write_failure_def split: option.split)
  show "count_list (map snd (ks_pending s)) t + count_list (written a) t =
      count_list (map snd (ks_pending (store_apply a s))) t + count_list (map fst (settles a s)) t"
    using assms by (cases a) (simp_all add: simps topics_removed [symmetric] split: option.split)
  show "stats_ok (ks_stats (store_apply a s))" if ok: "stats_ok (ks_stats s)"
    using ok kafka.wf_emit [OF ok]
    by (cases a) (simp_all add: store_connect_def stop_ensure_def store_complete_def store_close_def Let_def
        case_prod_beta stats_ok_connected stats_ok_ensure record_batch split: option.split)
qed

text \<open>
  C21. Every message is accounted for and every lost one is counted: over any history of a Kafka
  store, the failure counter of a topic moves by exactly the number of its messages that were lost,
  to a missing writer, to the queue or to a delivery that the client reports as failed later; the
  total moves by their number over all topics and stays the sum of the counters (they are \<open>uint64\<close> and wrap
  together); and of the messages queued before and written to a topic each is delivered, lost or
  still queued, once.
\<close>

theorem kafka_failures_counted:
  assumes "stats_ok (ks_stats s)" and "client_ok as s"
  shows "let (fates, s') = store_run as s
     in failed_for t (store_stats s') = failed_for t (store_stats s) + of_nat (count_list fates (t, True)) \<and>
        st_failed_writes (store_stats s') = st_failed_writes (store_stats s) + of_nat (length (filter snd fates)) \<and>
        st_failed_writes (store_stats s') = failed_sum (st_topics (store_stats s')) \<and>
        count_list (map snd (ks_pending s)) t + count_list (concat (map written as)) t =
          count_list (map snd (ks_pending s')) t + count_list fates (t, False) + count_list fates (t, True)"
  using assms
proof (induction as arbitrary: s)
  case Nil
  then show ?case by (simp add: stats_ok_def store_stats_def)
next
  case (Cons a as)
  have fates: "count_list (map fst fs) t = count_list fs (t, False) + count_list fs (t, True)" for fs :: "(string \<times> bool) list"
    by (induction fs) auto
  have a: "completes_queued a s" "client_ok as (store_apply a s)" using Cons.prems(2) by simp_all
  from Cons.IH [OF op_accounts(4) [OF a(1) Cons.prems(1)] a(2)] op_accounts(1,3) [OF a(1), of t] op_accounts(2) [OF a(1)]
  show ?case
    by (auto simp: store_stats_def Let_def fates split: prod.splits)
qed

theorem kafka_failures_counted_witness:
  "failed_for TopicMotionTrigger (store_stats (snd (store_run
     [OpConnect None 1 (Inr []), OpWrite None 2 JNull TopicMotionTrigger,
      OpWrite None 3 (JBool True) TopicMotionTrigger, OpComplete (Some ''broker unavailable'') 4 [(JNull, TopicMotionTrigger)]]
     (new_store [] [])))) = 1"
proof -
  let ?as = "[OpConnect None 1 (Inr []), OpWrite None 2 JNull TopicMotionTrigger,
      OpWrite None 3 (JBool True) TopicMotionTrigger, OpComplete (Some ''broker unavailable'') 4 [(JNull, TopicMotionTrigger)]]"
  let ?s = "new_store [] []"
  have ok: "stats_ok (ks_stats ?s)" by (simp add: new_store_def stats_ok_disconnected)
  have client: "client_ok ?as ?s"
    by (simp add: store_connect_def stop_ensure_def store_write_def new_store_def Let_def case_prod_beta)
  have fates: "fst (store_run ?as ?s) = [(TopicMotionTrigger, True)]"
    by (simp add: store_connect_def stop_ensure_def store_write_def new_store_def Let_def case_prod_beta)
  have zero: "failed_for TopicMotionTrigger (store_stats ?s) = 0"
    by (simp add: store_stats_def new_store_def failed_for_def topic_stats_of_def disconnected_stats_def topics_def
        zero_topic_stats_def)
  show ?thesis
    using kafka_failures_counted [OF ok client, of TopicMotionTrigger] fates zero by (simp add: case_prod_beta)
qed

end
