(* ===== verification/Master_Key.thy ===== *)
theory Master_Key
  imports Go_Strings
begin

text \<open>
  The hub's master key pair, \<open>mesh/masterkey.go\<close>. The curve is third-party code: \<open>base_mult\<close>
  stands for \<open>curve25519.ScalarBaseMult\<close>, a function of 32 bytes to 32 bytes, and \<open>rnd\<close> for the
  result of \<open>rand.Read\<close>. The key file is what \<open>os.ReadFile\<close> finds, with the text given as the JSON
  value it denotes (\<open>None\<close> when it is not JSON); decoding it into the struct follows
  \<open>encoding/json\<close>.
\<close>

section \<open>The key file\<close>

record master_keypair =
  mk_private :: "byte list"
  mk_public :: "byte list"

datatype key_file = KeyMissing | KeyUnreadable go_error | KeyText "json option"

text \<open>
  Decoding a JSON value into a \<open>[32]byte\<close>: \<open>null\<close> changes nothing, a shorter array is filled with
  zeros, surplus elements are ignored, anything else is a type error.
\<close>

definition decode_byte :: "byte \<Rightarrow> json \<Rightarrow> byte option" where
  "decode_byte old j =
     (case j of
        JNull \<Rightarrow> Some old
      | JInt k \<Rightarrow> if 0 \<le> k \<and> k \<le> 255 then Some (word_of_int k) else None
      | _ \<Rightarrow> None)"

fun decode_array :: "byte list \<Rightarrow> json list \<Rightarrow> byte list option" where
  "decode_array [] js = Some []"
| "decode_array (b # bs) [] = Some (replicate (length (b # bs)) 0)"
| "decode_array (b # bs) (j # js) =
     (case decode_byte b j of
        None \<Rightarrow> None
      | Some v \<Rightarrow> map_option (Cons v) (decode_array bs js))"

definition decode_key :: "byte list \<Rightarrow> json \<Rightarrow> byte list option" where
  "decode_key old j = (case j of JNull \<Rightarrow> Some old | JArr js \<Rightarrow> decode_array old js | _ \<Rightarrow> None)"

text \<open>Struct fields are matched to the object's keys without regard to case; a later one wins.\<close>

definition decode_field :: "string \<times> json \<Rightarrow> master_keypair option \<Rightarrow> master_keypair option" where
  "decode_field f kp =
     (case kp of
        None \<Rightarrow> None
      | Some kp \<Rightarrow>
          if to_lower (fst f) = ''private_key'' then
            map_option (\<lambda>v. kp\<lparr> mk_private := v \<rparr>) (decode_key (mk_private kp) (snd f))
          else if to_lower (fst f) = ''public_key'' then
            map_option (\<lambda>v. kp\<lparr> mk_public := v \<rparr>) (decode_key (mk_public kp) (snd f))
          else Some kp)"

definition zero_keypair :: master_keypair where
  "zero_keypair = \<lparr> mk_private = replicate 32 0, mk_public = replicate 32 0 \<rparr>"

definition unmarshal_keypair :: "json \<Rightarrow> master_keypair option" where
  "unmarshal_keypair j =
     (case j of
        JNull \<Rightarrow> Some zero_keypair
      | JObj fs \<Rightarrow> fold decode_field fs (Some zero_keypair)
      | _ \<Rightarrow> None)"

text \<open>A byte array is printed as an array of numbers.\<close>

definition key_json :: "byte list \<Rightarrow> json" where
  "key_json bs = JArr (map (\<lambda>b. JInt (uint b)) bs)"

definition marshal_keypair :: "master_keypair \<Rightarrow> json" where
  "marshal_keypair kp = JObj [(''private_key'', key_json (mk_private kp)), (''public_key'', key_json (mk_public kp))]"

section \<open>Loading or generating\<close>

datatype key_error =
    CorruptedKeyFile           \<comment> \<open>not JSON, or not a key pair\<close>
  | KeyMismatch                \<comment> \<open>the public key is not that of the private key\<close>
  | ReadKeyFailed go_error
  | RandomFailed go_error
  | WriteKeyFailed go_error

datatype key_write = KeyWritten | KeyWriteFails go_error key_file

definition clamp :: "byte list \<Rightarrow> byte list" where
  "clamp p =
     (let p = p[0 := and (p ! 0) 248];
          p = p[31 := and (p ! 31) 127]
      in p[31 := or (p ! 31) 64])"

definition load_or_generate ::
    "(byte list \<Rightarrow> byte list) \<Rightarrow> go_error + byte list \<Rightarrow> key_write \<Rightarrow> key_file
       \<Rightarrow> (key_error + master_keypair) \<times> key_file" where
  "load_or_generate base_mult rnd out f =
     (case f of
        KeyText text \<Rightarrow>
          (case Option.bind text unmarshal_keypair of
             None \<Rightarrow> (Inl CorruptedKeyFile, f)
           | Some kp \<Rightarrow>
               if base_mult (mk_private kp) \<noteq> mk_public kp then (Inl KeyMismatch, f) else (Inr kp, f))
      | KeyUnreadable e \<Rightarrow> (Inl (ReadKeyFailed e), f)
      | KeyMissing \<Rightarrow>
          (case rnd of
             Inl e \<Rightarrow> (Inl (RandomFailed e), f)
           | Inr bytes \<Rightarrow>
               (let priv = clamp bytes;
                    kp = \<lparr> mk_private = priv, mk_public = base_mult priv \<rparr>
                in case out of
                     KeyWriteFails e left \<Rightarrow> (Inl (WriteKeyFailed e), left)
                   | KeyWritten \<Rightarrow> (Inr kp, KeyText (Some (marshal_keypair kp))))))"

section \<open>The file format\<close>

lemma decode_array_bytes:
  "length bs = length old \<Longrightarrow> decode_array old (map (\<lambda>b. JInt (uint b)) bs) = Some bs"
proof (induction old bs rule: list_induct2')
  case (4 b old v bs)
  have "uint v \<le> 255" using uint_lt2p [of v] by simp
  with 4 show ?case by (simp add: decode_byte_def)
qed simp_all

lemma decode_key_json: "length bs = length old \<Longrightarrow> decode_key old (key_json bs) = Some bs"
  by (simp add: decode_key_def key_json_def decode_array_bytes)

lemma field_names:
  "to_lower ''private_key'' = ''private_key''" "to_lower ''public_key'' = ''public_key''"
  by code_simp+

lemma unmarshal_marshal:
  assumes "length (mk_private kp) = 32" and "length (mk_public kp) = 32"
  shows "unmarshal_keypair (marshal_keypair kp) = Some kp"
  using assms by (cases kp) (simp add: unmarshal_keypair_def marshal_keypair_def decode_field_def field_names
      zero_keypair_def decode_key_json)

lemma decode_array_length: "decode_array old js = Some bs \<Longrightarrow> length bs = length old"
  by (induction old js arbitrary: bs rule: decode_array.induct) (auto split: option.splits)

lemma length_clamp [simp]: "length (clamp p) = length p"
  by (simp add: clamp_def Let_def)

text \<open>The bits that clamping fixes: the low three are clear, bit 255 is clear and bit 254 set.\<close>

lemma clamp_bits:
  assumes "length p = 32"
  shows "and (clamp p ! 0) 7 = 0 \<and> bit (clamp p ! 31) 6 \<and> \<not> bit (clamp p ! 31) 7"
proof -
  have low: "and (and (p ! 0) 248) 7 = 0" by (simp add: and.assoc)
  have bits: "bit (64 :: byte) 6" "\<not> bit (64 :: byte) 7" "\<not> bit (127 :: byte) 7" by code_simp+
  from assms low show ?thesis by (simp add: clamp_def Let_def bit_or_iff bit_and_iff bits)
qed


lemma decode_key_length: "decode_key old j = Some bs \<Longrightarrow> length bs = length old"
  by (auto simp: decode_key_def decode_array_length split: json.splits)

definition key_lengths :: "master_keypair \<Rightarrow> bool" where
  "key_lengths kp \<longleftrightarrow> length (mk_private kp) = 32 \<and> length (mk_public kp) = 32"

lemma decode_field_lengths:
  "pred_option key_lengths r \<Longrightarrow> pred_option key_lengths (decode_field f r)"
  by (cases r) (auto simp: decode_field_def key_lengths_def pred_option_def option.set_map elem_set dest: decode_key_length)

lemma unmarshal_lengths: "unmarshal_keypair j = Some kp \<Longrightarrow> key_lengths kp"
proof -
  assume u: "unmarshal_keypair j = Some kp"
  have zero: "key_lengths zero_keypair" by (simp add: key_lengths_def zero_keypair_def)
  have "pred_option key_lengths (fold decode_field fs (Some zero_keypair))" for fs
    by (rule fold_invariant [where Q = "\<lambda>_. True"]) (simp_all add: zero decode_field_lengths)
  with u zero show ?thesis by (auto simp: unmarshal_keypair_def split: json.splits) (metis option.pred_inject(2))
qed

lemma load_or_generate_lengths:
  assumes "\<And>p. length p = 32 \<Longrightarrow> length (base_mult p) = 32" and "\<And>bytes. rnd = Inr bytes \<Longrightarrow> length bytes = 32"
    and "fst (load_or_generate base_mult rnd out f) = Inr kp"
  shows "key_lengths kp"
proof (cases f)
  case KeyMissing
  with assms show ?thesis
    by (auto simp: load_or_generate_def Let_def key_lengths_def split: sum.splits key_write.splits)
next
  case (KeyText j)
  with assms(3) show ?thesis
    by (auto simp: load_or_generate_def dest!: unmarshal_lengths split: option.splits if_splits bind_splits)
qed (use assms(3) in \<open>simp add: load_or_generate_def\<close>)

section \<open>Starts of the hub\<close>

lemma existing_key_file_kept: "f \<noteq> KeyMissing \<Longrightarrow> snd (load_or_generate base_mult rnd out f) = f"
  by (cases f) (auto simp: load_or_generate_def split: option.splits)

lemma loaded_key_pair:
  assumes "load_or_generate base_mult rnd out f = (Inr kp, f')" and "f \<noteq> KeyMissing"
  shows "f' = f \<and> mk_public kp = base_mult (mk_private kp) \<and> load_or_generate base_mult rnd' out' f = (Inr kp, f)"
  using assms by (cases f) (auto simp: load_or_generate_def split: option.splits if_splits)

lemma generated_key_pair:
  assumes "load_or_generate base_mult rnd out KeyMissing = (Inr kp, f')"
  shows "\<exists>bytes. rnd = Inr bytes \<and> mk_private kp = clamp bytes \<and> mk_public kp = base_mult (clamp bytes) \<and>
           f' = KeyText (Some (marshal_keypair kp))"
  using assms by (auto simp: load_or_generate_def Let_def split: sum.splits key_write.splits)

lemma written_pair_loads:
  assumes "length (mk_private kp) = 32" and "length (mk_public kp) = 32" and "mk_public kp = base_mult (mk_private kp)"
  shows "load_or_generate base_mult rnd out (KeyText (Some (marshal_keypair kp))) =
           (Inr kp, KeyText (Some (marshal_keypair kp)))"
  using assms by (simp add: load_or_generate_def unmarshal_marshal)

text \<open>
  C26. The hub's identity is stable. Whenever a start obtains a master key pair, the public key is
  the curve's public key of the private one; a key generated by this start is clamped (low three
  bits and bit 255 clear, bit 254 set) and is in the file; an existing file is left alone; and
  every later start, whatever the random source or the disk would have answered, returns the same
  pair and leaves the file as it is. The hypotheses say that the curve operation maps 32 bytes to
  32 bytes and that the random source fills the 32 bytes it is asked for.
\<close>

theorem master_key_stable:
  assumes curve: "\<And>p. length p = 32 \<Longrightarrow> length (base_mult p) = 32"
    and random: "\<And>bytes. rnd = Inr bytes \<Longrightarrow> length bytes = 32"
    and start: "load_or_generate base_mult rnd out f = (Inr kp, f')"
  shows "mk_public kp = base_mult (mk_private kp) \<and>
      (f = KeyMissing \<longrightarrow> and (mk_private kp ! 0) 7 = 0 \<and> bit (mk_private kp ! 31) 6 \<and>
         \<not> bit (mk_private kp ! 31) 7 \<and> f' = KeyText (Some (marshal_keypair kp))) \<and>
      (f \<noteq> KeyMissing \<longrightarrow> f' = f) \<and> load_or_generate base_mult rnd' out' f' = (Inr kp, f')"
proof (cases "f = KeyMissing")
  case True
  with start obtain bytes where g: "rnd = Inr bytes" "mk_private kp = clamp bytes"
      "mk_public kp = base_mult (clamp bytes)" "f' = KeyText (Some (marshal_keypair kp))"
    using generated_key_pair by blast
  then have len: "length (mk_private kp) = 32" "length (mk_public kp) = 32"
    using random curve by simp_all
  with g show ?thesis using True clamp_bits [of bytes] random written_pair_loads [OF len] by simp
next
  case False
  with start show ?thesis using loaded_key_pair [of base_mult rnd out f kp f'] by blast
qed

lemma master_key_stable_witness:
  "load_or_generate rev (Inl ''no entropy'') KeyWritten
     (snd (load_or_generate rev (Inr (replicate 32 255)) KeyWritten KeyMissing)) =
   (Inr \<lparr> mk_private = 248 # replicate 30 255 @ [127], mk_public = 127 # replicate 30 255 @ [248] \<rparr>,
    snd (load_or_generate rev (Inr (replicate 32 255)) KeyWritten KeyMissing))"
proof -
  let ?kp = "\<lparr> mk_private = 248 # replicate 30 255 @ [127], mk_public = 127 # replicate 30 255 @ [248] \<rparr>"
  have "load_or_generate rev (Inr (replicate 32 255)) KeyWritten KeyMissing =
      (Inr ?kp, snd (load_or_generate rev (Inr (replicate 32 255)) KeyWritten KeyMissing))"
    by (simp add: load_or_generate_def clamp_def Let_def numeral_eq_Suc)
  from master_key_stable [OF _ _ this, of "Inl ''no entropy''" KeyWritten] show ?thesis by fastforce
qed

end
