(* ===== verification/Mesh_Server.thy ===== *)
theory Mesh_Server
  imports Node_Registry Auth_Registry Zone_Registry Command_Store Event_Broker Event_Store Master_Key
begin

text \<open>
  The mesh server of \<open>mesh/server.go\<close>: its state, starting and stopping, the receive loop of a
  serial link with the handlers it dispatches to, enrollment, outgoing frames and the choice of
  the link, and the online/offline bookkeeping.

  What an operation does outside the process is recorded in the state: \<open>ms_tx\<close> lists the calls of
  \<open>WriteFrame\<close> with the link and the result, \<open>ms_events\<close> the events published to the broker,
  \<open>ms_kafka_writes\<close> the calls of \<open>RecordKafkaWrite\<close>. What the outside decides is the record
  \<open>env\<close>, one per operation; the clock readings inside one operation coincide.
\<close>

section \<open>State\<close>

datatype link = Primary | Secondary

record env =
  en_now :: time
  en_frame_err :: "link \<Rightarrow> mesh_message \<Rightarrow> go_error option"
  en_enqueue :: "json \<Rightarrow> string \<Rightarrow> go_error option"
  en_auth_write :: "persisted_entry write_outcome"
  en_node_mkdir :: "go_error option"
  en_node_write :: "persisted_node write_outcome"
  en_uuid :: "string \<Rightarrow> byte list option"

record mesh_server =
  ms_serial_port :: string
  ms_baud_rate :: int
  ms_serial_comm :: bool
  ms_secondary_port :: string
  ms_secondary_comm :: bool
  ms_secondary_connected :: bool
  ms_primary_frame :: time
  ms_secondary_frame :: time
  ms_nodes :: node_registry
  ms_store :: "kafka_store option"
  ms_auth :: auth_registry
  ms_auth_path :: string
  ms_auth_file :: "persisted_entry disk_file"
  ms_stop_persist_closed :: bool
  ms_node_path :: string
  ms_node_file :: "persisted_node disk_file"
  ms_stop_node_closed :: bool
  ms_health_timeout :: duration
  ms_tx_preset :: byte
  ms_online :: "(string, bool) gomap"
  ms_zones :: zone_registry
  ms_zone_path :: string
  ms_zone_file :: "zone_v1 option disk_file"
  ms_commands :: command_store
  ms_master_public :: "byte list"
  ms_master_private :: "byte list"
  ms_master_mac :: "byte list"
  ms_secondary_public :: "byte list"
  ms_secondary_private :: "byte list"
  ms_secondary_mac :: "byte list"
  ms_cancelled :: bool
  ms_running :: bool
  ms_gauge :: bool
  ms_processors :: "link list"
  ms_tx :: "(link \<times> mesh_message \<times> go_error option) list"
  ms_events :: "event list"
  ms_kafka_writes :: "(string \<times> string) list"

definition zero_bytes :: "nat \<Rightarrow> byte list" where
  "zero_bytes n = replicate n 0"

record server_config =
  cf_serial_port :: string
  cf_secondary_port :: string
  cf_baud_rate :: int
  cf_health_timeout :: duration
  cf_store :: "kafka_store option"
  cf_auth_path :: string
  cf_node_path :: string
  cf_zone_path :: string
  cf_master_key_path :: string
  cf_master_mac :: "byte list"
  cf_secondary_key_path :: string
  cf_secondary_mac :: "byte list"

text \<open>
  \<open>NewMeshServer\<close>: the registries loaded from their files (a load error is logged, and leaves the
  registry as far as it got), and the two key pairs as \<open>LoadOrGenerateMasterKey\<close> returned them
  (asked only when a path is configured; a failure is logged and leaves zero bytes).
\<close>

definition keys_of :: "string \<Rightarrow> key_error + master_keypair \<Rightarrow> master_keypair" where
  "keys_of path r = (if path \<noteq> [] then case r of Inl e \<Rightarrow> zero_keypair | Inr kp \<Rightarrow> kp else zero_keypair)"

definition new_mesh_server ::
    "server_config \<Rightarrow> persisted_entry disk_file \<Rightarrow> persisted_node disk_file \<Rightarrow> zone_v1 option disk_file
       \<Rightarrow> key_error + master_keypair \<Rightarrow> key_error + master_keypair \<Rightarrow> mesh_server outcome" where
  "new_mesh_server cf auth_file node_file zone_file key secondary_key =
     (let auth = (if cf_auth_path cf \<noteq> [] then snd (auth_load auth_file new_auth_registry) else new_auth_registry);
          nodes = (if cf_node_path cf \<noteq> [] then snd (nodes_load node_file new_node_registry) else new_node_registry);
          kp = keys_of (cf_master_key_path cf) key;
          kp2 = keys_of (cf_secondary_key_path cf) secondary_key
      in case (if cf_zone_path cf \<noteq> [] then zones_load zone_file new_zone_registry else Ret (None, new_zone_registry)) of
           Panic p \<Rightarrow> Panic p
         | Ret (zone_err, zones) \<Rightarrow> Ret
             \<lparr> ms_serial_port = cf_serial_port cf, ms_baud_rate = cf_baud_rate cf,
               ms_serial_comm = False, ms_secondary_port = cf_secondary_port cf, ms_secondary_comm = False,
               ms_secondary_connected = False, ms_primary_frame = time_zero, ms_secondary_frame = time_zero,
               ms_nodes = nodes, ms_store = cf_store cf, ms_auth = auth, ms_auth_path = cf_auth_path cf,
               ms_auth_file = auth_file, ms_stop_persist_closed = False, ms_node_path = cf_node_path cf, ms_node_file = node_file,
               ms_stop_node_closed = False, ms_health_timeout = cf_health_timeout cf, ms_tx_preset = 0,
               ms_online = [], ms_zones = zones, ms_zone_path = cf_zone_path cf, ms_zone_file = zone_file,
               ms_commands = new_command_store,
               ms_master_public = mk_public kp, ms_master_private = mk_private kp,
               ms_master_mac = cf_master_mac cf,
               ms_secondary_public = mk_public kp2, ms_secondary_private = mk_private kp2,
               ms_secondary_mac = cf_secondary_mac cf, ms_cancelled = False, ms_running = False,
               ms_gauge = False, ms_processors = [], ms_tx = [], ms_events = [], ms_kafka_writes = [] \<rparr>)"

section \<open>Links\<close>

definition record_frame :: "time \<Rightarrow> link \<Rightarrow> mesh_server \<Rightarrow> mesh_server" where
  "record_frame now label ms =
     (case label of Primary \<Rightarrow> ms\<lparr> ms_primary_frame := now \<rparr>
                  | Secondary \<Rightarrow> ms\<lparr> ms_secondary_frame := now \<rparr>)"

definition failover_threshold :: duration where
  "failover_threshold = 75 * second"

text \<open>\<open>activeOutboundComm\<close> and \<open>activeOutboundCommLocked\<close> differ only in the lock they take.\<close>

definition active_outbound :: "time \<Rightarrow> mesh_server \<Rightarrow> link" where
  "active_outbound now ms =
     (if \<not> ms_secondary_comm ms then Primary
      else if failover_threshold < since now (ms_primary_frame ms) then Secondary
      else Primary)"

definition frame_is_fresh :: "time \<Rightarrow> time \<Rightarrow> mesh_server \<Rightarrow> bool" where
  "frame_is_fresh now t ms = (if is_zero t then False else since now t < ms_health_timeout ms)"

definition serial_status :: "mesh_server \<Rightarrow> bool \<times> bool \<times> bool" where
  "serial_status ms = (ms_serial_comm ms, ms_secondary_connected ms,
     ms_secondary_port ms \<noteq> [] \<or> ms_secondary_comm ms)"

definition is_primary_online :: "time \<Rightarrow> mesh_server \<Rightarrow> bool" where
  "is_primary_online now ms = frame_is_fresh now (ms_primary_frame ms) ms"

definition is_secondary_online :: "time \<Rightarrow> mesh_server \<Rightarrow> bool" where
  "is_secondary_online now ms =
     (if \<not> snd (snd (serial_status ms)) then False
      else frame_is_fresh now (ms_secondary_frame ms) ms)"

definition is_master_online :: "time \<Rightarrow> mesh_server \<Rightarrow> bool" where
  "is_master_online now ms \<longleftrightarrow> is_primary_online now ms \<or> is_secondary_online now ms"

text \<open>One \<open>WriteFrame\<close> on a link.\<close>

definition write_link :: "env \<Rightarrow> link \<Rightarrow> mesh_message \<Rightarrow> mesh_server \<Rightarrow> go_error option \<times> mesh_server" where
  "write_link env l msg ms =
     (let r = en_frame_err env l msg in (r, ms\<lparr> ms_tx := ms_tx ms @ [(l, msg, r)] \<rparr>))"

definition write_active :: "env \<Rightarrow> mesh_message \<Rightarrow> mesh_server \<Rightarrow> go_error option \<times> mesh_server" where
  "write_active env msg ms = write_link env (active_outbound (en_now env) ms) msg ms"

section \<open>Start and stop\<close>

text \<open>
  \<open>Start\<close>: the results of opening the two ports are arguments. The goroutines are the message
  processor of each opened link, which are part of the state, and the save and offline loops.
\<close>

definition start :: "env \<Rightarrow> go_error option \<Rightarrow> go_error option \<Rightarrow> mesh_server \<Rightarrow> go_error option \<times> mesh_server" where
  "start env open1 open2 ms =
     (if ms_running ms then (Some ''mesh server is already running'', ms)
      else case open1 of
        Some e \<Rightarrow> (Some (''failed to open serial port '' @ ms_serial_port ms @ '': '' @ e), ms)
      | None \<Rightarrow>
          (let ms1 = record_frame (en_now env) Primary
                       (ms\<lparr> ms_serial_comm := True, ms_running := True, ms_gauge := True \<rparr>);
               ms2 = ms1\<lparr> ms_processors := ms_processors ms1 @ [Primary] \<rparr>
           in if ms_secondary_port ms2 \<noteq> [] then
                (case open2 of
                   Some e \<Rightarrow> (None, ms2)
                 | None \<Rightarrow>
                     (let ms3 = record_frame (en_now env) Secondary
                                  (ms2\<lparr> ms_secondary_comm := True, ms_secondary_connected := True \<rparr>)
                      in (None, ms3\<lparr> ms_processors := ms_processors ms3 @ [Secondary] \<rparr>)))
              else (None, ms2)))"

text \<open>
  \<open>Stop\<close>, in the order of the code. Closing a stop channel twice panics, with the state as it is
  then; the final saves are made by the save loops, and the stop waits for all goroutines.
\<close>

definition save_zones :: "zone_v1 option write_outcome \<Rightarrow> mesh_server \<Rightarrow> mesh_server" where
  "save_zones out ms =
     (if ms_zone_path ms \<noteq> []
      then ms\<lparr> ms_zone_file := snd (zones_persist out (ms_zones ms) (ms_zone_file ms)) \<rparr> else ms)"

definition close_links :: "mesh_server \<Rightarrow> mesh_server" where
  "close_links ms =
     (let ms1 = (if ms_serial_comm ms then ms\<lparr> ms_gauge := False \<rparr> else ms)
      in if ms_secondary_comm ms1 then ms1\<lparr> ms_secondary_connected := False \<rparr> else ms1)"

text \<open>One save of each save loop, on a tick and at the end alike.\<close>

definition save_auth :: "env \<Rightarrow> mesh_server \<Rightarrow> mesh_server" where
  "save_auth env ms = ms\<lparr> ms_auth_file := snd (auth_persist (en_auth_write env) (ms_auth ms) (ms_auth_file ms)) \<rparr>"

definition save_nodes :: "env \<Rightarrow> mesh_server \<Rightarrow> mesh_server" where
  "save_nodes env ms = ms\<lparr> ms_node_file :=
     snd (nodes_persist (en_node_mkdir env) (en_node_write env) (ms_nodes ms) (ms_node_file ms)) \<rparr>"

definition finish_loops :: "env \<Rightarrow> mesh_server \<Rightarrow> mesh_server" where
  "finish_loops env ms =
     (let ms1 = (if ms_auth_path ms \<noteq> [] then save_auth env ms else ms);
          ms2 = (if ms_node_path ms1 \<noteq> [] then save_nodes env ms1 else ms1)
      in ms2\<lparr> ms_processors := [] \<rparr>)"

definition cancel_server :: "mesh_server \<Rightarrow> mesh_server" where
  "cancel_server ms = ms\<lparr> ms_cancelled := True, ms_running := False,
     ms_primary_frame := time_zero, ms_secondary_frame := time_zero \<rparr>"

definition stop :: "env \<Rightarrow> zone_v1 option write_outcome \<Rightarrow> mesh_server \<Rightarrow> go_error option outcome \<times> mesh_server" where
  "stop env zone_out ms =
     (if \<not> ms_running ms then (Ret (Some ''mesh server is not running''), ms)
      else
        let ms1 = cancel_server ms
        in if ms_stop_persist_closed ms1 then (Panic ''close of closed channel'', ms1)
           else
             let ms2 = ms1\<lparr> ms_stop_persist_closed := True \<rparr>
             in if ms_node_path ms2 \<noteq> [] \<and> ms_stop_node_closed ms2 then (Panic ''close of closed channel'', ms2)
                else
                  let ms3 = (if ms_node_path ms2 \<noteq> [] then ms2\<lparr> ms_stop_node_closed := True \<rparr> else ms2)
                  in (Ret None, finish_loops env (close_links (save_zones zone_out ms3))))"

section \<open>Publishing and logging\<close>

definition publish_event :: "env \<Rightarrow> event_type \<Rightarrow> json \<Rightarrow> mesh_server \<Rightarrow> mesh_server" where
  "publish_event env t doc ms =
     ms\<lparr> ms_events := ms_events ms @ [\<lparr> ev_type = t, ev_data = doc, ev_timestamp = en_now env \<rparr>] \<rparr>"

definition byte_json :: "byte \<Rightarrow> json" where
  "byte_json b = JInt (int (unat b))"

definition u32_json :: "u32 \<Rightarrow> json" where
  "u32_json w = JInt (int (unat w))"

definition publish_motion_event :: "env \<Rightarrow> node_info \<Rightarrow> mesh_server \<Rightarrow> mesh_server" where
  "publish_motion_event env n =
     publish_event env EventMotion (JObj
       [(''nodeId'', byte_json (ni_node_id n)), (''name'', JStr (ni_name n)), (''zone'', JStr (ni_zone n)),
        (''hopCount'', u32_json (ni_hop_count n)), (''timestamp'', JTime (en_now env))])"

definition publish_health_event :: "env \<Rightarrow> node_info \<Rightarrow> mesh_server \<Rightarrow> mesh_server" where
  "publish_health_event env n ms =
     (let online = (since (en_now env) (ni_last_seen n) \<le> ms_health_timeout ms);
          ms1 = publish_event env EventHealth (JObj
            [(''nodeId'', byte_json (ni_node_id n)), (''name'', JStr (ni_name n)), (''online'', JBool online),
             (''uptime'', u32_json (ni_uptime n)), (''hopCount'', u32_json (ni_hop_count n))]) ms
      in if map_of (ms_online ms1) (ni_mac_string n) = Some True then ms1
         else publish_event env EventNodeOnline (JObj
                [(''nodeId'', byte_json (ni_node_id n)), (''name'', JStr (ni_name n))])
                (ms1\<lparr> ms_online := AList.update (ni_mac_string n) True (ms_online ms1) \<rparr>))"

definition publish_enrolled_event :: "env \<Rightarrow> node_info \<Rightarrow> string \<Rightarrow> mesh_server \<Rightarrow> mesh_server" where
  "publish_enrolled_event env n type_str =
     publish_event env EventEnrolled (JObj
       [(''nodeId'', byte_json (ni_node_id n)), (''name'', JStr (ni_name n)), (''type'', JStr type_str)])"

text \<open>\<open>RecordKafkaWrite\<close> of \<open>mesh/metrics.go\<close>, as the list of its counter increments.\<close>

definition record_kafka_write :: "string \<Rightarrow> go_error option \<Rightarrow> mesh_server \<Rightarrow> mesh_server" where
  "record_kafka_write topic err ms =
     ms\<lparr> ms_kafka_writes := ms_kafka_writes ms @ [(topic, if err \<noteq> None then ''error'' else ''success'')] \<rparr>"

definition write_kafka :: "env \<Rightarrow> json \<Rightarrow> string \<Rightarrow> kafka_store \<Rightarrow> mesh_server \<Rightarrow> go_error option \<times> mesh_server" where
  "write_kafka env doc topic st ms =
     (let (err, st') = store_write (en_enqueue env doc topic) (en_now env) doc topic st
      in (err, record_kafka_write topic err (ms\<lparr> ms_store := Some st' \<rparr>)))"

definition kafka_stats :: "mesh_server \<Rightarrow> stats" where
  "kafka_stats ms = (case ms_store ms of None \<Rightarrow> disconnected_stats | Some st \<Rightarrow> store_stats st)"

definition log_message_to_kafka ::
    "env \<Rightarrow> mesh_message \<Rightarrow> string \<Rightarrow> mesh_server \<Rightarrow> go_error option \<times> mesh_server" where
  "log_message_to_kafka env msg direction ms =
     (case ms_store ms of
        None \<Rightarrow> (None, ms)
      | Some st \<Rightarrow>
          (let report = (if is_health_report msg
                         then case parse_health_report msg of
                                Inl e \<Rightarrow> []
                              | Inr r \<Rightarrow> [(''healthReport'', JObj
                                  [(''mac'', JStr (mac_to_string (hr_mac r))),
                                   (''adapterType'', JStr (get_adapter_type_name (hr_adapter_type r))),
                                   (''uptime'', u32_json (hr_uptime r))])]
                         else []);
               entry = JObj ([(''timestamp'', JInt (to_unix (en_now env))), (''direction'', JStr direction),
                  (''messageType'', u32_json (message_type msg)), (''dataType'', JInt (sint (data_type msg))),
                  (''origin'', JStr (mac_to_string (origin_mac msg))),
                  (''target'', JStr (mac_to_string (target_mac msg))),
                  (''lastHop'', JStr (mac_to_string (last_hop_mac msg))),
                  (''hopCount'', u32_json (msg_hop_count msg)),
                  (''dataLength'', JInt (int (length (msg_data msg))))] @ report)
           in write_kafka env entry TopicMeshMessages st ms))"

end
