(* ===== verification/Server_Handlers.thy ===== *)
theory Server_Handlers
  imports Mesh_Server
begin

text \<open>
  The operations of \<open>mesh/server.go\<close> that act on messages: the administrator's enrollment
  decisions, the handlers of received frames, the outgoing commands, the offline detector and the
  receive loop of a link.
\<close>

section \<open>Approving an enrollment\<close>

record approval_params =
  ap_node_id :: byte
  ap_name :: string
  ap_zone :: string
  ap_adapter_type :: string

definition no_params :: approval_params where
  "no_params = \<lparr> ap_node_id = 0, ap_name = [], ap_zone = [], ap_adapter_type = [] \<rparr>"

definition adapter_type_to_string :: "i32 \<Rightarrow> string" where
  "adapter_type_to_string t =
     (if t = AdapterTypePIR then ''pir''
      else if t = AdapterTypeLED then ''led''
      else if t = AdapterTypeRelay then ''relay''
      else if t = AdapterTypeSerial then ''serial''
      else ''unknown'')"

definition adapter_type_from_string :: "string \<Rightarrow> i32 option" where
  "adapter_type_from_string s =
     (if s = ''pir'' then Some AdapterTypePIR
      else if s = ''led'' then Some AdapterTypeLED
      else if s = ''relay'' then Some AdapterTypeRelay
      else None)"

text \<open>
  Hot swap: an explicit id that another active node owns. The new node inherits the name, zone
  and adapter type it was not given. The result is the old node's address, the completed
  parameters and the inherited adapter type.
\<close>

definition hotswap ::
    "byte list \<Rightarrow> approval_params \<Rightarrow> node_registry \<Rightarrow> byte list option \<times> approval_params \<times> i32" where
  "hotswap mac p nr =
     (if 0 < ap_node_id p then
        (case get_node_by_id (ap_node_id p) nr of
           None \<Rightarrow> (None, p, AdapterTypeUnknown)
         | Some old \<Rightarrow>
             if ni_mac old = mac then (None, p, AdapterTypeUnknown)
             else (Some (ni_mac old),
                   p\<lparr> ap_name := (if ap_name p = [] then ni_name old else ap_name p),
                      ap_zone := (if ap_zone p = [] then ni_zone old else ap_zone p) \<rparr>,
                   if ap_adapter_type p = [] \<and> ni_adapter_type old \<noteq> AdapterTypeUnknown
                   then ni_adapter_type old else AdapterTypeUnknown))
      else (None, p, AdapterTypeUnknown))"

definition join_ack_data :: "node_auth \<Rightarrow> mesh_server \<Rightarrow> byte list" where
  "join_ack_data node ms =
     (let d = go_copy (go_make MaxDataLength) 0 (take 4 (na_public_key node))
      in if ms_secondary_mac ms \<noteq> zero_bytes 6
         then go_copy (go_copy d 4 (ms_secondary_mac ms)) 10 (ms_secondary_public ms)
         else d)"

definition join_ack :: "node_auth \<Rightarrow> mesh_server \<Rightarrow> mesh_message" where
  "join_ack node ms = zero_message\<lparr> proto_version := 5, message_type := MessageTypeJoinAck,
     origin_mac := ms_master_mac ms, target_mac := na_mac node, msg_public_key := ms_master_public ms,
     msg_data := join_ack_data node ms \<rparr>"

definition node_id_set :: "byte list \<Rightarrow> byte \<Rightarrow> mesh_server \<Rightarrow> mesh_message" where
  "node_id_set mac node_id ms = zero_message\<lparr> proto_version := 5,
     message_type := MessageTypeSerialCmdBroadcast, origin_mac := ms_master_mac ms,
     data_type := AdapterTypeSerial,
     msg_data := (go_copy ((go_make MaxDataLength)[0 := OpNodeIdSet]) 1 mac)[7 := node_id] \<rparr>"

text \<open>The frames an approval sends; the errors of \<open>WriteFrame\<close> are only logged.\<close>

definition send_approval_frames ::
    "env \<Rightarrow> node_auth \<Rightarrow> byte \<Rightarrow> i32 \<Rightarrow> mesh_server \<Rightarrow> mesh_server" where
  "send_approval_frames env node node_id inherited ms =
     (if \<not> ms_serial_comm ms then ms
      else
        let ms1 = snd (write_active env (join_ack node ms) ms);
            ms2 = (if 0 < node_id then snd (write_active env (node_id_set (na_mac node) node_id ms1) ms1) else ms1)
        in if inherited \<noteq> AdapterTypeUnknown
           then (case build_config_set_message (na_mac node) inherited of
                   Inl e \<Rightarrow> ms2
                 | Inr m \<Rightarrow> snd (write_link env Primary (m\<lparr> origin_mac := ms_master_mac ms2 \<rparr>) ms2))
           else ms2)"

definition persist_auth :: "env \<Rightarrow> mesh_server \<Rightarrow> go_error option \<times> mesh_server" where
  "persist_auth env ms =
     (if ms_auth_path ms \<noteq> []
      then (let (e, f) = auth_persist (en_auth_write env) (ms_auth ms) (ms_auth_file ms)
            in (e, ms\<lparr> ms_auth_file := f \<rparr>))
      else (None, ms))"

definition assign_approved ::
    "node_auth \<Rightarrow> approval_params \<Rightarrow> byte \<Rightarrow> byte list option \<Rightarrow> node_registry \<Rightarrow> node_registry" where
  "assign_approved node p node_id old nr =
     (let nr1 = assign_node (na_mac node) node_id (ap_name p) (ap_zone p) nr
      in case old of None \<Rightarrow> nr1 | Some mac \<Rightarrow> mark_replaced mac (mac_to_string (na_mac node)) nr1)"

datatype enroll_error =
    AuthError auth_error | BadMac mac_error | PersistFailed go_error | MissingOrigin | BadKeyLength nat

definition approve_enrollment ::
    "env \<Rightarrow> string \<Rightarrow> approval_params \<Rightarrow> mesh_server \<Rightarrow> enroll_error option \<times> mesh_server" where
  "approve_enrollment env mac_str p ms =
     (let (res, auth) = approve (en_now env) mac_str (ms_auth ms)
      in case res of
           Inl e \<Rightarrow> (Some (AuthError e), ms)
         | Inr node \<Rightarrow>
             (let ms1 = ms\<lparr> ms_auth := auth \<rparr>;
                  node_id = (if ap_node_id p = 0 then next_free_node_id (ms_nodes ms1) else ap_node_id p);
                  (old, p', inherited) = hotswap (na_mac node) p (ms_nodes ms1);
                  ms2 = ms1\<lparr> ms_nodes := assign_approved node p' node_id old (ms_nodes ms1) \<rparr>;
                  ms3 = (case get_node (na_mac node) (ms_nodes ms2) of
                           None \<Rightarrow> ms2
                         | Some n \<Rightarrow> publish_enrolled_event env n
                             (if ap_adapter_type p' = [] then ''unknown'' else ap_adapter_type p') ms2);
                  ms4 = send_approval_frames env node node_id inherited ms3;
                  (perr, ms5) = persist_auth env ms4
              in (map_option PersistFailed perr, ms5)))"

text \<open>Resending keeps the identity the node registry already holds for the node.\<close>

definition resend_params :: "byte list \<Rightarrow> node_registry \<Rightarrow> approval_params" where
  "resend_params mac nr =
     (case get_node mac nr of
        None \<Rightarrow> no_params
      | Some n \<Rightarrow> \<lparr> ap_node_id = ni_node_id n, ap_name = ni_name n, ap_zone = ni_zone n,
                    ap_adapter_type = adapter_type_to_string (ni_adapter_type n) \<rparr>)"

definition resend_join_ack :: "env \<Rightarrow> string \<Rightarrow> mesh_server \<Rightarrow> enroll_error option \<times> mesh_server" where
  "resend_join_ack env mac_str ms =
     (case parse_mac mac_str of
        Inl e \<Rightarrow> (Some (BadMac e), ms)
      | Inr mac \<Rightarrow> approve_enrollment env mac_str (resend_params mac (ms_nodes ms)) ms)"

definition reject_frame :: "byte list \<Rightarrow> mesh_server \<Rightarrow> mesh_message" where
  "reject_frame mac ms = zero_message\<lparr> proto_version := 5, message_type := MessageTypeJoinAck,
     origin_mac := ms_master_mac ms, target_mac := mac \<rparr>"

definition reject_enrollment :: "env \<Rightarrow> string \<Rightarrow> mesh_server \<Rightarrow> enroll_error option \<times> mesh_server" where
  "reject_enrollment env mac_str ms =
     (case parse_mac mac_str of
        Inl e \<Rightarrow> (Some (BadMac e), ms)
      | Inr mac \<Rightarrow>
          (let (err, auth) = reject mac_str (ms_auth ms)
           in case err of
                Some e \<Rightarrow> (Some (AuthError e), ms)
              | None \<Rightarrow>
                  (let ms1 = ms\<lparr> ms_auth := auth \<rparr>;
                       ms2 = (if ms_serial_comm ms1 then snd (write_active env (reject_frame mac ms1) ms1) else ms1);
                       (perr, ms3) = persist_auth env ms2
                   in (map_option PersistFailed perr, ms3))))"

definition get_pending_enrollments :: "mesh_server \<Rightarrow> node_auth list" where
  "get_pending_enrollments ms = get_pending (ms_auth ms)"

section \<open>Handlers of received messages\<close>

datatype handler_error = Enroll enroll_error | EmptySerialData | HealthError health_error

definition handle_enrollment_request :: "env \<Rightarrow> mesh_message \<Rightarrow> mesh_server \<Rightarrow> handler_error option \<times> mesh_server" where
  "handle_enrollment_request env msg ms =
     (if length (origin_mac msg) < 6 then (Some (Enroll MissingOrigin), ms)
      else if length (msg_public_key msg) \<noteq> 32 then (Some (Enroll (BadKeyLength (length (msg_public_key msg)))), ms)
      else
        let mac = take 6 (origin_mac msg);
            pub = msg_public_key msg;
            mac_str = hex_encode mac;
            (res, auth) = add_pending (en_now env) mac pub (ms_auth ms);
            ms1 = ms\<lparr> ms_auth := auth \<rparr>
        in case res of
             Some AlreadyApprovedSameKey \<Rightarrow>
               (let (err, ms2) = resend_join_ack env mac_str ms1 in (map_option Enroll err, ms2))
           | None \<Rightarrow>
               (let ms2 = snd (persist_auth env ms1);
                    doc = JObj [(''type'', JStr ''enrollment_request''), (''mac'', JStr mac_str),
                            (''publicKey'', JStr (hex_encode pub)), (''timestamp'', JInt (to_unix (en_now env)))]
                in case ms_store ms2 of
                     None \<Rightarrow> (None, ms2)
                   | Some st \<Rightarrow> (None, snd (write_kafka env doc TopicMeshEnrollment st ms2))))"

definition handle_pir_data :: "env \<Rightarrow> mesh_message \<Rightarrow> mesh_server \<Rightarrow> handler_error option \<times> mesh_server" where
  "handle_pir_data env msg ms =
     (let doc = JObj [(''type'', JStr ''pir_motion''), (''mac'', JStr (mac_to_string (origin_mac msg))),
                  (''timestamp'', JInt (to_unix (en_now env))), (''hopCount'', u32_json (msg_hop_count msg)),
                  (''data'', if msg_data msg = [] then JNull else JBytes (msg_data msg))]
      in case ms_store ms of
           None \<Rightarrow> (None, ms)
         | Some st \<Rightarrow>
             (let ms1 = snd (write_kafka env doc TopicMotionTrigger st ms)
              in case get_node (origin_mac msg) (ms_nodes ms1) of
                   None \<Rightarrow> (None, ms1)
                 | Some n \<Rightarrow> (None, publish_motion_event env n ms1)))"

definition handle_health_report :: "env \<Rightarrow> mesh_message \<Rightarrow> mesh_server \<Rightarrow> handler_error option \<times> mesh_server" where
  "handle_health_report env msg ms =
     (case parse_health_report msg of
        Inl e \<Rightarrow> (Some (HealthError e), ms)
      | Inr r \<Rightarrow>
          (let ms1 = ms\<lparr> ms_nodes := update_node (en_now env) (hr_mac r) (hr_adapter_type r) (hr_uptime r)
                            (hr_hop_count r) (ms_nodes ms) \<rparr>
           in case get_node (hr_mac r) (ms_nodes ms1) of
                None \<Rightarrow> (None, ms1)
              | Some n \<Rightarrow> (None, publish_health_event env n ms1)))"

definition handle_command_ack :: "env \<Rightarrow> mesh_message \<Rightarrow> mesh_server \<Rightarrow> mesh_server" where
  "handle_command_ack env msg ms =
     (if length (msg_data msg) < 3 then ms
      else
        let token = (msg_data msg ! 1, msg_data msg ! 2);
            (found, cmds) = ack_by_token (en_uuid env) (en_now env) token (ms_commands ms);
            ms1 = ms\<lparr> ms_commands := cmds \<rparr>
        in case found of
             None \<Rightarrow> ms1
           | Some i \<Rightarrow>
               (let node_id = (case cmd_get i (ms_commands ms1) of None \<Rightarrow> 0 | Some c \<Rightarrow> cmd_node_id c)
                in publish_event env EventCommandAck (JObj
                     [(''commandId'', JStr i), (''nodeId'', byte_json node_id), (''status'', JStr ''ok'')]) ms1))"

definition handle_serial_data :: "env \<Rightarrow> mesh_message \<Rightarrow> mesh_server \<Rightarrow> handler_error option \<times> mesh_server" where
  "handle_serial_data env msg ms =
     (if msg_data msg = [] then (Some EmptySerialData, ms)
      else
        let opcode = msg_data msg ! 0
        in if opcode = OpHealthReport \<or> opcode = OpNodeHealth then handle_health_report env msg ms
           else if opcode = OpCommandAck then (None, handle_command_ack env msg ms)
           else (None, ms))"

definition handle_adapter_data :: "env \<Rightarrow> mesh_message \<Rightarrow> mesh_server \<Rightarrow> handler_error option \<times> mesh_server" where
  "handle_adapter_data env msg ms =
     (if data_type msg = AdapterTypeSerial then handle_serial_data env msg ms
      else if data_type msg = AdapterTypePIR then handle_pir_data env msg ms
      else (None, ms))"

definition handle_master_beacon :: "mesh_message \<Rightarrow> mesh_server \<Rightarrow> handler_error option \<times> mesh_server" where
  "handle_master_beacon msg ms = (None, ms)"

definition relay_macs :: "byte list \<Rightarrow> nat \<Rightarrow> byte list list" where
  "relay_macs path n = map (\<lambda>i. go_copy (go_make mac_address_length) 0
     (slice (i * mac_address_length) ((i + 1) * mac_address_length) path)) [0 ..< n]"

definition handle_route_report :: "env \<Rightarrow> mesh_message \<Rightarrow> mesh_server \<Rightarrow> handler_error option \<times> mesh_server" where
  "handle_route_report env msg ms =
     (let path_len = unat (get_route_len msg);
          path = get_route_path msg
      in if 10 < path_len then (None, ms)
         else if length path < path_len * mac_address_length then (None, ms)
         else
           let ms1 = ms\<lparr> ms_nodes := update_node_route (origin_mac msg) (relay_macs path path_len) (ms_nodes ms) \<rparr>
           in case get_node (origin_mac msg) (ms_nodes ms1) of
                None \<Rightarrow> (None, ms1)
              | Some n \<Rightarrow>
                  if 0 < ni_node_id n
                  then (None, publish_event env EventRouteUpdate (JObj
                         [(''nodeId'', byte_json (ni_node_id n)),
                          (''parentId'', case ni_parent_id n of None \<Rightarrow> JNull | Some i \<Rightarrow> byte_json i)]) ms1)
                  else (None, ms1))"

definition handle_message :: "env \<Rightarrow> mesh_message \<Rightarrow> mesh_server \<Rightarrow> handler_error option \<times> mesh_server" where
  "handle_message env msg ms =
     (if proto_version msg \<noteq> 5 then (None, ms)
      else
        let ms1 = snd (log_message_to_kafka env msg ''incoming'' ms)
        in if message_type msg = MessageTypeAdapterData then handle_adapter_data env msg ms1
           else if message_type msg = MessageTypeMasterBeacon then handle_master_beacon msg ms1
           else if message_type msg = MessageTypeEnrollment then handle_enrollment_request env msg ms1
           else if message_type msg = MessageTypeJoinAck then (None, ms1)
           else if message_type msg = MessageTypeRouteReport then handle_route_report env msg ms1
           else (None, ms1))"

section \<open>The receive loop of a link\<close>

text \<open>
  One iteration: what \<open>ReadFrame\<close> returned, the number of consecutive errors before, and whether
  the buffer is flushed. The loop stops when the context is cancelled.
\<close>

definition max_consecutive_errors :: nat where
  "max_consecutive_errors = 5"

record 'a proc_step =
  ps_errors :: nat
  ps_flush :: bool
  ps_server :: 'a

definition process_read ::
    "env \<Rightarrow> link \<Rightarrow> go_error + mesh_message \<Rightarrow> nat \<Rightarrow> mesh_server \<Rightarrow> mesh_server proc_step" where
  "process_read env label r errors ms =
     (case r of
        Inl e \<Rightarrow>
          (let errors' = errors + 1
           in \<lparr> ps_errors = errors', ps_flush = (errors' = 10),
                ps_server = (if errors' = max_consecutive_errors + 1 \<and> label = Primary
                             then ms\<lparr> ms_gauge := False \<rparr> else ms) \<rparr>)
      | Inr msg \<Rightarrow>
          \<lparr> ps_errors = 0, ps_flush = False,
            ps_server = snd (handle_message env msg (record_frame (en_now env) label ms)) \<rparr>)"

fun message_processor ::
    "link \<Rightarrow> (env \<times> (go_error + mesh_message)) list \<Rightarrow> nat \<Rightarrow> mesh_server \<Rightarrow> nat \<times> mesh_server" where
  "message_processor label [] errors ms = (errors, ms)"
| "message_processor label ((env, r) # rs) errors ms =
     (if ms_cancelled ms then (errors, ms)
      else let st = process_read env label r errors ms
           in message_processor label rs (ps_errors st) (ps_server st))"

section \<open>Outgoing commands\<close>

datatype send_error = NotRunning | FrameError go_error | BuildFailed string build_error | BadPreset byte
  | PresetNotSent go_error

definition send_message :: "env \<Rightarrow> mesh_message \<Rightarrow> mesh_server \<Rightarrow> send_error option \<times> mesh_server" where
  "send_message env msg ms =
     (if \<not> ms_running ms then (Some NotRunning, ms)
      else
        let ms1 = snd (log_message_to_kafka env msg ''outgoing'' ms);
            (err, ms2) = write_active env msg ms1
        in (map_option FrameError err, ms2))"

definition configure_node :: "env \<Rightarrow> byte list \<Rightarrow> i32 \<Rightarrow> mesh_server \<Rightarrow> send_error option \<times> mesh_server" where
  "configure_node env mac adapter ms =
     (case build_config_set_message mac adapter of
        Inl e \<Rightarrow> (Some (BuildFailed ''failed to build config message'' e), ms)
      | Inr m \<Rightarrow> send_message env (m\<lparr> origin_mac := ms_master_mac ms \<rparr>) ms)"

definition configure_all_nodes :: "env \<Rightarrow> i32 \<Rightarrow> mesh_server \<Rightarrow> send_error option \<times> mesh_server" where
  "configure_all_nodes env adapter ms =
     (case build_config_set_broadcast_message adapter of
        Inl e \<Rightarrow> (Some (BuildFailed ''failed to build broadcast config message'' e), ms)
      | Inr m \<Rightarrow> send_message env m ms)"

definition request_health_reports :: "env \<Rightarrow> mesh_server \<Rightarrow> send_error option \<times> mesh_server" where
  "request_health_reports env ms = send_message env build_health_request_message ms"

definition broadcast_data :: "env \<Rightarrow> i32 \<Rightarrow> byte list \<Rightarrow> mesh_server \<Rightarrow> send_error option \<times> mesh_server" where
  "broadcast_data env dt bs ms =
     (case build_broadcast_message dt bs of
        Inl e \<Rightarrow> (Some (BuildFailed ''failed to build broadcast message'' e), ms)
      | Inr m \<Rightarrow> send_message env m ms)"

definition send_node_data :: "env \<Rightarrow> i32 \<Rightarrow> byte list \<Rightarrow> mesh_server \<Rightarrow> send_error option \<times> mesh_server" where
  "send_node_data env dt bs ms =
     (if \<not> ms_serial_comm ms then (Some NotRunning, ms)
      else
        let (err, ms1) = write_active env (zero_message\<lparr> proto_version := 5,
              message_type := MessageTypeSerialCmdBroadcast, data_type := dt,
              msg_data := go_copy (go_make MaxDataLength) 0 bs \<rparr>) ms
        in (map_option FrameError err, ms1))"

definition set_tx_power_preset :: "env \<Rightarrow> byte \<Rightarrow> mesh_server \<Rightarrow> send_error option \<times> mesh_server" where
  "set_tx_power_preset env preset ms =
     (if 2 < preset then (Some (BadPreset preset), ms)
      else if \<not> ms_serial_comm ms then (Some NotRunning, ms)
      else
        let (err, ms1) = write_active env (zero_message\<lparr> proto_version := 5,
              message_type := MessageTypeAdapterData, data_type := AdapterTypeSerial,
              msg_data := ((go_make MaxDataLength)[0 := OpTxPowerSet])[1 := preset] \<rparr>) ms
        in case err of
             Some e \<Rightarrow> (Some (PresetNotSent e), ms1)
           | None \<Rightarrow> (None, ms1\<lparr> ms_tx_preset := preset \<rparr>))"

definition tx_power_preset_name :: "byte \<Rightarrow> string" where
  "tx_power_preset_name p =
     (if p = 0 then ''short_range'' else if p = 1 then ''indoor'' else if p = 2 then ''outdoor'' else [])"

definition get_tx_power_preset :: "mesh_server \<Rightarrow> byte \<times> string" where
  "get_tx_power_preset ms = (ms_tx_preset ms, tx_power_preset_name (ms_tx_preset ms))"

text \<open>\<open>SetZoneRegistryPath\<close> merges the zones of the file into those already there.\<close>

definition set_zone_registry_path :: "string \<Rightarrow> zone_v1 option disk_file \<Rightarrow> mesh_server \<Rightarrow> mesh_server outcome" where
  "set_zone_registry_path path f ms =
     (let ms1 = ms\<lparr> ms_zone_path := path \<rparr>
      in if path \<noteq> []
         then (case zones_load f (ms_zones ms1) of
                 Panic p \<Rightarrow> Panic p
               | Ret (e, zr) \<Rightarrow> Ret (ms1\<lparr> ms_zones := zr, ms_zone_file := f \<rparr>))
         else Ret ms1)"

section \<open>The offline detector\<close>

definition check_offline_node :: "env \<Rightarrow> node_info \<Rightarrow> mesh_server \<Rightarrow> mesh_server" where
  "check_offline_node env n ms =
     (if ms_health_timeout ms < since (en_now env) (ni_last_seen n)
      then if map_of (ms_online ms) (ni_mac_string n) = Some True
           then publish_event env EventNodeOffline (JObj
                  [(''nodeId'', byte_json (ni_node_id n)), (''name'', JStr (ni_name n)),
                   (''lastSeen'', JTime (ni_last_seen n))])
                  (ms\<lparr> ms_online := AList.update (ni_mac_string n) False (ms_online ms) \<rparr>)
           else ms
      else ms)"

text \<open>
  The nodes are copied out of the registry before the server's mutex is taken, so the loop runs on
  a snapshot that other operations may have overtaken; \<open>check_offline_nodes\<close> is the case that none has.
\<close>

definition check_snapshot :: "env \<Rightarrow> node_info list \<Rightarrow> mesh_server \<Rightarrow> mesh_server" where
  "check_snapshot env ns ms = fold (check_offline_node env) ns ms"

definition check_offline_nodes :: "env \<Rightarrow> mesh_server \<Rightarrow> mesh_server" where
  "check_offline_nodes env ms = check_snapshot env (get_all_nodes (ms_nodes ms)) ms"

text \<open>The loop of the detector: a check for each tick until the context is done.\<close>

fun offline_detector_loop :: "(loop_event \<times> env) list \<Rightarrow> mesh_server \<Rightarrow> bool \<times> mesh_server" where
  "offline_detector_loop [] ms = (False, ms)"
| "offline_detector_loop ((Tick, env) # evs) ms = offline_detector_loop evs (check_offline_nodes env ms)"
| "offline_detector_loop ((StopSignal, env) # evs) ms = (True, ms)"

definition is_running :: "mesh_server \<Rightarrow> bool" where
  "is_running ms = ms_running ms"

end
