(* ===== verification/Mesh_Api.thy ===== *)
theory Mesh_Api
  imports Server_Handlers
begin

text \<open>
  The HTTP API of \<open>mesh/api*.go\<close>, \<open>middleware.go\<close> and \<open>cors.go\<close>: the route table with its
  authorisation tiers, the middlewares, and every handler as a function from the request to the
  response and the new server state. A request body is what decoding it gives: \<open>None\<close> for a
  decode error (or a body over 64 KB), else its fields. \<open>adapter.IsOutput\<close> and \<open>uuid.New\<close> are
  third-party code and are arguments.
\<close>

section \<open>Authorisation\<close>

datatype tier = PublicTier | ApiTier | AdminTier

text \<open>\<open>AuthMiddleware\<close>, and the equal check of the admin subrouter.\<close>

definition bearer_ok :: "string \<Rightarrow> string \<Rightarrow> bool" where
  "bearer_ok key header \<longleftrightarrow>
     \<not> (\<not> has_prefix header ''Bearer '' \<or> trim_prefix header ''Bearer '' \<noteq> key)"

definition tier_allows :: "string \<Rightarrow> string \<Rightarrow> tier \<Rightarrow> string \<Rightarrow> bool" where
  "tier_allows api_key admin_key t header =
     (case t of
        PublicTier \<Rightarrow> True
      | ApiTier \<Rightarrow> if api_key \<noteq> [] then bearer_ok api_key header else True
      | AdminTier \<Rightarrow>
          if admin_key \<noteq> [] then bearer_ok admin_key header
          else if api_key \<noteq> [] then bearer_ok api_key header else True)"

datatype endpoint =
    Preflight | Metrics | Health | V1GetNodes | V1GetNode | V1Status | V1Events
  | GetNodes | GetNode | ConfigureNode | ConfigureAll | RequestHealth | GetStatus | Broadcast
  | StartServer | StopServer | GetPending | GetAllEnrollments | ApproveLegacy | RejectLegacy
  | GetTxPower | SetTxPower | V1GetZones | V1CreateZone | V1UpdateZone | V1ZoneCommand
  | V1UpdateNode | V1NodeCommand | V1CommandStatus | V1GetPending | V1GetAllEnrollments
  | V1Approve | V1Reject | V1DeleteNode | V1DeleteZone

text \<open>
  The routes in the order they are registered: method (empty for any), path segments, endpoint
  and tier.
\<close>

definition routes :: "(string \<times> string list \<times> endpoint \<times> tier) list" where
  "routes =
    [('''', [''metrics''], Metrics, PublicTier),
     (''GET'', [''health''], Health, PublicTier),
     (''GET'', [''api'', ''v1'', ''nodes''], V1GetNodes, PublicTier),
     (''GET'', [''api'', ''v1'', ''nodes'', ''{id}''], V1GetNode, PublicTier),
     (''GET'', [''api'', ''v1'', ''status''], V1Status, PublicTier),
     (''GET'', [''api'', ''v1'', ''events''], V1Events, PublicTier),
     (''GET'', [''nodes''], GetNodes, ApiTier),
     (''GET'', [''nodes'', ''{mac}''], GetNode, ApiTier),
     (''POST'', [''nodes'', ''{mac}'', ''configure''], ConfigureNode, ApiTier),
     (''POST'', [''nodes'', ''configure-all''], ConfigureAll, ApiTier),
     (''POST'', [''health'', ''request''], RequestHealth, ApiTier),
     (''GET'', [''status''], GetStatus, ApiTier),
     (''POST'', [''broadcast''], Broadcast, ApiTier),
     (''POST'', [''server'', ''start''], StartServer, ApiTier),
     (''POST'', [''server'', ''stop''], StopServer, ApiTier),
     (''GET'', [''api'', ''enrollments'', ''pending''], GetPending, ApiTier),
     (''GET'', [''api'', ''enrollments''], GetAllEnrollments, ApiTier),
     (''POST'', [''api'', ''enrollments'', ''{mac}'', ''approve''], ApproveLegacy, ApiTier),
     (''POST'', [''api'', ''enrollments'', ''{mac}'', ''reject''], RejectLegacy, ApiTier),
     (''GET'', [''api'', ''tx-power''], GetTxPower, ApiTier),
     (''POST'', [''api'', ''tx-power''], SetTxPower, ApiTier),
     (''GET'', [''api'', ''v1'', ''zones''], V1GetZones, ApiTier),
     (''POST'', [''api'', ''v1'', ''zones''], V1CreateZone, ApiTier),
     (''PATCH'', [''api'', ''v1'', ''zones'', ''{id}''], V1UpdateZone, ApiTier),
     (''POST'', [''api'', ''v1'', ''zones'', ''{id}'', ''command''], V1ZoneCommand, ApiTier),
     (''PATCH'', [''api'', ''v1'', ''nodes'', ''{id}''], V1UpdateNode, ApiTier),
     (''POST'', [''api'', ''v1'', ''nodes'', ''{id}'', ''command''], V1NodeCommand, ApiTier),
     (''GET'', [''api'', ''v1'', ''nodes'', ''{id}'', ''command'', ''{commandId}''], V1CommandStatus, ApiTier),
     (''GET'', [''api'', ''v1'', ''enrollments'', ''pending''], V1GetPending, ApiTier),
     (''GET'', [''api'', ''v1'', ''enrollments''], V1GetAllEnrollments, ApiTier),
     (''POST'', [''api'', ''v1'', ''enrollments'', ''{mac}'', ''approve''], V1Approve, AdminTier),
     (''POST'', [''api'', ''v1'', ''enrollments'', ''{mac}'', ''reject''], V1Reject, AdminTier),
     (''DELETE'', [''api'', ''v1'', ''nodes'', ''{id}''], V1DeleteNode, AdminTier),
     (''DELETE'', [''api'', ''v1'', ''zones'', ''{id}''], V1DeleteZone, AdminTier)]"

text \<open>The catch-all for \<open>OPTIONS\<close> is registered first, on the top-level router.\<close>

definition route_of :: "string \<Rightarrow> string list \<Rightarrow> (endpoint \<times> tier) option" where
  "route_of method path =
     (if method = ''OPTIONS'' then Some (Preflight, PublicTier)
      else case find (\<lambda>(m, t, ep, ti). (m = [] \<or> m = method) \<and> path_matches t path) routes of
             None \<Rightarrow> None
           | Some (m, t, ep, ti) \<Rightarrow> Some (ep, ti))"

text \<open>\<open>Unrouted\<close>: no route matches, and the router answers 404 or 405 itself, without any middleware.\<close>

datatype routing = Unrouted | Unauthorized | Serve endpoint

definition dispatch :: "string \<Rightarrow> string \<Rightarrow> string \<Rightarrow> string list \<Rightarrow> string \<Rightarrow> routing" where
  "dispatch api_key admin_key method path header =
     (case route_of method path of
        None \<Rightarrow> Unrouted
      | Some (ep, t) \<Rightarrow> if tier_allows api_key admin_key t header then Serve ep else Unauthorized)"

text \<open>\<open>CORSMiddleware\<close>: the headers it sets and whether it answers the request itself.\<close>

definition cors :: "string list \<Rightarrow> string \<Rightarrow> string \<Rightarrow> (string \<times> string) list \<times> bool" where
  "cors allowed origin method =
     ((if origin \<noteq> [] \<and> origin \<in> set allowed
       then [(''Access-Control-Allow-Origin'', origin),
             (''Access-Control-Allow-Methods'', ''GET, POST, OPTIONS, PATCH, DELETE''),
             (''Access-Control-Allow-Headers'', ''Authorization, Content-Type'')]
       else []), method = ''OPTIONS'')"

text \<open>
  \<open>APIServer\<close> (its mesh server is the state of the handlers) and \<open>ServeHTTP\<close>: the CORS middleware
  is installed when there are allowed origins, wraps every matched route and stands outside the
  middleware of the tiers.
\<close>

record api_server =
  as_key :: string
  as_admin :: string
  as_cors :: "(string \<Rightarrow> string \<Rightarrow> (string \<times> string) list \<times> bool) option"

definition new_api_server :: "string \<Rightarrow> string \<Rightarrow> string list \<Rightarrow> api_server" where
  "new_api_server api_key admin_key origins =
     \<lparr> as_key = api_key, as_admin = admin_key, as_cors = (if 0 < length origins then Some (cors origins) else None) \<rparr>"

datatype served = RouterReply | Answered nat | Handled endpoint

definition matched :: "routing \<Rightarrow> served" where
  "matched r = (case r of Unrouted \<Rightarrow> RouterReply | Unauthorized \<Rightarrow> Answered 401
     | Serve ep \<Rightarrow> if ep = Preflight then Answered 204 else Handled ep)"

definition serve_http ::
    "api_server \<Rightarrow> string \<Rightarrow> string list \<Rightarrow> string \<Rightarrow> string \<Rightarrow> (string \<times> string) list \<times> served" where
  "serve_http api method path header origin =
     (let r = dispatch (as_key api) (as_admin api) method path header
      in if r = Unrouted then ([], RouterReply)
         else case as_cors api of
                None \<Rightarrow> ([], matched r)
              | Some mw \<Rightarrow> (let (headers, answered) = mw origin method
                            in (headers, if answered then Answered 204 else matched r)))"

section \<open>Responses\<close>

datatype response = Reply nat json string | Failure nat string | Crash string

definition ok_data :: "json \<Rightarrow> response" where "ok_data d = Reply 200 d []"
definition ok_message :: "string \<Rightarrow> response" where "ok_message m = Reply 200 JNull m"

definition parse_node_id :: "string \<Rightarrow> byte option" where
  "parse_node_id s =
     (case parse_uint 8 s of None \<Rightarrow> None | Some n \<Rightarrow> if n = 0 then None else Some (of_nat n))"

definition is_valid_adapter_type :: "i32 \<Rightarrow> bool" where
  "is_valid_adapter_type t \<longleftrightarrow> t = AdapterTypeUnknown \<or> t = AdapterTypeSerial \<or> t = AdapterTypePIR \<or>
     t = AdapterTypeLED \<or> t = AdapterTypeRelay \<or> t = AdapterTypeWIFI"

definition is_online :: "time \<Rightarrow> duration \<Rightarrow> node_info \<Rightarrow> bool" where
  "is_online now timeout n \<longleftrightarrow> since now (ni_last_seen n) \<le> timeout"

definition opt_json :: "('a \<Rightarrow> json) \<Rightarrow> 'a option \<Rightarrow> string \<Rightarrow> (string \<times> json) list" where
  "opt_json f v name = (case v of None \<Rightarrow> [] | Some x \<Rightarrow> [(name, f x)])"

definition node_to_v1 :: "time \<Rightarrow> duration \<Rightarrow> node_info \<Rightarrow> json" where
  "node_to_v1 now timeout n = JObj ([(''id'', byte_json (ni_node_id n)), (''name'', JStr (ni_name n)),
     (''zone'', JStr (ni_zone n)), (''type'', JStr (adapter_type_to_string (ni_adapter_type n))),
     (''online'', JBool (is_online now timeout n)), (''hopCount'', u32_json (ni_hop_count n)),
     (''uptime'', u32_json (ni_uptime n)), (''lastSeen'', JTime (ni_last_seen n))] @
     opt_json byte_json (ni_parent_id n) ''parentId'')"

definition nonempty :: "string \<Rightarrow> string \<Rightarrow> (string \<times> json) list" where
  "nonempty name v = (if v = [] then [] else [(name, JStr v)])"

definition node_json :: "node_info \<Rightarrow> json" where
  "node_json n = JObj ([(''mac'', JBytes (ni_mac n)), (''macString'', JStr (ni_mac_string n)),
     (''adapterType'', JInt (sint (ni_adapter_type n))), (''uptime'', u32_json (ni_uptime n)),
     (''lastSeen'', JTime (ni_last_seen n)), (''hopCount'', u32_json (ni_hop_count n))] @
     (if ni_node_id n = 0 then [] else [(''nodeId'', byte_json (ni_node_id n))]) @
     nonempty ''name'' (ni_name n) @ nonempty ''zone'' (ni_zone n) @ nonempty ''status'' (ni_status n) @
     nonempty ''replacedBy'' (ni_replaced_by n) @
     (if ni_route_path n = [] then [] else [(''routePath'', JArr (map JStr (ni_route_path n)))]) @
     opt_json byte_json (ni_parent_id n) ''parentId'')"

definition enrollment_json :: "node_auth \<Rightarrow> json" where
  "enrollment_json n = JObj [(''mac'', JStr (na_mac_string n)), (''publicKey'', JStr (hex_encode (na_public_key n))),
     (''status'', JInt (na_status n)), (''receivedAt'', JInt (to_unix (na_received_at n))),
     (''approvedAt'', JInt (to_unix (na_approved_at n)))]"

section \<open>Nodes\<close>

definition v1_get_nodes :: "time \<Rightarrow> mesh_server \<Rightarrow> response" where
  "v1_get_nodes now ms = ok_data (JArr [node_to_v1 now (ms_health_timeout ms) n.
     n \<leftarrow> get_all_nodes (ms_nodes ms), 0 < ni_node_id n \<and> ni_status n \<noteq> ''replaced''])"

definition v1_get_node :: "time \<Rightarrow> string \<Rightarrow> mesh_server \<Rightarrow> response" where
  "v1_get_node now id_str ms =
     (case parse_node_id id_str of
        None \<Rightarrow> Failure 400 ''invalid node id''
      | Some i \<Rightarrow>
          (case get_node_by_id i (ms_nodes ms) of
             None \<Rightarrow> Failure 404 ''node not found''
           | Some n \<Rightarrow> ok_data (node_to_v1 now (ms_health_timeout ms) n)))"

record update_body =
  ub_name :: "string option"
  ub_zone :: "string option"
  ub_type :: "string option"

text \<open>The type is validated before anything changes; a failing send leaves the new name and zone.\<close>

definition v1_update_node :: "env \<Rightarrow> string \<Rightarrow> update_body option \<Rightarrow> mesh_server \<Rightarrow> response \<times> mesh_server" where
  "v1_update_node env id_str body ms =
     (case parse_node_id id_str of
        None \<Rightarrow> (Failure 400 ''invalid node id'', ms)
      | Some i \<Rightarrow>
          (case get_node_by_id i (ms_nodes ms) of
             None \<Rightarrow> (Failure 404 ''node not found'', ms)
           | Some n \<Rightarrow>
               (case body of
                  None \<Rightarrow> (Failure 400 ''invalid request body'', ms)
                | Some b \<Rightarrow>
                    (let new_type = map_option adapter_type_from_string (ub_type b)
                     in if new_type = Some None then (Failure 400 (''unknown type: '' @ the (ub_type b)), ms)
                        else
                          let name = (case ub_name b of None \<Rightarrow> ni_name n | Some s \<Rightarrow> s);
                              zone = (case ub_zone b of None \<Rightarrow> ni_zone n | Some s \<Rightarrow> s);
                              ms1 = ms\<lparr> ms_nodes := assign_node (ni_mac n) (ni_node_id n) name zone (ms_nodes ms) \<rparr>;
                              (err, ms2) = (case new_type of
                                  Some (Some t) \<Rightarrow> configure_node env (ni_mac n) t ms1
                                | _ \<Rightarrow> (None, ms1))
                          in if err \<noteq> None then (Failure 500 ''failed to configure node'', ms2)
                             else (case get_node_by_id i (ms_nodes ms2) of
                                     None \<Rightarrow> (Crash ''nil pointer dereference'', ms2)
                                   | Some n' \<Rightarrow> (ok_data (node_to_v1 (en_now env) (ms_health_timeout ms2) n'), ms2))))))"

definition v1_delete_node :: "string \<Rightarrow> mesh_server \<Rightarrow> response \<times> mesh_server" where
  "v1_delete_node id_str ms =
     (case parse_node_id id_str of
        None \<Rightarrow> (Failure 400 ''invalid node id'', ms)
      | Some i \<Rightarrow>
          (case get_node_by_id i (ms_nodes ms) of
             None \<Rightarrow> (Failure 404 ''node not found'', ms)
           | Some n \<Rightarrow> (ok_message ''node removed'', ms\<lparr> ms_nodes := snd (remove_node (ni_mac n) (ms_nodes ms)) \<rparr>)))"

section \<open>Commands\<close>

record command_body =
  cb_action :: string
  cb_colour :: "byte list"

datatype payload_result = BadColour | UnknownAction string | Payload "byte list"

text \<open>The payload switch that \<open>v1NodeCommand\<close> and \<open>v1ZoneCommand\<close> share word for word.\<close>

definition command_payload :: "command_body \<Rightarrow> payload_result" where
  "command_payload b =
     (let p = go_make MaxDataLength
      in if cb_action b = ''led_solid'' then
           (if length (cb_colour b) \<noteq> 3 then BadColour
            else Payload (p[0 := OpLEDSolid, 1 := cb_colour b ! 0, 2 := cb_colour b ! 1, 3 := cb_colour b ! 2]))
         else if cb_action b = ''led_off'' then Payload (p[0 := OpLEDOff])
         else if cb_action b = ''relay_on'' then Payload (p[0 := OpRelaySet, 1 := 1])
         else if cb_action b = ''relay_off'' then Payload (p[0 := OpRelaySet, 1 := 0])
         else UnknownAction (cb_action b))"

record new_uuid =
  uu_string :: string
  uu_bytes :: "byte list"

definition v1_node_command ::
    "env \<Rightarrow> (i32 \<Rightarrow> bool) \<Rightarrow> new_uuid \<Rightarrow> string \<Rightarrow> command_body option \<Rightarrow> mesh_server \<Rightarrow> response \<times> mesh_server" where
  "v1_node_command env is_output u id_str body ms =
     (case parse_node_id id_str of
        None \<Rightarrow> (Failure 400 ''invalid node id'', ms)
      | Some i \<Rightarrow>
          (case get_node_by_id i (ms_nodes ms) of
             None \<Rightarrow> (Failure 404 ''node not found'', ms)
           | Some n \<Rightarrow>
               (case body of
                  None \<Rightarrow> (Failure 400 ''action is required'', ms)
                | Some b \<Rightarrow>
                    if cb_action b = [] then (Failure 400 ''action is required'', ms)
                    else if \<not> is_output (ni_adapter_type n)
                    then (Failure 400 ''node adapter type does not accept commands'', ms)
                    else (case command_payload b of
                        BadColour \<Rightarrow> (Failure 400 ''led_solid requires colour [r,g,b]'', ms)
                      | UnknownAction a \<Rightarrow> (Failure 400 (''unknown action: '' @ a), ms)
                      | Payload p \<Rightarrow>
                          (let p' = p[MaxDataLength - 2 := uu_bytes u ! 14, MaxDataLength - 1 := uu_bytes u ! 15];
                               ms1 = ms\<lparr> ms_commands := cmd_add \<lparr> cmd_id = uu_string u, cmd_node_id = i,
                                  cmd_action = cb_action b, cmd_sent_at = en_now env,
                                  cmd_status = CommandStatusPending, cmd_acked_at = None \<rparr> (ms_commands ms) \<rparr>;
                               (err, ms2) = send_node_data env (ni_adapter_type n) p' ms1
                           in if err \<noteq> None then (Failure 500 ''failed to send command'', ms2)
                              else (Reply 202 (JObj [(''commandId'', JStr (uu_string u))]) [], ms2))))))"

definition v1_get_command_status :: "string \<Rightarrow> mesh_server \<Rightarrow> response" where
  "v1_get_command_status cid ms =
     (case cmd_get cid (ms_commands ms) of
        None \<Rightarrow> Failure 404 ''command not found''
      | Some c \<Rightarrow> ok_data (JObj ([(''commandId'', JStr (cmd_id c)), (''nodeId'', byte_json (cmd_node_id c)),
          (''action'', JStr (cmd_action c)),
          (''status'', JStr (case cmd_status c of CommandStatusPending \<Rightarrow> ''pending''
              | CommandStatusAcked \<Rightarrow> ''acked'' | CommandStatusTimeout \<Rightarrow> ''timeout'')),
          (''sentAt'', JInt (to_unix (cmd_sent_at c)))] @
          opt_json (\<lambda>t. JInt (to_unix t)) (cmd_acked_at c) ''ackedAt'')))"

fun send_to_nodes ::
    "env \<Rightarrow> (i32 \<Rightarrow> bool) \<Rightarrow> byte list \<Rightarrow> node_info list \<Rightarrow> mesh_server \<Rightarrow> nat \<times> mesh_server" where
  "send_to_nodes env is_output p [] ms = (0, ms)"
| "send_to_nodes env is_output p (n # ns) ms =
     (if is_output (ni_adapter_type n)
      then (let (err, ms1) = send_node_data env (ni_adapter_type n) p ms;
                (k, ms2) = send_to_nodes env is_output p ns ms1
            in (if err = None then k + 1 else k, ms2))
      else send_to_nodes env is_output p ns ms)"

definition v1_zone_command ::
    "env \<Rightarrow> (i32 \<Rightarrow> bool) \<Rightarrow> string \<Rightarrow> command_body option \<Rightarrow> mesh_server \<Rightarrow> response \<times> mesh_server" where
  "v1_zone_command env is_output i body ms =
     (case zone_get i (ms_zones ms) of
        None \<Rightarrow> (Failure 404 ''zone not found'', ms)
      | Some z \<Rightarrow>
          (case body of
             None \<Rightarrow> (Failure 400 ''action is required'', ms)
           | Some b \<Rightarrow>
               if cb_action b = [] then (Failure 400 ''action is required'', ms)
               else (case command_payload b of
                   BadColour \<Rightarrow> (Failure 400 ''led_solid requires colour [r,g,b]'', ms)
                 | UnknownAction a \<Rightarrow> (Failure 400 (''unknown action: '' @ a), ms)
                 | Payload p \<Rightarrow>
                     (let (sent, ms1) = send_to_nodes env is_output p (get_nodes_by_zone i (ms_nodes ms)) ms
                      in (Reply 202 (JObj [(''sent'', JInt (int sent))]) [], ms1)))))"

section \<open>Zones\<close>

definition zone_json :: "zone_v1 \<Rightarrow> json" where
  "zone_json z = JObj [(''id'', JStr (zone_id z)), (''name'', JStr (zone_name z))]"

definition v1_get_zones :: "mesh_server \<Rightarrow> response" where
  "v1_get_zones ms = ok_data (JArr (map zone_json (zone_list (ms_zones ms))))"

definition v1_create_zone :: "string option \<Rightarrow> mesh_server \<Rightarrow> response \<times> mesh_server" where
  "v1_create_zone name ms =
     (case name of
        None \<Rightarrow> (Failure 400 ''name is required'', ms)
      | Some s \<Rightarrow>
          if s = [] then (Failure 400 ''name is required'', ms)
          else (case zone_add s (ms_zones ms) of
                  (Inl (ZoneExists i), zr) \<Rightarrow> (Failure 409 (''zone '' @ go_quote i @ '' already exists''), ms\<lparr> ms_zones := zr \<rparr>)
                | (Inr z, zr) \<Rightarrow> (Reply 201 (zone_json z) [], ms\<lparr> ms_zones := zr \<rparr>)))"

definition v1_update_zone :: "string \<Rightarrow> string option \<Rightarrow> mesh_server \<Rightarrow> response \<times> mesh_server" where
  "v1_update_zone i name ms =
     (case name of
        None \<Rightarrow> (Failure 400 ''name is required'', ms)
      | Some s \<Rightarrow>
          if s = [] then (Failure 400 ''name is required'', ms)
          else (case zone_update i s (ms_zones ms) of
                  (None, zr) \<Rightarrow> (Failure 404 ''zone not found'', ms\<lparr> ms_zones := zr \<rparr>)
                | (Some z, zr) \<Rightarrow> (ok_data (zone_json z), ms\<lparr> ms_zones := zr \<rparr>)))"

definition v1_delete_zone :: "string \<Rightarrow> mesh_server \<Rightarrow> response \<times> mesh_server" where
  "v1_delete_zone i ms =
     (let (found, zr) = zone_delete i (ms_zones ms)
      in (if \<not> found then Failure 404 ''zone not found'' else ok_message ''zone deleted'', ms\<lparr> ms_zones := zr \<rparr>))"

section \<open>Enrollments\<close>

text \<open>
  The texts of the errors the API shows. Those of \<open>parseMAC\<close> and of the simulator, which it never
  shows, are given without the parts that Go's library prints.
\<close>

fun mac_error_text :: "mac_error \<Rightarrow> string" where
  "mac_error_text (InvalidMac s) = ''invalid MAC: '' @ s"
| "mac_error_text (InvalidMacFormat s) = ''invalid MAC address format: '' @ s"
| "mac_error_text (MacWrongLength n) = ''MAC must be 6 bytes (12 hex chars), got '' @ dec_str n @ '' hex chars''"
| "mac_error_text (MacNotHex s) = ''invalid hex in MAC''"
| "mac_error_text (SimInvalidMac s) = ''invalid MAC''"

fun build_error_text :: "build_error \<Rightarrow> string" where
  "build_error_text (BadMacLength n) =
     ''invalid MAC address length: '' @ dec_str n @ '', expected '' @ dec_str mac_address_length"
| "build_error_text (DataTooLong n) = ''data length '' @ dec_str n @ '' exceeds maximum '' @ dec_str MaxDataLength"

fun send_error_text :: "send_error \<Rightarrow> string" where
  "send_error_text NotRunning = ''mesh server is not running''"
| "send_error_text (FrameError e) = e"
| "send_error_text (BuildFailed what e) = what @ '': '' @ build_error_text e"
| "send_error_text (BadPreset p) = ''invalid TX power preset '' @ dec_str (unat p) @
     '': must be 0 (short), 1 (indoor), or 2 (outdoor)''"
| "send_error_text (PresetNotSent e) = ''failed to send TX power preset: '' @ e"

fun enroll_error_text :: "enroll_error \<Rightarrow> string" where
  "enroll_error_text (AuthError (NodeNotFound k)) = ''node '' @ k @ '' not found''"
| "enroll_error_text (BadMac e) = ''invalid MAC string: '' @ mac_error_text e"
| "enroll_error_text (PersistFailed e) = e"
| "enroll_error_text MissingOrigin = ''enrollment request missing origin MAC''"
| "enroll_error_text (BadKeyLength n) = ''enrollment request has invalid public key length: '' @ dec_str n"

definition v1_get_pending :: "mesh_server \<Rightarrow> response" where
  "v1_get_pending ms = ok_data (JArr (map enrollment_json (get_pending_enrollments ms)))"

definition v1_get_all_enrollments :: "mesh_server \<Rightarrow> response" where
  "v1_get_all_enrollments ms = ok_data (JArr (map enrollment_json (auth_get_all (ms_auth ms))))"

text \<open>The older routes for the same two lists.\<close>

definition get_pending_legacy :: "mesh_server \<Rightarrow> response" where
  "get_pending_legacy ms = ok_data (JArr (map enrollment_json (get_pending_enrollments ms)))"

definition get_all_enrollments_legacy :: "mesh_server \<Rightarrow> response" where
  "get_all_enrollments_legacy ms = ok_data (JArr (map enrollment_json (auth_get_all (ms_auth ms))))"

text \<open>\<open>net.ParseMAC\<close> of Go's library: colon, hyphen or dot form, of 6, 8 or 20 bytes.\<close>

definition xtoi2 :: "string \<Rightarrow> char option \<Rightarrow> byte option" where
  "xtoi2 s sep =
     (case s of
        a # b # rest \<Rightarrow>
          (if rest \<noteq> [] \<and> sep \<noteq> Some (hd rest) then None
           else case (hex_val a, hex_val b) of
                  (Some x, Some y) \<Rightarrow> Some (of_nat (16 * x + y))
                | _ \<Rightarrow> None)
      | _ \<Rightarrow> None)"

fun net_mac_pairs :: "char \<Rightarrow> nat \<Rightarrow> string \<Rightarrow> byte list option" where
  "net_mac_pairs sep 0 s = Some []"
| "net_mac_pairs sep (Suc n) s =
     (case xtoi2 s (Some sep) of
        None \<Rightarrow> None
      | Some b \<Rightarrow> map_option ((#) b) (net_mac_pairs sep n (drop 3 s)))"

fun net_mac_quads :: "nat \<Rightarrow> string \<Rightarrow> byte list option" where
  "net_mac_quads 0 s = Some []"
| "net_mac_quads (Suc n) s =
     (case (xtoi2 (take 2 s) None, xtoi2 (drop 2 s) (Some CHR ''.'')) of
        (Some a, Some b) \<Rightarrow> map_option (\<lambda>r. a # b # r) (net_mac_quads n (drop 5 s))
      | _ \<Rightarrow> None)"

definition net_parse_mac :: "string \<Rightarrow> byte list option" where
  "net_parse_mac s =
     (if length s < 14 then None
      else if s ! 2 = CHR '':'' \<or> s ! 2 = CHR ''-'' then
        (if (length s + 1) mod 3 \<noteq> 0 \<or> (length s + 1) div 3 \<notin> {6, 8, 20} then None
         else net_mac_pairs (s ! 2) ((length s + 1) div 3) s)
      else if s ! 4 = CHR ''.'' then
        (if (length s + 1) mod 5 \<noteq> 0 \<or> 2 * (length s + 1) div 5 \<notin> {6, 8, 20} then None
         else net_mac_quads ((length s + 1) div 5) s)
      else None)"

text \<open>
  \<open>v1ApproveEnrollment\<close>: the body is what decoding left in the struct, since decode errors are
  ignored. A writable type is configured when \<open>net.ParseMAC\<close> accepts the path segment.
\<close>

definition v1_approve_enrollment ::
    "env \<Rightarrow> string \<Rightarrow> approval_params \<Rightarrow> mesh_server \<Rightarrow> response \<times> mesh_server" where
  "v1_approve_enrollment env mac b ms =
     (let (err, ms1) = approve_enrollment env mac b ms
      in case err of
           Some e \<Rightarrow> (Failure 400 (enroll_error_text e), ms1)
         | None \<Rightarrow>
             (let ms2 = (if ap_adapter_type b \<noteq> []
                         then case adapter_type_from_string (ap_adapter_type b) of
                                None \<Rightarrow> ms1
                              | Some t \<Rightarrow> (case net_parse_mac mac of
                                  None \<Rightarrow> ms1
                                | Some hw \<Rightarrow> snd (configure_node env hw t ms1))
                         else ms1)
              in (ok_message ''enrollment approved'', ms2)))"

definition v1_reject_enrollment :: "env \<Rightarrow> string \<Rightarrow> mesh_server \<Rightarrow> response \<times> mesh_server" where
  "v1_reject_enrollment env mac ms =
     (let (err, ms1) = reject_enrollment env mac ms
      in case err of
           Some e \<Rightarrow> (Failure 400 (enroll_error_text e), ms1)
         | None \<Rightarrow> (ok_message ''enrollment rejected'', ms1))"

definition approve_legacy :: "env \<Rightarrow> string \<Rightarrow> approval_params \<Rightarrow> mesh_server \<Rightarrow> response \<times> mesh_server" where
  "approve_legacy env mac b ms =
     (let (err, ms1) = approve_enrollment env mac b ms
      in case err of
           Some e \<Rightarrow> (Failure 400 (enroll_error_text e), ms1)
         | None \<Rightarrow> (ok_message (''Enrollment approved for '' @ mac), ms1))"

definition reject_legacy :: "env \<Rightarrow> string \<Rightarrow> mesh_server \<Rightarrow> response \<times> mesh_server" where
  "reject_legacy env mac ms =
     (let (err, ms1) = reject_enrollment env mac ms
      in case err of
           Some e \<Rightarrow> (Failure 400 (enroll_error_text e), ms1)
         | None \<Rightarrow> (ok_message (''Enrollment rejected for '' @ mac), ms1))"


section \<open>The unversioned endpoints\<close>

definition get_nodes_legacy :: "mesh_server \<Rightarrow> response" where
  "get_nodes_legacy ms = ok_data (JArr (map node_json (get_all_nodes (ms_nodes ms))))"

definition get_node_legacy :: "string \<Rightarrow> mesh_server \<Rightarrow> response" where
  "get_node_legacy mac_str ms =
     (case string_to_mac mac_str of
        Inl e \<Rightarrow> Failure 400 (''Invalid MAC address: '' @ mac_error_text e)
      | Inr mac \<Rightarrow>
          (case get_node mac (ms_nodes ms) of
             None \<Rightarrow> Failure 404 ''Node not found''
           | Some n \<Rightarrow> ok_data (node_json n)))"

definition configure_node_legacy :: "env \<Rightarrow> string \<Rightarrow> go_error + i32 \<Rightarrow> mesh_server \<Rightarrow> response \<times> mesh_server" where
  "configure_node_legacy env mac_str body ms =
     (case string_to_mac mac_str of
        Inl e \<Rightarrow> (Failure 400 (''Invalid MAC address: '' @ mac_error_text e), ms)
      | Inr mac \<Rightarrow>
          (case body of
             Inl e \<Rightarrow> (Failure 400 (''Invalid request body: '' @ e), ms)
           | Inr t \<Rightarrow>
               if \<not> is_valid_adapter_type t then (Failure 400 (''Invalid adapterType: '' @ int_str (sint t)), ms)
               else (let (err, ms1) = configure_node env mac t ms
                     in case err of
                          Some e \<Rightarrow> (Failure 500 (''Failed to configure node: '' @ send_error_text e), ms1)
                        | None \<Rightarrow> (ok_message (''Node '' @ mac_str @ '' configured to adapter type '' @
                                get_adapter_type_name t), ms1))))"

definition configure_all_legacy :: "env \<Rightarrow> go_error + i32 \<Rightarrow> mesh_server \<Rightarrow> response \<times> mesh_server" where
  "configure_all_legacy env body ms =
     (case body of
        Inl e \<Rightarrow> (Failure 400 (''Invalid request body: '' @ e), ms)
      | Inr t \<Rightarrow>
          if \<not> is_valid_adapter_type t then (Failure 400 (''Invalid adapterType: '' @ int_str (sint t)), ms)
          else (let (err, ms1) = configure_all_nodes env t ms
                in case err of
                     Some e \<Rightarrow> (Failure 500 (''Failed to configure all nodes: '' @ send_error_text e), ms1)
                   | None \<Rightarrow> (ok_message (''All nodes configured to adapter type '' @ get_adapter_type_name t), ms1)))"

definition request_health :: "env \<Rightarrow> mesh_server \<Rightarrow> response \<times> mesh_server" where
  "request_health env ms =
     (let (err, ms1) = request_health_reports env ms
      in case err of
           Some e \<Rightarrow> (Failure 500 (''Failed to request health reports: '' @ send_error_text e), ms1)
         | None \<Rightarrow> (ok_message ''Health reports requested'', ms1))"

definition get_status :: "time \<Rightarrow> mesh_server \<Rightarrow> response" where
  "get_status now ms = ok_data (JObj [(''running'', JBool (ms_running ms)),
     (''totalNodes'', JInt (int (length (get_all_nodes (ms_nodes ms))))),
     (''onlineNodes'', JInt (int (length (get_online_nodes now (75 * second) (ms_nodes ms))))),
     (''timestamp'', JInt (to_unix now))])"

definition get_health :: json where
  "get_health = JObj [(''ok'', JBool True)]"

record broadcast_body =
  bb_data_type :: i32
  bb_data :: "byte list"

definition broadcast_legacy :: "env \<Rightarrow> go_error + broadcast_body \<Rightarrow> mesh_server \<Rightarrow> response \<times> mesh_server" where
  "broadcast_legacy env body ms =
     (case body of
        Inl e \<Rightarrow> (Failure 400 (''Invalid request body: '' @ e), ms)
      | Inr b \<Rightarrow>
          (let (err, ms1) = broadcast_data env (bb_data_type b) (bb_data b) ms
           in case err of
                Some e \<Rightarrow> (Failure 500 (''Failed to broadcast data: '' @ send_error_text e), ms1)
              | None \<Rightarrow> (ok_message (''Data broadcasted to all nodes (type: '' @ get_adapter_type_name (bb_data_type b) @
                      '', length: '' @ dec_str (length (bb_data b)) @ '')''), ms1)))"

text \<open>A panic inside a handler is recovered by \<open>net/http\<close>, which closes the connection.\<close>

definition start_server :: "env \<Rightarrow> go_error option \<Rightarrow> go_error option \<Rightarrow> mesh_server \<Rightarrow> response \<times> mesh_server" where
  "start_server env open1 open2 ms =
     (if ms_running ms then (Failure 409 ''Server is already running'', ms)
      else (let (err, ms1) = start env open1 open2 ms
            in case err of
                 Some e \<Rightarrow> (Failure 500 (''Failed to start server: '' @ e), ms1)
               | None \<Rightarrow> (ok_message ''Mesh server started'', ms1)))"

definition stop_server :: "env \<Rightarrow> zone_v1 option write_outcome \<Rightarrow> mesh_server \<Rightarrow> response \<times> mesh_server" where
  "stop_server env zone_out ms =
     (if \<not> ms_running ms then (Failure 409 ''Server is not running'', ms)
      else (case stop env zone_out ms of
              (Panic p, ms1) \<Rightarrow> (Crash p, ms1)
            | (Ret (Some e), ms1) \<Rightarrow> (Failure 500 (''Failed to stop server: '' @ e), ms1)
            | (Ret None, ms1) \<Rightarrow> (ok_message ''Mesh server stopped'', ms1)))"

definition handle_get_tx_power :: "mesh_server \<Rightarrow> response" where
  "handle_get_tx_power ms =
     (let (preset, name) = get_tx_power_preset ms
      in ok_data (JObj [(''preset'', byte_json preset), (''name'', JStr name)]))"

definition handle_set_tx_power :: "env \<Rightarrow> go_error + byte \<Rightarrow> mesh_server \<Rightarrow> response \<times> mesh_server" where
  "handle_set_tx_power env body ms =
     (case body of
        Inl e \<Rightarrow> (Failure 400 (''invalid request body: '' @ e), ms)
      | Inr preset \<Rightarrow>
          (let (err, ms1) = set_tx_power_preset env preset ms
           in case err of
                Some e \<Rightarrow> (Failure 400 (send_error_text e), ms1)
              | None \<Rightarrow> (ok_data (JObj [(''status'', JStr ''ok''), (''preset'', byte_json preset),
                   (''name'', JStr (snd (get_tx_power_preset ms1)))]), ms1)))"

section \<open>Status and events\<close>

definition topic_json :: "topic_stats \<Rightarrow> json" where
  "topic_json ts = JObj [(''ready'', JBool (ts_ready ts)), (''failedWrites'', JInt (int (unat (ts_failed_writes ts)))),
     (''lastError'', JStr (ts_last_error ts)),
     (''lastFailureAt'', case ts_last_failure_at ts of None \<Rightarrow> JNull | Some t \<Rightarrow> JTime t)]"

definition stats_json :: "stats \<Rightarrow> json" where
  "stats_json st = JObj [(''connected'', JBool (st_connected st)), (''topicsReady'', JBool (st_topics_ready st)),
     (''topics'', JObj (map (\<lambda>(n, ts). (n, topic_json ts)) (st_topics st))),
     (''failedWrites'', JInt (int (unat (st_failed_writes st)))), (''lastError'', JStr (st_last_error st)),
     (''lastFailureAt'', case st_last_failure_at st of None \<Rightarrow> JNull | Some t \<Rightarrow> JTime t)]"

record node_counts =
  nc_total :: nat
  nc_online :: nat
  nc_next_free :: byte

definition count_nodes :: "time \<Rightarrow> mesh_server \<Rightarrow> node_counts" where
  "count_nodes now ms =
     (let assigned = [n \<leftarrow> get_all_nodes (ms_nodes ms). 0 < ni_node_id n]
      in \<lparr> nc_total = length assigned,
           nc_online = length [n \<leftarrow> assigned. is_online now (ms_health_timeout ms) n],
           nc_next_free = next_free_node_id (ms_nodes ms) \<rparr>)"

definition serial_words :: "mesh_server \<Rightarrow> string \<times> string" where
  "serial_words ms =
     (let (p, s, configured) = serial_status ms
      in (if p then ''connected'' else ''disconnected'',
          if configured then if s then ''connected'' else ''disconnected'' else ''not_configured''))"

definition v1_status :: "time \<Rightarrow> mesh_server \<Rightarrow> response" where
  "v1_status now ms =
     (let c = count_nodes now ms; (p, s) = serial_words ms
      in ok_data (JObj
        [(''kafka'', stats_json (kafka_stats ms)),
         (''serial'', JObj [(''primary'', JStr p), (''secondary'', JStr s)]),
         (''nodes'', JObj [(''total'', JInt (int (nc_total c))), (''online'', JInt (int (nc_online c))),
            (''offline'', JInt (int (nc_total c) - int (nc_online c))), (''nextFreeId'', byte_json (nc_next_free c))]),
         (''mesh'', JObj [(''masterOnline'', JBool (is_master_online now ms)),
            (''primaryOnline'', JBool (is_primary_online now ms)),
            (''secondaryOnline'', JBool (is_secondary_online now ms))])]))"

text \<open>The payload of an SSE message: objects get the event's time unless they carry their own.\<close>

definition event_payload :: "event \<Rightarrow> json" where
  "event_payload e =
     (case ev_data e of
        JObj kvs \<Rightarrow>
          if ''timestamp'' \<in> fst ` set kvs then JObj kvs
          else JObj (kvs @ [(''timestamp'', JTime (ev_timestamp e))])
      | d \<Rightarrow> d)"

text \<open>One turn of the SSE loop: the frame written for a received event.\<close>

definition sse_frame :: "event \<Rightarrow> string \<times> json" where
  "sse_frame e = (event_type_name (ev_type e), event_payload e)"

definition sse_run :: "chan_id \<Rightarrow> event_broker \<Rightarrow> (string \<times> json) option \<times> event_broker" where
  "sse_run ch b = (let (r, b') = receive ch b in (map_option sse_frame r, b'))"

end
