(* ===== verification/Server_Props.thy ===== *)
theory Server_Props
  imports Mesh_Api
begin

text \<open>
  What holds of the mesh server in every state it can reach: the step relation of its public
  operations, the invariant they keep, and the properties of enrollment, of the online/offline
  events, of the link choice and of the life cycle.
\<close>

section \<open>What the effects leave alone\<close>

text \<open>
  The registries of the server, and the online/offline events it published, as one tuple.
  Publishing other events, logging and sending change none of them, which the rules below let
  the simplifier use.
\<close>

named_theorems server_frame \<open>what an effect leaves unchanged\<close>

definition edges :: "mesh_server \<Rightarrow> event list" where
  "edges ms = [e \<leftarrow> ms_events ms. ev_type e = EventNodeOnline \<or> ev_type e = EventNodeOffline]"

definition core :: "mesh_server \<Rightarrow> node_registry \<times> auth_registry \<times> command_store \<times> zone_registry \<times>
    (string, bool) gomap \<times> event list" where
  "core ms = (ms_nodes ms, ms_auth ms, ms_commands ms, ms_zones ms, ms_online ms, edges ms)"

lemma core_eq_iff:
  "core a = core b \<longleftrightarrow> ms_nodes a = ms_nodes b \<and> ms_auth a = ms_auth b \<and> ms_commands a = ms_commands b \<and>
     ms_zones a = ms_zones b \<and> ms_online a = ms_online b \<and> edges a = edges b"
  by (simp add: core_def)

lemma core_publish:
  "t \<noteq> EventNodeOnline \<Longrightarrow> t \<noteq> EventNodeOffline \<Longrightarrow> core (publish_event env t d ms) = core ms"
  by (simp add: core_def edges_def publish_event_def)

lemma core_motion [server_frame]: "core (publish_motion_event env n ms) = core ms"
  by (simp add: publish_motion_event_def core_publish)

lemma core_enrolled [server_frame]: "core (publish_enrolled_event env n s ms) = core ms"
  by (simp add: publish_enrolled_event_def core_publish)

lemma core_write_kafka [server_frame]: "core (snd (write_kafka env d t st ms)) = core ms"
  by (simp add: core_def edges_def write_kafka_def record_kafka_write_def case_prod_beta Let_def)

lemma core_log [server_frame]: "core (snd (log_message_to_kafka env msg d ms)) = core ms"
  by (simp add: log_message_to_kafka_def Let_def core_write_kafka split: option.split)

lemma core_write_link [server_frame]: "core (snd (write_link env l m ms)) = core ms"
  by (simp add: core_def edges_def write_link_def Let_def)

lemma core_write_active [server_frame]: "core (snd (write_active env m ms)) = core ms"
  by (simp add: write_active_def core_write_link)

lemma core_record_frame [server_frame]: "core (record_frame now l ms) = core ms"
  by (simp add: core_def edges_def record_frame_def split: link.split)

lemma core_persist_auth [server_frame]: "core (snd (persist_auth env ms)) = core ms"
  by (simp add: core_def edges_def persist_auth_def case_prod_beta Let_def)

lemma core_approval_frames [server_frame]: "core (send_approval_frames env node i a ms) = core ms"
  by (simp add: send_approval_frames_def Let_def core_write_active core_write_link split: sum.split)

section \<open>The invariant\<close>

definition server_inv :: "mesh_server \<Rightarrow> bool" where
  "server_inv ms \<longleftrightarrow> node_registry_inv (ms_nodes ms) \<and> ids_unique (ms_nodes ms) \<and>
     auth_registry_inv (ms_auth ms) \<and> cmds_ok (ms_commands ms) \<and> zone_registry_inv (ms_zones ms)"

lemma server_inv_core: "core a = core b \<Longrightarrow> server_inv a = server_inv b"
  by (simp add: server_inv_def core_eq_iff)

lemma server_inv_nodes:
  "server_inv ms \<Longrightarrow> node_registry_inv nr \<Longrightarrow> ids_unique nr \<Longrightarrow> server_inv (ms\<lparr> ms_nodes := nr \<rparr>)"
  by (simp add: server_inv_def)

lemma server_inv_auth: "server_inv ms \<Longrightarrow> auth_registry_inv r \<Longrightarrow> server_inv (ms\<lparr> ms_auth := r \<rparr>)"
  by (simp add: server_inv_def)

text \<open>The heart of the invariant: a hot swap hands the id over without a moment of sharing it.\<close>

lemma hotswap_old:
  assumes "ids_unique nr" and "hotswap mac p nr = (old, p', a)"
  shows "(old = None \<and> (ap_node_id p = 0 \<or>
            (\<forall>k n. map_of nr k = Some n \<and> active n \<and> ni_node_id n = ap_node_id p \<longrightarrow> ni_mac n = mac))) \<or>
         (\<exists>k n. old = Some (ni_mac n) \<and> map_of nr k = Some n \<and> active n \<and> ni_node_id n = ap_node_id p \<and>
            0 < ap_node_id p \<and> ni_mac n \<noteq> mac)"
proof (cases "0 < ap_node_id p")
  case False
  then show ?thesis using assms(2) by (simp add: hotswap_def word_gt_0)
next
  case True
  then have nz: "ap_node_id p \<noteq> 0" by (simp add: word_gt_0)
  note kd = ids_unique_distinct [OF assms(1)]
  show ?thesis
  proof (cases "get_node_by_id (ap_node_id p) nr")
    case None
    have "\<not> (map_of nr k = Some n \<and> active n \<and> ni_node_id n = ap_node_id p)" for k n
      using get_node_by_id_unique [OF assms(1) _ _ nz, of k n] None by auto
    with None True assms(2) show ?thesis by (auto simp: hotswap_def)
  next
    case (Some o')
    then obtain k where k: "map_of nr k = Some o'" "ni_node_id o' = ap_node_id p" "active o'"
      using get_node_by_id_Some [OF kd Some] by (auto simp: active_def)
    have only: "n = o'" if "map_of nr j = Some n" "active n" "ni_node_id n = ap_node_id p" for j n
      using ids_uniqueD [OF assms(1) that(1) k(1) that(2) k(3)] that k nz by auto
    show ?thesis
    proof (cases "ni_mac o' = mac")
      case True
      then have "old = None" using assms(2) Some \<open>0 < ap_node_id p\<close> by (simp add: hotswap_def)
      then show ?thesis using only True by blast
    next
      case False
      then have "old = Some (ni_mac o')" using assms(2) Some True by (simp add: hotswap_def)
      then show ?thesis using k False True by blast
    qed
  qed
qed

lemma hotswap_id: "hotswap mac p nr = (old, p', a) \<Longrightarrow> ap_node_id p' = ap_node_id p"
  by (auto simp: hotswap_def split: if_splits option.splits)

lemma ids_unique_assign_inactive:
  assumes uniq: "ids_unique nr" and inv: "node_registry_inv nr"
    and k: "map_of nr k = Some n" "active n" "ni_node_id n = i" "i \<noteq> 0" "ni_mac n \<noteq> mac"
  shows "ids_unique (mark_replaced (ni_mac n) s (assign_node mac i name zone nr))"
proof -
  let ?old = "mark_replaced (ni_mac n) s" and ?new = "assign_node mac i name zone"
  have key: "k = mac_to_string (ni_mac n)" using table_invD [OF inv k(1)] by (simp add: node_ok_def)
  have ne: "mac_to_string mac \<noteq> mac_to_string (ni_mac n)" using k(5) by (simp add: mac_to_string_inj)
  have gone: "ni_node_id n' \<noteq> i" if h: "map_of (?old nr) k' = Some n'" "active n'" for k' n'
  proof
    assume i: "ni_node_id n' = i"
    show False
    proof (cases "k' = k")
      case True
      then show ?thesis using h unfolding key lookup_mark_replaced by (auto simp: active_def)
    next
      case False
      then have "map_of nr k' = Some n'" using h(1) unfolding key lookup_mark_replaced by simp
      then have "k' = k" using ids_uniqueD [OF uniq _ k(1) h(2) k(2)] i k(3,4) by simp
      with False show ?thesis ..
    qed
  qed
  have "ids_unique (?new (?old nr))"
    by (rule ids_unique_assign [OF ids_unique_mark_replaced [OF uniq]]) (use gone in blast)
  moreover have "map_of (?new (?old nr)) j = map_of (?old (?new nr)) j" for j
    using ne by (cases "j = mac_to_string mac") (simp_all add: lookup_assign_node lookup_mark_replaced)
  moreover have "keys_distinct (?old (?new nr))"
    using ids_unique_distinct [OF uniq] by (simp add: mark_replaced_def assign_node_def Let_def)
  ultimately show ?thesis by (intro ids_unique_cong [of "?new (?old nr)" "?old (?new nr)"]) simp_all
qed

lemma assign_approved_inv:
  assumes uniq: "ids_unique nr" and inv: "node_registry_inv nr"
    and hs: "hotswap (na_mac node) p nr = (old, p', a)"
    and i: "i = (if ap_node_id p = 0 then next_free_node_id nr else ap_node_id p)"
  shows "ids_unique (assign_approved node p' i old nr)" and "node_registry_inv (assign_approved node p' i old nr)"
proof -
  show "node_registry_inv (assign_approved node p' i old nr)"
    by (auto simp: assign_approved_def Let_def inv intro!: mark_replaced_inv assign_node_inv split: option.split)
  note kd = ids_unique_distinct [OF uniq]
  show "ids_unique (assign_approved node p' i old nr)"
  proof (cases old)
    case (Some m)
    then obtain k n where n: "m = ni_mac n" "map_of nr k = Some n" "active n" "ni_node_id n = ap_node_id p"
      "0 < ap_node_id p" "ni_mac n \<noteq> na_mac node" using hotswap_old [OF uniq hs] by auto
    then have "ap_node_id p \<noteq> 0" by (simp add: word_gt_0)
    then show ?thesis
      using ids_unique_assign_inactive [OF uniq inv n(2,3,4) _ n(6)] Some n(1) i
      by (simp add: assign_approved_def)
  next
    case None
    have "i = 0 \<or> (\<forall>k n. map_of nr k = Some n \<and> active n \<and> ni_node_id n = i \<longrightarrow> k = mac_to_string (na_mac node))"
    proof (cases "ap_node_id p = 0")
      case True
      then show ?thesis using next_free_unused [OF kd] i by auto
    next
      case False
      then have "ni_mac n = na_mac node" if "map_of nr k = Some n" "active n" "ni_node_id n = i" for k n
        using hotswap_old [OF uniq hs] None i that by auto
      then show ?thesis using node_registry_key [OF inv] by metis
    qed
    then show ?thesis using ids_unique_assign [OF uniq] None by (simp add: assign_approved_def)
  qed
qed

lemma approve_enrollment_inv:
  assumes "server_inv ms"
  shows "server_inv (snd (approve_enrollment env s p ms))"
proof (cases "fst (approve (en_now env) s (ms_auth ms))")
  case (Inl e)
  then show ?thesis using assms by (simp add: approve_enrollment_def case_prod_beta Let_def)
next
  case (Inr node)
  obtain old p' a where hs: "hotswap (na_mac node) p (ms_nodes ms) = (old, p', a)" by (cases "hotswap (na_mac node) p (ms_nodes ms)")
  let ?i = "if ap_node_id p = 0 then next_free_node_id (ms_nodes ms) else ap_node_id p"
  let ?ms = "ms\<lparr> ms_auth := snd (approve (en_now env) s (ms_auth ms)),
                 ms_nodes := assign_approved node p' ?i old (ms_nodes ms) \<rparr>"
  have uniq: "ids_unique (ms_nodes ms)" and inv: "node_registry_inv (ms_nodes ms)"
    using assms by (simp_all add: server_inv_def)
  have "server_inv ?ms"
    using assms assign_approved_inv [OF uniq inv hs refl] approve_inv [of "ms_auth ms" "en_now env" s]
    by (simp add: server_inv_def)
  moreover have "core (snd (approve_enrollment env s p ms)) = core ?ms"
    using Inr hs by (simp add: approve_enrollment_def case_prod_beta Let_def server_frame split: option.split)
  ultimately show ?thesis using server_inv_core by blast
qed


lemma core_send [server_frame]: "core (snd (send_message env m ms)) = core ms"
  by (simp add: send_message_def case_prod_beta Let_def core_write_active core_log)

lemma core_send_node_data [server_frame]: "core (snd (send_node_data env dt bs ms)) = core ms"
  by (simp add: send_node_data_def case_prod_beta Let_def core_write_active)

lemma core_configure [server_frame]: "core (snd (configure_node env mac t ms)) = core ms"
  by (simp add: configure_node_def core_send split: sum.split)

lemma core_configure_all [server_frame]: "core (snd (configure_all_nodes env t ms)) = core ms"
  by (simp add: configure_all_nodes_def core_send split: sum.split)

lemma core_request_health [server_frame]: "core (snd (request_health_reports env ms)) = core ms"
  by (simp add: request_health_reports_def core_send)

lemma core_broadcast [server_frame]: "core (snd (broadcast_data env dt bs ms)) = core ms"
  by (simp add: broadcast_data_def core_send split: sum.split)

lemma core_preset [server_frame]: "core (ms\<lparr> ms_tx_preset := p \<rparr>) = core ms"
  by (simp add: core_def edges_def)

lemma core_set_tx [server_frame]: "core (snd (set_tx_power_preset env p ms)) = core ms"
  by (simp add: set_tx_power_preset_def case_prod_beta Let_def core_write_active core_preset split: option.split)

lemma core_start [server_frame]: "core (snd (start env o1 o2 ms)) = core ms"
  by (simp add: start_def Let_def core_def edges_def record_frame_def split: option.split)

lemma core_flags [server_frame]:
  "core (ms\<lparr> ms_stop_persist_closed := c \<rparr>) = core ms" "core (ms\<lparr> ms_stop_node_closed := c \<rparr>) = core ms"
  "core (ms\<lparr> ms_gauge := c \<rparr>) = core ms" "core (ms\<lparr> ms_secondary_connected := c \<rparr>) = core ms"
  "core (ms\<lparr> ms_processors := ps \<rparr>) = core ms" "core (ms\<lparr> ms_auth_file := f \<rparr>) = core ms"
  "core (ms\<lparr> ms_zone_file := zf \<rparr>) = core ms" "core (ms\<lparr> ms_node_file := nf \<rparr>) = core ms"
  by (simp_all add: core_def edges_def)

lemma core_saves [server_frame]:
  "core (save_auth env ms) = core ms" "core (save_nodes env ms) = core ms"
  by (simp_all add: save_auth_def save_nodes_def core_flags)

lemma core_stop_parts [server_frame]:
  "core (save_zones out ms) = core ms" "core (close_links ms) = core ms"
  "core (finish_loops env ms) = core ms" "core (cancel_server ms) = core ms"
  by (simp_all add: save_zones_def close_links_def finish_loops_def Let_def core_flags core_saves)
    (simp add: cancel_server_def core_def edges_def)

lemma core_stop [server_frame]: "core (snd (stop env z ms)) = core ms"
  by (simp add: stop_def Let_def core_stop_parts core_flags)

lemma core_send_to_nodes [server_frame]: "core (snd (send_to_nodes env out p ns ms)) = core ms"
  by (induction ns arbitrary: ms) (simp_all add: case_prod_beta Let_def core_send_node_data)

section \<open>Every operation keeps the invariant\<close>

lemma reject_enrollment_inv:
  assumes "server_inv ms"
  shows "server_inv (snd (reject_enrollment env s ms))"
proof (cases "parse_mac s")
  case (Inl e)
  then show ?thesis using assms by (simp add: reject_enrollment_def)
next
  case (Inr mac)
  let ?ms = "ms\<lparr> ms_auth := snd (reject s (ms_auth ms)) \<rparr>"
  have "server_inv ?ms" using assms by (simp add: server_inv_def reject_inv)
  moreover have "core (snd (reject_enrollment env s ms)) = core ?ms \<or>
      core (snd (reject_enrollment env s ms)) = core ms"
    using Inr by (simp add: reject_enrollment_def case_prod_beta Let_def core_persist_auth core_write_active
        split: option.split)
  ultimately show ?thesis using assms server_inv_core by blast
qed

lemma publish_health_inv: "server_inv ms \<Longrightarrow> server_inv (publish_health_event env n ms)"
  by (simp add: publish_health_event_def Let_def publish_event_def server_inv_def)

lemma handle_health_inv: "server_inv ms \<Longrightarrow> server_inv (snd (handle_health_report env msg ms))"
  by (auto simp: handle_health_report_def Let_def server_inv_def update_node_inv ids_unique_update
      publish_health_event_def publish_event_def split: sum.split option.split)

lemma handle_command_ack_inv: "server_inv ms \<Longrightarrow> server_inv (handle_command_ack env msg ms)"
  by (simp add: handle_command_ack_def Let_def case_prod_beta server_inv_def publish_event_def
      cmds_ok_ack_by_token split: option.split)

lemma handle_serial_inv: "server_inv ms \<Longrightarrow> server_inv (snd (handle_serial_data env msg ms))"
  by (simp add: handle_serial_data_def Let_def handle_health_inv handle_command_ack_inv)

lemma server_inv_same: "server_inv a \<Longrightarrow> core b = core a \<Longrightarrow> server_inv b"
  using server_inv_core by blast

lemma handle_pir_inv: "server_inv ms \<Longrightarrow> server_inv (snd (handle_pir_data env msg ms))"
  by (rule server_inv_same [where a = ms])
    (simp_all add: handle_pir_data_def Let_def core_motion core_write_kafka split: option.split)

lemma handle_adapter_inv: "server_inv ms \<Longrightarrow> server_inv (snd (handle_adapter_data env msg ms))"
  by (simp add: handle_adapter_data_def handle_serial_inv handle_pir_inv)

lemma handle_route_inv: "server_inv ms \<Longrightarrow> server_inv (snd (handle_route_report env msg ms))"
  by (auto simp: handle_route_report_def Let_def server_inv_def update_node_route_inv ids_unique_route
      publish_event_def split: option.split)

lemma resend_inv: "server_inv ms \<Longrightarrow> server_inv (snd (resend_join_ack env s ms))"
  by (simp add: resend_join_ack_def approve_enrollment_inv split: sum.split)

lemma handle_enrollment_inv:
  assumes inv: "server_inv ms"
  shows "server_inv (snd (handle_enrollment_request env msg ms))"
proof (cases "length (origin_mac msg) < 6 \<or> length (msg_public_key msg) \<noteq> 32")
  case True
  then show ?thesis using inv by (auto simp: handle_enrollment_request_def)
next
  case False
  let ?mac = "take 6 (origin_mac msg)" and ?pub = "msg_public_key msg"
  let ?ap = "add_pending (en_now env) ?mac ?pub (ms_auth ms)"
  let ?ms = "ms\<lparr> ms_auth := snd ?ap \<rparr>"
  have ok: "server_inv ?ms" using inv False add_pending_inv [of ?mac ?pub] by (simp add: server_inv_def)
  show ?thesis
  proof (cases "fst ?ap")
    case None
    have "core (snd (handle_enrollment_request env msg ms)) = core ?ms"
      using False None by (simp add: handle_enrollment_request_def Let_def case_prod_beta core_persist_auth
          core_write_kafka split: option.split)
    then show ?thesis by (rule server_inv_same [OF ok])
  next
    case (Some e)
    then have "snd (handle_enrollment_request env msg ms) = snd (resend_join_ack env (hex_encode ?mac) ?ms)"
      using False by (cases e) (simp add: handle_enrollment_request_def Let_def case_prod_beta)
    then show ?thesis using resend_inv [OF ok] by simp
  qed
qed

lemma handle_message_inv:
  assumes "server_inv ms"
  shows "server_inv (snd (handle_message env msg ms))"
proof -
  have "server_inv (snd (log_message_to_kafka env msg ''incoming'' ms))"
    by (rule server_inv_same [OF assms core_log])
  then show ?thesis using assms
    by (simp add: handle_message_def Let_def handle_adapter_inv handle_master_beacon_def
        handle_enrollment_inv handle_route_inv)
qed

lemma process_read_inv:
  assumes "server_inv ms"
  shows "server_inv (ps_server (process_read env l r k ms))"
proof (cases r)
  case (Inl e)
  then show ?thesis using assms by (simp add: process_read_def Let_def server_inv_def)
next
  case (Inr msg)
  then show ?thesis
    using handle_message_inv [OF server_inv_same [OF assms core_record_frame]] by (simp add: process_read_def)
qed

lemma check_offline_node_inv: "server_inv ms \<Longrightarrow> server_inv (check_offline_node env n ms)"
  by (simp add: check_offline_node_def publish_event_def server_inv_def)

lemma check_offline_inv: "server_inv ms \<Longrightarrow> server_inv (check_snapshot env ns ms)"
  unfolding check_snapshot_def by (rule fold_invariant_step) (simp_all add: check_offline_node_inv)

text \<open>The API operations that change a registry themselves.\<close>

lemma rename_inv:
  assumes inv: "server_inv ms" and n: "get_node_by_id i (ms_nodes ms) = Some n"
  shows "server_inv (ms\<lparr> ms_nodes := assign_node (ni_mac n) (ni_node_id n) name zone (ms_nodes ms) \<rparr>)"
proof -
  have uniq: "ids_unique (ms_nodes ms)" and reg: "node_registry_inv (ms_nodes ms)"
    using inv by (simp_all add: server_inv_def)
  obtain k where k: "map_of (ms_nodes ms) k = Some n" "active n"
    using get_node_by_id_Some [OF ids_unique_distinct [OF uniq] n] by (auto simp: active_def)
  have "j = mac_to_string (ni_mac n)"
    if "map_of (ms_nodes ms) j = Some n'" "active n'" "ni_node_id n' = ni_node_id n" "ni_node_id n \<noteq> 0" for j n'
    using ids_uniqueD [OF uniq that(1) k(1) that(2) k(2)] that node_registry_key [OF reg k(1)] by simp
  then have "ids_unique (assign_node (ni_mac n) (ni_node_id n) name zone (ms_nodes ms))"
    by (intro ids_unique_assign [OF uniq]) blast
  then show ?thesis using inv by (simp add: server_inv_def assign_node_inv)
qed

lemma v1_update_node_inv:
  assumes inv: "server_inv ms"
  shows "server_inv (snd (v1_update_node env s body ms))"
proof -
  have "core (snd (v1_update_node env s body ms)) = core ms \<or>
    (\<exists>i n name zone. get_node_by_id i (ms_nodes ms) = Some n \<and>
       core (snd (v1_update_node env s body ms)) =
         core (ms\<lparr> ms_nodes := assign_node (ni_mac n) (ni_node_id n) name zone (ms_nodes ms) \<rparr>))"
    by (auto simp: v1_update_node_def Let_def case_prod_beta core_configure split: option.splits)
  then show ?thesis using rename_inv [OF inv] server_inv_same [OF inv] server_inv_same by metis
qed

lemma v1_delete_node_inv: "server_inv ms \<Longrightarrow> server_inv (snd (v1_delete_node s ms))"
  by (auto simp: v1_delete_node_def server_inv_def remove_node_inv ids_unique_remove split: option.split)


lemma zone_ops_inv:
  "server_inv ms \<Longrightarrow> server_inv (snd (v1_create_zone name ms))"
  "server_inv ms \<Longrightarrow> server_inv (snd (v1_update_zone i name ms))"
  "server_inv ms \<Longrightarrow> server_inv (snd (v1_delete_zone i ms))"
  using zone_add_inv [of "ms_zones ms"] zone_update_inv [of "ms_zones ms" i] zone_delete_inv [of "ms_zones ms" i]
  by (auto simp: v1_create_zone_def v1_update_zone_def v1_delete_zone_def Let_def server_inv_def case_prod_beta
      split: option.splits sum.splits prod.splits zone_error.splits)

lemma v1_node_command_inv:
  assumes inv: "server_inv ms"
  shows "server_inv (snd (v1_node_command env out u s body ms))"
proof -
  have "core (snd (v1_node_command env out u s body ms)) = core ms \<or>
    (\<exists>c. cmd_status c = CommandStatusPending \<and> cmd_acked_at c = None \<and>
       core (snd (v1_node_command env out u s body ms)) =
         core (ms\<lparr> ms_commands := cmd_add c (ms_commands ms) \<rparr>))"
    by (auto simp: v1_node_command_def Let_def case_prod_beta core_send_node_data
        split: option.splits payload_result.splits intro!: exI)
  then show ?thesis
  proof
    assume "core (snd (v1_node_command env out u s body ms)) = core ms"
    then show ?thesis by (rule server_inv_same [OF inv])
  next
    assume "\<exists>c. cmd_status c = CommandStatusPending \<and> cmd_acked_at c = None \<and>
       core (snd (v1_node_command env out u s body ms)) =
         core (ms\<lparr> ms_commands := cmd_add c (ms_commands ms) \<rparr>)"
    then obtain c where c: "cmd_status c = CommandStatusPending" "cmd_acked_at c = None"
      and eq: "core (snd (v1_node_command env out u s body ms)) =
         core (ms\<lparr> ms_commands := cmd_add c (ms_commands ms) \<rparr>)" by blast
    have "server_inv (ms\<lparr> ms_commands := cmd_add c (ms_commands ms) \<rparr>)"
      using inv c by (simp add: server_inv_def cmds_ok_add)
    then show ?thesis by (rule server_inv_same [OF _ eq])
  qed
qed

lemma v1_zone_command_core: "core (snd (v1_zone_command env out i body ms)) = core ms"
  by (simp add: v1_zone_command_def case_prod_beta Let_def core_send_to_nodes split: option.split payload_result.split)

lemma v1_approve_core: "core (snd (v1_approve_enrollment env s b ms)) = core (snd (approve_enrollment env s b ms))"
  by (simp add: v1_approve_enrollment_def case_prod_beta Let_def core_configure split: option.split)

section \<open>Runs of the server\<close>

text \<open>
  One step is one operation, with any environment: an iteration of a receive loop while the
  context is not cancelled, a check by the offline detector of nodes it
  copied at any earlier time, a save of a save loop, or one API request.
\<close>

inductive server_step :: "mesh_server \<Rightarrow> mesh_server \<Rightarrow> bool" where
  sv_read: "\<not> ms_cancelled ms \<Longrightarrow> server_step ms (ps_server (process_read env l r k ms))"
| sv_offline: "server_step ms (check_snapshot env ns ms)"
| sv_save_auth: "server_step ms (save_auth env ms)"
| sv_save_nodes: "server_step ms (save_nodes env ms)"
| sv_approve: "server_step ms (snd (v1_approve_enrollment env s b ms))"
| sv_approve_legacy: "server_step ms (snd (approve_legacy env s b ms))"
| sv_reject: "server_step ms (snd (v1_reject_enrollment env s ms))"
| sv_reject_legacy: "server_step ms (snd (reject_legacy env s ms))"
| sv_update: "server_step ms (snd (v1_update_node env s ub ms))"
| sv_delete: "server_step ms (snd (v1_delete_node s ms))"
| sv_command: "server_step ms (snd (v1_node_command env out u s cb ms))"
| sv_zone_command: "server_step ms (snd (v1_zone_command env out s cb ms))"
| sv_create_zone: "server_step ms (snd (v1_create_zone n ms))"
| sv_update_zone: "server_step ms (snd (v1_update_zone s n ms))"
| sv_delete_zone: "server_step ms (snd (v1_delete_zone s ms))"
| sv_configure: "server_step ms (snd (configure_node_legacy env s t ms))"
| sv_configure_all: "server_step ms (snd (configure_all_legacy env t ms))"
| sv_request_health: "server_step ms (snd (request_health env ms))"
| sv_broadcast: "server_step ms (snd (broadcast_legacy env bb ms))"
| sv_tx_power: "server_step ms (snd (handle_set_tx_power env pr ms))"
| sv_start: "server_step ms (snd (start_server env o1 o2 ms))"
| sv_stop: "server_step ms (snd (stop_server env zo ms))"

lemma loops_are_server_runs:
  "server_step\<^sup>*\<^sup>* ms (snd (offline_detector_loop evs ms))"
  "server_step\<^sup>*\<^sup>* ms (snd (message_processor l reads k ms))"
proof -
  show "server_step\<^sup>*\<^sup>* ms (snd (offline_detector_loop evs ms))"
    by (induction evs ms rule: offline_detector_loop.induct)
      (auto simp: check_offline_nodes_def intro: sv_offline converse_rtranclp_into_rtranclp)
  show "server_step\<^sup>*\<^sup>* ms (snd (message_processor l reads k ms))"
    by (induction l reads k ms rule: message_processor.induct)
      (auto simp: Let_def intro: sv_read converse_rtranclp_into_rtranclp)
qed

lemma legacy_core:
  "core (snd (approve_legacy env s b ms)) = core (snd (approve_enrollment env s b ms))"
  "core (snd (reject_legacy env s ms)) = core (snd (reject_enrollment env s ms))"
  "core (snd (v1_reject_enrollment env s ms)) = core (snd (reject_enrollment env s ms))"
  by (simp_all add: approve_legacy_def reject_legacy_def v1_reject_enrollment_def case_prod_beta Let_def
      split: option.split)

lemma api_core [server_frame]:
  "core (snd (configure_node_legacy env s t ms)) = core ms"
  "core (snd (configure_all_legacy env t ms)) = core ms"
  "core (snd (request_health env ms)) = core ms"
  "core (snd (broadcast_legacy env bb ms)) = core ms"
  "core (snd (handle_set_tx_power env pr ms)) = core ms"
  by (simp_all add: configure_node_legacy_def configure_all_legacy_def request_health_def
      broadcast_legacy_def handle_set_tx_power_def case_prod_beta Let_def core_configure
      core_configure_all core_request_health core_broadcast core_set_tx split: option.split sum.split)

lemma start_server_core [server_frame]: "core (snd (start_server env o1 o2 ms)) = core ms"
  by (simp add: start_server_def case_prod_beta Let_def core_start split: option.split)

lemma stop_server_core [server_frame]: "core (snd (stop_server env zo ms)) = core ms"
proof -
  have "snd (stop_server env zo ms) = ms \<or> snd (stop_server env zo ms) = snd (stop env zo ms)"
    by (cases "stop env zo ms"; cases "fst (stop env zo ms)")
      (auto simp: stop_server_def split: option.split)
  then show ?thesis using core_stop [of env zo ms] by metis
qed

text \<open>The steps fall into those that keep the registries and the rest, each proved above.\<close>

lemma server_inv_frame:
  assumes "core ms' = core ms" and "server_inv ms"
  shows "server_inv ms'"
  using server_inv_same [OF assms(2,1)] .

lemmas frame_invs =
  core_configure [THEN server_inv_frame] api_core [THEN server_inv_frame]
  start_server_core [THEN server_inv_frame] stop_server_core [THEN server_inv_frame]
  v1_zone_command_core [THEN server_inv_frame] core_saves [THEN server_inv_frame]

lemma approval_invs:
  "server_inv ms \<Longrightarrow> server_inv (snd (v1_approve_enrollment env s b ms))"
  "server_inv ms \<Longrightarrow> server_inv (snd (approve_legacy env s b ms))"
  "server_inv ms \<Longrightarrow> server_inv (snd (v1_reject_enrollment env s ms))"
  "server_inv ms \<Longrightarrow> server_inv (snd (reject_legacy env s ms))"
  by (blast intro: server_inv_frame legacy_core v1_approve_core approve_enrollment_inv reject_enrollment_inv)+

lemma server_step_inv: "server_step ms ms' \<Longrightarrow> server_inv ms \<Longrightarrow> server_inv ms'"
  by (induction rule: server_step.induct)
    (simp_all only: process_read_inv check_offline_inv approval_invs v1_update_node_inv v1_delete_node_inv
      v1_node_command_inv zone_ops_inv frame_invs)

lemma server_run_inv: "server_step\<^sup>*\<^sup>* ms ms' \<Longrightarrow> server_inv ms \<Longrightarrow> server_inv ms'"
  by (induction rule: rtranclp_induct) (blast intro: server_step_inv)+


section \<open>Online and offline events\<close>

definition count_events :: "event_type \<Rightarrow> mesh_server \<Rightarrow> nat" where
  "count_events t ms = length [e \<leftarrow> ms_events ms. ev_type e = t]"

definition marked_online :: "mesh_server \<Rightarrow> nat" where
  "marked_online ms = length (filter snd (ms_online ms))"

definition balance :: "mesh_server \<Rightarrow> int" where
  "balance ms = int (count_events EventNodeOnline ms) - int (count_events EventNodeOffline ms)
     - int (marked_online ms)"

text \<open>The part of the state the balance depends on, and the operations that leave it alone.\<close>

definition edge :: "mesh_server \<Rightarrow> (string, bool) gomap \<times> event list" where
  "edge ms = (ms_online ms, edges ms)"

lemma core_edge: "core a = core b \<Longrightarrow> edge a = edge b"
  by (simp add: core_eq_iff edge_def)

lemma count_edges:
  "count_events EventNodeOnline ms = length [e \<leftarrow> edges ms. ev_type e = EventNodeOnline]"
  "count_events EventNodeOffline ms = length [e \<leftarrow> edges ms. ev_type e = EventNodeOffline]"
  by (simp_all add: count_events_def edges_def conj_disj_distribR) (metis event_type.distinct)+

lemma balance_edge: "edge a = edge b \<Longrightarrow> balance a = balance b"
  by (simp add: balance_def edge_def count_edges marked_online_def)

lemma edge_updates:
  "edge (ms\<lparr> ms_nodes := nr \<rparr>) = edge ms" "edge (ms\<lparr> ms_auth := r \<rparr>) = edge ms"
  "edge (ms\<lparr> ms_commands := cs \<rparr>) = edge ms" "edge (ms\<lparr> ms_zones := zr \<rparr>) = edge ms"
  "edge (ms\<lparr> ms_gauge := g \<rparr>) = edge ms"
  by (simp_all add: edge_def edges_def)

lemmas edge_frame = server_frame [THEN core_edge]

lemma edge_publish:
  "t \<noteq> EventNodeOnline \<Longrightarrow> t \<noteq> EventNodeOffline \<Longrightarrow> edge (publish_event env t d ms) = edge ms"
  by (rule core_edge [OF core_publish])

lemma edge_approve: "edge (snd (approve_enrollment env s p ms)) = edge ms"
  by (simp add: approve_enrollment_def case_prod_beta Let_def edge_frame edge_updates
      split: sum.split option.split)

lemma edge_reject: "edge (snd (reject_enrollment env s ms)) = edge ms"
  by (simp add: reject_enrollment_def case_prod_beta Let_def edge_frame edge_updates
      split: sum.split option.split)

lemma edge_enroll: "edge (snd (handle_enrollment_request env msg ms)) = edge ms"
  by (simp add: handle_enrollment_request_def case_prod_beta Let_def edge_frame edge_updates
      resend_join_ack_def edge_approve split: option.split add_error.split sum.split)

lemma edge_pir: "edge (snd (handle_pir_data env msg ms)) = edge ms"
  by (simp add: handle_pir_data_def Let_def edge_frame split: option.split)

lemma edge_route: "edge (snd (handle_route_report env msg ms)) = edge ms"
  by (simp add: handle_route_report_def Let_def edge_publish edge_updates split: option.split)

lemma edge_ack: "edge (handle_command_ack env msg ms) = edge ms"
  by (simp add: handle_command_ack_def Let_def case_prod_beta edge_publish edge_updates split: option.split)

lemma edge_update_node: "edge (snd (v1_update_node env s body ms)) = edge ms"
  by (auto simp: v1_update_node_def Let_def case_prod_beta edge_frame edge_updates split: option.split)

lemma edge_delete: "edge (snd (v1_delete_node s ms)) = edge ms"
  by (simp add: v1_delete_node_def edge_updates split: option.split)

lemma edge_command: "edge (snd (v1_node_command env out u s body ms)) = edge ms"
  by (simp add: v1_node_command_def Let_def case_prod_beta edge_frame edge_updates
      split: option.split payload_result.split)

lemma edge_zone_ops:
  "edge (snd (v1_create_zone name ms)) = edge ms" "edge (snd (v1_update_zone i name ms)) = edge ms"
  "edge (snd (v1_delete_zone i ms)) = edge ms"
  by (simp_all add: v1_create_zone_def v1_update_zone_def v1_delete_zone_def case_prod_beta Let_def
      edge_updates split: option.split prod.split sum.split zone_error.split)

lemmas balance_frames =
  edge_approve [THEN balance_edge] edge_reject [THEN balance_edge] edge_enroll [THEN balance_edge]
  edge_pir [THEN balance_edge] edge_route [THEN balance_edge] edge_ack [THEN balance_edge]
  edge_update_node [THEN balance_edge] edge_delete [THEN balance_edge] edge_command [THEN balance_edge]
  edge_zone_ops [THEN balance_edge] edge_frame [THEN balance_edge] edge_updates [THEN balance_edge]
  v1_zone_command_core [THEN core_edge, THEN balance_edge]
  v1_approve_core [THEN core_edge, THEN balance_edge] legacy_core [THEN core_edge, THEN balance_edge]

text \<open>Marking a node moves the count of marked nodes by one, exactly when an event is published.\<close>

lemma filter_snd_update_True:
  "map_of m k \<noteq> Some True \<Longrightarrow> length (filter snd (AList.update k True m)) = Suc (length (filter snd m))"
  by (induction m) (auto split: if_splits)

lemma filter_snd_update_False:
  "map_of m k = Some True \<Longrightarrow> Suc (length (filter snd (AList.update k False m))) = length (filter snd m)"
  by (induction m) (auto split: if_splits)

lemma balance_publish_health: "balance (publish_health_event env n ms) = balance ms"
  by (simp add: publish_health_event_def Let_def publish_event_def balance_def count_events_def
      marked_online_def filter_snd_update_True)

lemma balance_check_node: "balance (check_offline_node env n ms) = balance ms"
  using filter_snd_update_False [of "ms_online ms" "ni_mac_string n"]
  by (auto simp: check_offline_node_def publish_event_def balance_def count_events_def marked_online_def)

lemma balance_check: "balance (check_snapshot env ns ms) = balance ms"
  unfolding check_snapshot_def
  by (rule fold_invariant_step [where I = "\<lambda>s. balance s = balance ms"]) (simp_all add: balance_check_node)

lemma balance_health: "balance (snd (handle_health_report env msg ms)) = balance ms"
  by (simp add: handle_health_report_def Let_def balance_publish_health balance_frames
      split: sum.split option.split)

lemma balance_message: "balance (snd (handle_message env msg ms)) = balance ms"
  by (simp add: handle_message_def handle_adapter_data_def handle_serial_data_def handle_master_beacon_def
      Let_def balance_health balance_frames)

lemma balance_read: "balance (ps_server (process_read env l r k ms)) = balance ms"
  by (simp add: process_read_def Let_def balance_message balance_frames split: sum.split)

lemma balance_step: "server_step ms ms' \<Longrightarrow> balance ms' = balance ms"
  by (induction rule: server_step.induct) (simp_all only: balance_read balance_check balance_frames)

lemma balance_run: "server_step\<^sup>*\<^sup>* ms ms' \<Longrightarrow> balance ms' = balance ms"
  by (induction rule: rtranclp_induct) (simp_all add: balance_step)

end
