(* ===== verification/Server_Claims.thy ===== *)
theory Server_Claims
  imports Server_Props
begin

text \<open>
  The properties of the mesh server over its runs: balanced online/offline events, no trust granted by
  the radio side, and what a stop, a missing event store or a noisy link do to it.
\<close>

section \<open>A hub that starts empty\<close>

definition empty_config :: server_config where
  "empty_config = \<lparr> cf_serial_port = ''/dev/ttyUSB0'', cf_secondary_port = [], cf_baud_rate = 115200, cf_health_timeout = 75 * second, cf_store = None,
     cf_auth_path = [], cf_node_path = [], cf_zone_path = [], cf_master_key_path = [],
     cf_master_mac = zero_bytes 6, cf_secondary_key_path = [], cf_secondary_mac = zero_bytes 6 \<rparr>"

abbreviation no_key :: "key_error + master_keypair" where
  "no_key \<equiv> Inl CorruptedKeyFile"

definition quiet_env :: "time \<Rightarrow> env" where
  "quiet_env now = \<lparr> en_now = now, en_frame_err = (\<lambda>l m. None), en_enqueue = (\<lambda>d t. None),
     en_auth_write = Written, en_node_mkdir = None, en_node_write = Written, en_uuid = (\<lambda>s. None) \<rparr>"

lemma new_server_inv:
  assumes "new_mesh_server cf Missing Missing Missing k k2 = Ret ms"
  shows "server_inv ms"
  using assms
  by (auto simp: new_mesh_server_def Let_def auth_load_def nodes_load_def zones_load_def read_entries_def
      load_table_def new_auth_registry_def new_node_registry_def new_zone_registry_def server_inv_def
      new_command_store_def ids_unique_def cmds_ok_def split: if_splits)

lemma empty_hub: "\<exists>ms. new_mesh_server empty_config Missing Missing Missing no_key no_key = Ret ms \<and> \<not> ms_running ms \<and>
    ms_nodes ms = [] \<and> ms_auth ms = [] \<and> ms_events ms = [] \<and> ms_online ms = [] \<and> ms_tx ms = [] \<and>
    ms_store ms = None \<and> ms_health_timeout ms = 75 * second \<and> ms_secondary_port ms = [] \<and>
    \<not> ms_secondary_comm ms \<and> \<not> ms_stop_persist_closed ms \<and> \<not> ms_cancelled ms \<and>
    ms_node_path ms = [] \<and> ms_zone_path ms = [] \<and> ms_auth_path ms = [] \<and> \<not> ms_gauge ms"
  by (simp add: new_mesh_server_def empty_config_def Let_def new_auth_registry_def new_node_registry_def)

lemma balance_empty:
  "ms_events ms = [] \<Longrightarrow> ms_online ms = [] \<Longrightarrow> balance ms = 0"
  by (simp add: balance_def count_events_def marked_online_def)

section \<open>Properties\<close>

text \<open>
  C10. Online and offline events are edge-triggered: over every run from an empty hub, the
  number of \<open>node_online\<close> events minus the number of \<open>node_offline\<close> events published is the
  number of nodes currently marked online. No transition is announced twice or forgotten, and
  there are never more offline than online announcements.
\<close>

theorem online_events_balanced:
  assumes "ms_events ms = []" and "ms_online ms = []" and "server_step\<^sup>*\<^sup>* ms ms'"
  shows "count_events EventNodeOnline ms' =
         count_events EventNodeOffline ms' + length [e \<leftarrow> ms_online ms'. snd e]"
  using balance_run [OF assms(3)] balance_empty [OF assms(1,2)]
  by (simp add: balance_def marked_online_def)

text \<open>The empty hub, a health report of the node 00:00:00:00:00:01, and what the hub does with it.\<close>

definition empty_server :: mesh_server where
  "empty_server = (case new_mesh_server empty_config Missing Missing Missing no_key no_key of Ret ms \<Rightarrow> ms)"

definition uptime_report :: mesh_message where
  "uptime_report = zero_message\<lparr> proto_version := 5, message_type := MessageTypeAdapterData,
     data_type := AdapterTypeSerial, msg_data := [OpHealthReport, 2, 0, 0, 0, 0, 0, 1, 9, 0, 0, 0] \<rparr>"

theorem online_events_balanced_witness:
  "let ms1 = ps_server (process_read (quiet_env 5) Primary (Inr uptime_report) 0 empty_server);
       ms2 = check_offline_nodes (quiet_env (200 * second)) ms1
   in count_events EventNodeOnline ms1 = 1 \<and>
      1 = count_events EventNodeOffline ms1 + length [e \<leftarrow> ms_online ms1. snd e] \<and>
      count_events EventNodeOnline ms2 = count_events EventNodeOffline ms2 \<and> count_events EventNodeOffline ms2 = 1"
proof -
  let ?ms1 = "ps_server (process_read (quiet_env 5) Primary (Inr uptime_report) 0 empty_server)"
  let ?ms2 = "check_offline_nodes (quiet_env (200 * second)) ?ms1"
  have e: "ms_events empty_server = []" "ms_online empty_server = []" "\<not> ms_cancelled empty_server"
    using empty_hub by (auto simp: empty_server_def)
  have one: "server_step\<^sup>*\<^sup>* empty_server ?ms1" by (rule r_into_rtranclp, rule sv_read, rule e(3))
  have two: "server_step\<^sup>*\<^sup>* empty_server ?ms2"
    unfolding check_offline_nodes_def by (rule rtranclp.rtrancl_into_rtrancl [OF one sv_offline])
  have on: "count_events EventNodeOnline ?ms1 = 1" by code_simp
  have off: "count_events EventNodeOffline ?ms2 = 1" "length [e \<leftarrow> ms_online ?ms2. snd e] = 0" by code_simp+
  show ?thesis
    using online_events_balanced [OF e(1,2) one] online_events_balanced [OF e(1,2) two] on off by (simp add: Let_def)
qed

text \<open>
  The announcements are balanced but can be wrong: a detector that copied a node just before its
  report arrived announces it offline, although the registry has seen it at this very moment.
\<close>

lemma stale_check_announces_offline:
  assumes r: "parse_health_report msg = Inr r"
    and old: "get_node (hr_mac r) (ms_nodes ms) = Some n" "ni_mac_string n = mac_to_string (hr_mac r)"
    and late: "ms_health_timeout ms < since (en_now env) (ni_last_seen n)"
  defines "ms1 \<equiv> snd (handle_health_report env msg ms)"
  shows "map_option ni_last_seen (get_node (hr_mac r) (ms_nodes ms1)) = Some (en_now env) \<and>
     map_of (ms_online ms1) (ni_mac_string n) = Some True \<and>
     count_events EventNodeOffline (check_snapshot env [n] ms1) = count_events EventNodeOffline ms1 + 1 \<and>
     map_of (ms_online (check_snapshot env [n] ms1)) (ni_mac_string n) = Some False"
proof -
  let ?n = "n\<lparr> ni_adapter_type := hr_adapter_type r, ni_uptime := hr_uptime r, ni_last_seen := en_now env,
      ni_hop_count := hr_hop_count r \<rparr>"
  let ?nr = "update_node (en_now env) (hr_mac r) (hr_adapter_type r) (hr_uptime r) (hr_hop_count r) (ms_nodes ms)"
  have n: "map_of ?nr (mac_to_string (hr_mac r)) = Some ?n"
    using old(1) by (simp add: lookup_update_node get_node_def)
  then have ms1: "ms1 = publish_health_event env ?n (ms\<lparr> ms_nodes := ?nr \<rparr>)"
    by (simp add: ms1_def handle_health_report_def r get_node_def)
  have fields: "ms_nodes ms1 = ?nr" "ms_health_timeout ms1 = ms_health_timeout ms"
    "map_of (ms_online ms1) (ni_mac_string n) = Some True"
    by (simp_all add: ms1 publish_health_event_def publish_event_def Let_def update_conv)
  moreover have "check_snapshot env [n] ms1 = check_offline_node env n ms1" by (simp add: check_snapshot_def)
  ultimately show ?thesis
    using n late by (simp add: check_offline_node_def publish_event_def count_events_def get_node_def update_conv)
qed

lemma auth_core: "core a = core b \<Longrightarrow> ms_auth a = ms_auth b"
  by (simp add: core_eq_iff)

lemmas auth_frame = server_frame [THEN auth_core]

lemma approve_auth:
  "ms_auth (snd (approve_enrollment env s p ms)) = snd (approve (en_now env) s (ms_auth ms))"
  by (simp add: approve_enrollment_def case_prod_beta Let_def auth_frame approve_def split: sum.split option.split)

lemma resend_auth:
  "ms_auth (snd (resend_join_ack env s ms)) = ms_auth ms \<or>
   ms_auth (snd (resend_join_ack env s ms)) = snd (approve (en_now env) s (ms_auth ms))"
  by (simp add: resend_join_ack_def approve_auth split: sum.split)

lemma approved_other:
  "map_of r' (auth_mac_to_string m) = map_of r (auth_mac_to_string m) \<Longrightarrow>
     get_approved_public_key m r' = get_approved_public_key m r"
  by (simp add: get_approved_public_key_def)

lemma add_pending_other:
  "auth_mac_to_string m' \<noteq> auth_mac_to_string m \<Longrightarrow>
     map_of (snd (add_pending now m pub r)) (auth_mac_to_string m') = map_of r (auth_mac_to_string m')"
  by (simp add: add_pending_def Let_def gm.lookup_put split: option.split)

lemma add_pending_self:
  "get_approved_public_key m (snd (add_pending now m pub r)) =
     (if get_approved_public_key m r = Some pub then Some pub else None)"
  by (cases "map_of r (auth_mac_to_string m)")
    (simp_all add: get_approved_public_key_def add_pending_def Let_def gm.lookup_put hub_simps)

lemma approve_other:
  "auth_key s \<noteq> auth_mac_to_string m' \<Longrightarrow>
     map_of (snd (approve now s r)) (auth_mac_to_string m') = map_of r (auth_mac_to_string m')"
  by (auto simp: approve_def Let_def gm.lookup_put split: option.split)

lemma auth_string_ne: "length m = 6 \<Longrightarrow> length m' = 6 \<Longrightarrow> m' \<noteq> m \<Longrightarrow> auth_mac_to_string m' \<noteq> auth_mac_to_string m"
  using auth_codec.show_inj by blast

lemma add_pending_no_trust:
  assumes "length m = 6" and "length m' = 6"
    and "get_approved_public_key m' (snd (add_pending now m pub r)) = Some pk"
  shows "get_approved_public_key m' r = Some pk"
proof (cases "m' = m")
  case True
  then show ?thesis using assms(3) add_pending_self [of m now pub r] by (auto split: if_splits)
next
  case False
  then show ?thesis
    using assms(3) approved_other [OF add_pending_other [OF auth_string_ne [OF assms(1,2) False]]] by simp
qed

lemma auth_key_hex: "length m = 6 \<Longrightarrow> auth_key (hex_encode m) = auth_mac_to_string m"
proof -
  assume len: "length m = 6"
  have "parse_mac (hex_encode m) = Inr m"
    using len scan_six_hex_decode [of "hex_encode m"]
    by (cases "scan_colon_hex 6 (hex_encode m)") (auto simp: parse_mac_def hex_decode_encode)
  then show ?thesis by (simp add: auth_key_def auth_codec.normalise_parse)
qed

lemma same_key_approve:
  assumes e: "fst (add_pending now m pub r) = Some AlreadyApprovedSameKey" and len: "length m = 6"
    and g: "get_approved_public_key m' (snd (approve now (hex_encode m) (snd (add_pending now m pub r)))) = Some pk"
    and len': "length m' = 6"
  shows "get_approved_public_key m' r = Some pk"
proof (cases "m' = m")
  case False
  note ne = auth_string_ne [OF len len' False]
  have "auth_key (hex_encode m) \<noteq> auth_mac_to_string m'" using ne auth_key_hex [OF len] by metis
  from g approved_other [OF approve_other [OF this]] approved_other [OF add_pending_other [OF ne]]
  show ?thesis by simp
next
  case True
  obtain n where n: "map_of r (auth_mac_to_string m) = Some n" "na_status n = TrustApproved" "na_public_key n = pub"
    using e by (auto simp: add_pending_def Let_def split: option.splits if_splits)
  have "map_of (snd (add_pending now m pub r)) (auth_mac_to_string m) = Some (n\<lparr> na_received_at := now \<rparr>)"
    using n by (simp add: add_pending_def Let_def gm.lookup_put)
  then have "get_approved_public_key m (snd (approve now (hex_encode m) (snd (add_pending now m pub r)))) = Some pub"
    using n by (simp add: approve_def Let_def auth_key_hex [OF len] gm.lookup_put get_approved_public_key_def)
  then show ?thesis using g n True by (simp add: get_approved_public_key_def)
qed

lemma enrollment_no_trust:
  assumes "length m = 6" and "get_approved_public_key m (ms_auth (snd (handle_enrollment_request env msg ms))) = Some pk"
  shows "get_approved_public_key m (ms_auth ms) = Some pk"
proof (cases "length (origin_mac msg) < 6 \<or> length (msg_public_key msg) \<noteq> 32")
  case True
  then have "snd (handle_enrollment_request env msg ms) = ms" by (auto simp: handle_enrollment_request_def)
  then show ?thesis using assms by simp
next
  case False
  let ?mac = "take 6 (origin_mac msg)" and ?pub = "msg_public_key msg"
  let ?ap = "add_pending (en_now env) ?mac ?pub (ms_auth ms)"
  have len: "length ?mac = 6" using False by simp
  show ?thesis
  proof (cases "fst ?ap")
    case None
    then have "ms_auth (snd (handle_enrollment_request env msg ms)) = snd ?ap"
      using False by (simp add: handle_enrollment_request_def Let_def case_prod_beta auth_frame split: option.split)
    then show ?thesis using assms add_pending_no_trust [OF len assms(1)] by metis
  next
    case (Some e)
    then have s: "snd (handle_enrollment_request env msg ms) =
        snd (resend_join_ack env (hex_encode ?mac) (ms\<lparr> ms_auth := snd ?ap \<rparr>))"
      using False by (cases e) (simp add: handle_enrollment_request_def Let_def case_prod_beta)
    have e: "fst ?ap = Some AlreadyApprovedSameKey" using Some by (cases e) simp
    from resend_auth [of env "hex_encode ?mac" "ms\<lparr> ms_auth := snd ?ap \<rparr>"] s
    have "ms_auth (snd (handle_enrollment_request env msg ms)) = snd ?ap \<or>
        ms_auth (snd (handle_enrollment_request env msg ms)) = snd (approve (en_now env) (hex_encode ?mac) (snd ?ap))"
      by auto
    then show ?thesis
      using assms add_pending_no_trust [OF len assms(1)] same_key_approve [OF e len _ assms(1)] by metis
  qed
qed

lemma auth_others:
  "ms_auth (snd (handle_adapter_data env msg ms)) = ms_auth ms"
  "ms_auth (snd (handle_route_report env msg ms)) = ms_auth ms"
  by (simp_all add: handle_adapter_data_def handle_serial_data_def handle_health_report_def handle_pir_data_def
      handle_command_ack_def handle_route_report_def publish_health_event_def publish_event_def Let_def case_prod_beta
      auth_frame split: sum.split option.split)


text \<open>A hub with a link that trusts a node, and the frame with which the node asks again.\<close>

definition trusting_server :: mesh_server where
  "trusting_server = empty_server\<lparr> ms_serial_comm := True,
     ms_auth := [(auth_mac_to_string (zero_bytes 6), \<lparr> na_mac = zero_bytes 6,
       na_mac_string = auth_mac_to_string (zero_bytes 6), na_public_key = zero_bytes 32,
       na_status = TrustApproved, na_received_at = 1, na_approved_at = 2 \<rparr>)] \<rparr>"

definition offer_msg :: mesh_message where
  "offer_msg = zero_message\<lparr> proto_version := 5, message_type := MessageTypeEnrollment,
     origin_mac := zero_bytes 6, msg_public_key := zero_bytes 32 \<rparr>"



lemma start_succeeds:
  "\<not> ms_running ms \<Longrightarrow> fst (start env None o2 ms) = None \<and> ms_running (snd (start env None o2 ms)) \<and>
     ms_stop_persist_closed (snd (start env None o2 ms)) = ms_stop_persist_closed ms \<and>
     ms_cancelled (snd (start env None o2 ms)) = ms_cancelled ms \<and>
     ms_node_path (snd (start env None o2 ms)) = ms_node_path ms"
  by (simp add: start_def Let_def record_frame_def split: option.split)

text \<open>
  C37. A hub that was stopped cannot be started again: \<open>Start\<close> after \<open>Stop\<close> reports success, but
  the context stays cancelled, so no frame is processed on any link, and the next \<open>Stop\<close> panics
  on the closed channel. The API offers exactly this sequence.
\<close>

theorem restart_is_broken:
  assumes run: "ms_running ms" and first: "\<not> ms_stop_persist_closed ms"
    and stop: "ms_node_path ms = [] \<or> \<not> ms_stop_node_closed ms"
  shows "let (r1, ms1) = stop env zone_out ms;
             (r2, ms2) = start env None open2 ms1
         in r1 = Ret None \<and> r2 = None \<and> ms_running ms2 \<and>
            (\<forall>l reads k. message_processor l reads k ms2 = (k, ms2)) \<and>
            fst (stop env zone_out ms2) = Panic ''close of closed channel'' \<and>
            fst (stop_server env zone_out ms2) = Crash ''close of closed channel''"
proof -
  have parts: "ms_stop_persist_closed (finish_loops env (close_links (save_zones z m))) = ms_stop_persist_closed m"
    "ms_cancelled (finish_loops env (close_links (save_zones z m))) = ms_cancelled m"
    "ms_running (finish_loops env (close_links (save_zones z m))) = ms_running m" for z m
    by (simp_all add: finish_loops_def save_auth_def save_nodes_def close_links_def save_zones_def Let_def)
  obtain ms1 where s1: "stop env zone_out ms = (Ret None, ms1)"
    and f1: "ms_stop_persist_closed ms1" "ms_cancelled ms1" "\<not> ms_running ms1"
    using assms by (auto simp: stop_def cancel_server_def Let_def parts)
  obtain ms2 where s2: "start env None open2 ms1 = (None, ms2)"
    and f2: "ms_stop_persist_closed ms2" "ms_cancelled ms2" "ms_running ms2"
    using start_succeeds [of ms1 env open2] f1 by (cases "start env None open2 ms1") auto
  have proc: "message_processor l reads k ms2 = (k, ms2)" for l reads k
    by (cases "(l, reads, k, ms2)" rule: message_processor.cases) (auto simp: f2)
  have panic: "stop env zone_out ms2 = (Panic ''close of closed channel'', cancel_server ms2)"
    using f2 by (simp add: stop_def cancel_server_def Let_def)
  show ?thesis using f2 by (simp add: s1 s2 proc panic stop_server_def)
qed

theorem restart_is_broken_witness:
  "\<exists>ms. fst (start (quiet_env 5) None None ms) = None \<and>
        fst (stop (quiet_env 6) Written (snd (start (quiet_env 5) None None ms))) = Ret None"
proof -
  obtain ms :: mesh_server where ms: "\<not> ms_running ms" "\<not> ms_stop_persist_closed ms" "ms_node_path ms = []"
    using empty_hub by blast
  let ?ms = "snd (start (quiet_env 5) None None ms)"
  have f: "ms_running ?ms" "\<not> ms_stop_persist_closed ?ms" "ms_node_path ?ms = []" "fst (start (quiet_env 5) None None ms) = None"
    using ms start_succeeds [of ms "quiet_env 5" None] by auto
  show ?thesis
    using restart_is_broken [of ?ms "quiet_env 6" Written None] f
    by (intro exI [of _ ms]) (simp add: case_prod_beta Let_def)
qed

lemma gauge_publish [simp]: "ms_gauge (publish_event env t d ms) = ms_gauge ms"
  by (simp add: publish_event_def)

lemma gauge_effects [simp]:
  "ms_gauge (snd (write_kafka env d t st ms)) = ms_gauge ms"
  "ms_gauge (snd (log_message_to_kafka env msg dir ms)) = ms_gauge ms"
  "ms_gauge (snd (write_active env m ms)) = ms_gauge ms"
  "ms_gauge (snd (write_link env l m ms)) = ms_gauge ms"
  "ms_gauge (snd (persist_auth env ms)) = ms_gauge ms"
  "ms_gauge (record_frame now l ms) = ms_gauge ms"
  by (simp_all add: write_kafka_def record_kafka_write_def case_prod_beta Let_def log_message_to_kafka_def
      write_active_def write_link_def persist_auth_def record_frame_def split: option.split link.split)

lemma gauge_approve [simp]: "ms_gauge (snd (approve_enrollment env s p ms)) = ms_gauge ms"
  by (simp add: approve_enrollment_def send_approval_frames_def publish_enrolled_event_def case_prod_beta Let_def
      split: sum.split option.split)

lemma gauge_updates [simp]:
  "ms_gauge (ms\<lparr> ms_nodes := nr \<rparr>) = ms_gauge ms" "ms_gauge (ms\<lparr> ms_auth := r \<rparr>) = ms_gauge ms"
  "ms_gauge (ms\<lparr> ms_commands := cs \<rparr>) = ms_gauge ms"
  by simp_all

lemma gauge_health: "ms_gauge (snd (handle_health_report env msg ms)) = ms_gauge ms"
  by (simp add: handle_health_report_def publish_health_event_def Let_def split: sum.split option.split)

lemma gauge_pir: "ms_gauge (snd (handle_pir_data env msg ms)) = ms_gauge ms"
  by (simp add: handle_pir_data_def publish_motion_event_def Let_def split: option.split)

lemma gauge_ack: "ms_gauge (handle_command_ack env msg ms) = ms_gauge ms"
  by (simp add: handle_command_ack_def Let_def case_prod_beta split: option.split)

lemma gauge_route: "ms_gauge (snd (handle_route_report env msg ms)) = ms_gauge ms"
  by (simp add: handle_route_report_def Let_def split: option.split)

lemma gauge_enroll: "ms_gauge (snd (handle_enrollment_request env msg ms)) = ms_gauge ms"
  by (simp add: handle_enrollment_request_def resend_join_ack_def Let_def case_prod_beta
      split: sum.split option.split add_error.split)

lemma gauge_message: "ms_gauge (snd (handle_message env msg ms)) = ms_gauge ms"
  by (simp add: handle_message_def handle_adapter_data_def handle_serial_data_def handle_master_beacon_def
      Let_def gauge_health gauge_pir gauge_ack gauge_route gauge_enroll)

lemma gauge_stays_down:
  "\<not> ms_gauge ms \<Longrightarrow> \<not> ms_gauge (snd (message_processor l reads k ms))"
proof (induction l reads k ms rule: message_processor.induct)
  case (1 l k ms)
  then show ?case by simp
next
  case (2 l env r rs k ms)
  have "\<not> ms_gauge (ps_server (process_read env l r k ms))"
    using "2.prems" by (cases r) (simp_all add: process_read_def Let_def gauge_message)
  with 2 show ?case by (simp add: Let_def)
qed

lemma error_burst:
  assumes "\<forall>r \<in> set es. \<exists>e. snd r = Inl e" and "length es + k = 6" and "es \<noteq> []" and "\<not> ms_cancelled ms"
  shows "\<not> ms_gauge (snd (message_processor Primary (es @ rest) k ms))"
  using assms
proof (induction es arbitrary: k ms)
  case Nil
  then show ?case by simp
next
  case (Cons r es)
  obtain env e where r: "r = (env, Inl e)" using Cons.prems(1) by (cases r) auto
  show ?case
  proof (cases "es = []")
    case True
    then have "\<not> ms_gauge (ps_server (process_read env Primary (Inl e) k ms))"
      using Cons.prems(2) by (simp add: process_read_def Let_def max_consecutive_errors_def)
    then show ?thesis using gauge_stays_down Cons.prems(4) True by (simp add: r Let_def)
  next
    case False
    then have "k + 1 \<noteq> max_consecutive_errors + 1"
      using Cons.prems(2) by (cases es) (auto simp: max_consecutive_errors_def)
    then have "process_read env Primary (Inl e) k ms = \<lparr> ps_errors = k + 1, ps_flush = (k + 1 = 10), ps_server = ms \<rparr>"
      by (simp add: process_read_def Let_def)
    then show ?thesis
      using Cons.IH [of "k + 1" ms] Cons.prems False by (simp add: r Let_def)
  qed
qed

text \<open>
  C38. A noisy primary link is reported down for good: after six consecutive read errors the
  gauge \<open>mesh_serial_connected\<close> drops to 0, the buffer is flushed at the tenth, and although the
  error counter resets with the next good frame, no number of good frames sets the gauge again.
\<close>
theorem serial_gauge_never_recovers:
  assumes "\<not> ms_cancelled ms" and "length es = 6" and "\<forall>r \<in> set es. \<exists>e. snd r = Inl e"
  shows "\<not> ms_gauge (snd (message_processor Primary (es @ good) 0 ms))"
  by (rule error_burst) (use assms in auto)

theorem serial_gauge_never_recovers_witness:
  "\<exists>ms. ms_gauge ms \<and> \<not> ms_gauge (snd (message_processor Primary
      (replicate 6 (quiet_env 5, Inl ''EOF'') @ [(quiet_env 6, Inr zero_message)]) 0 ms))"
proof -
  obtain ms :: mesh_server where ms: "\<not> ms_cancelled ms"
    using empty_hub by blast
  have "\<not> ms_gauge (snd (message_processor Primary
      (replicate 6 (quiet_env 5, Inl ''EOF'') @ [(quiet_env 6, Inr zero_message)]) 0 (ms\<lparr> ms_gauge := True \<rparr>)))"
    by (rule serial_gauge_never_recovers) (use ms in auto)
  then show ?thesis by (intro exI [of _ "ms\<lparr> ms_gauge := True \<rparr>"]) simp
qed

text \<open>
  Without an event store a motion report is lost: \<open>handlePIRData\<close> returns before it reaches
  the live event, so no motion event is published and the state does not change at all; with a
  store, the same report of a known node publishes exactly one motion event, even when the write
  to Kafka fails.
\<close>

theorem motion_needs_event_store:
  assumes "proto_version msg = 5" and "message_type msg = MessageTypeAdapterData"
    and "data_type msg = AdapterTypePIR" and "get_node (origin_mac msg) (ms_nodes ms) = Some n"
  shows "(ms_store ms = None \<longrightarrow> snd (handle_message env msg ms) = ms) \<and>
         (ms_store ms \<noteq> None \<longrightarrow>
            count_events EventMotion (snd (handle_message env msg ms)) = Suc (count_events EventMotion ms))"
proof -
  have ne: "data_type msg \<noteq> AdapterTypeSerial" using assms(3) by (simp add: wire_consts)
  have nodes: "ms_nodes (snd (write_kafka env d t st m)) = ms_nodes m"
    "ms_events (snd (write_kafka env d t st m)) = ms_events m"
    "ms_store (snd (write_kafka env d t st m)) \<noteq> None" for d t st m
    by (simp_all add: write_kafka_def record_kafka_write_def case_prod_beta Let_def)
  have none: "snd (handle_message env msg ms) = ms" if "ms_store ms = None"
    using assms ne that by (simp add: handle_message_def log_message_to_kafka_def handle_adapter_data_def handle_pir_data_def Let_def)
  have some: "count_events EventMotion (snd (handle_message env msg ms)) = Suc (count_events EventMotion ms)"
    if st: "ms_store ms = Some st" for st
  proof -
    let ?ms1 = "snd (log_message_to_kafka env msg ''incoming'' ms)"
    have l: "ms_nodes ?ms1 = ms_nodes ms" "ms_events ?ms1 = ms_events ms" "ms_store ?ms1 \<noteq> None"
      using st by (simp_all add: log_message_to_kafka_def Let_def nodes)
    then obtain st1 where st1: "ms_store ?ms1 = Some st1" by blast
    have h: "snd (handle_message env msg ms) = snd (handle_pir_data env msg ?ms1)"
      using assms ne by (simp add: handle_message_def handle_adapter_data_def Let_def)
    show ?thesis unfolding h
      using assms(4) l(1,2) by (simp add: handle_pir_data_def Let_def st1 nodes publish_motion_event_def
          publish_event_def count_events_def)
  qed
  show ?thesis using none some by auto
qed

theorem motion_needs_event_store_witness:
  "\<exists>ms n. get_node (zero_bytes 6) (ms_nodes ms) = Some n \<and>
     snd (handle_message (quiet_env 9) (zero_message\<lparr> proto_version := 5, message_type := MessageTypeAdapterData,
        data_type := AdapterTypePIR, origin_mac := zero_bytes 6 \<rparr>) ms) = ms"
proof -
  obtain ms :: mesh_server where ms: "ms_store ms = None"
    using empty_hub by blast
  let ?ms = "ms\<lparr> ms_nodes := assign_node (zero_bytes 6) 1 [] [] [] \<rparr>"
  obtain n where n: "get_node (zero_bytes 6) (ms_nodes ?ms) = Some n"
    unfolding get_node_def by (simp add: lookup_assign_node)
  show ?thesis
    using motion_needs_event_store [of "zero_message\<lparr> proto_version := 5, message_type := MessageTypeAdapterData,
        data_type := AdapterTypePIR, origin_mac := zero_bytes 6 \<rparr>" ?ms n "quiet_env 9"] n ms
    by (intro exI [of _ ?ms] exI [of _ n]) simp
qed

end
