(* ===== verification/Sim_Node.thy ===== *)
theory Sim_Node
  imports Mesh_Message
begin

text \<open>
  The virtual nodes of the mesh simulator: their configuration (\<open>meshsim/config.go\<close>), their state
  and constructors (\<open>meshsim/node.go\<close>) and the frames they send (\<open>meshsim/frames.go\<close>). The MAC
  parser and printer of the package are \<open>sim_parse_mac\<close> and \<open>mac_key\<close> of theory \<open>Mac_Address\<close>.
\<close>

section \<open>Configuration\<close>

record node_config =
  nc_mac :: string
  nc_name :: string
  nc_type :: string
  nc_route_path :: "string list"
  nc_heartbeat_ms :: int
  nc_silent :: bool

record sim_config =
  sc_nodes :: "node_config list"
  sc_route_report_ms :: int

text \<open>
  \<open>LoadConfig\<close>: what reading and decoding the file gives is an argument; the empty path is the
  empty configuration.
\<close>

datatype config_file = ConfigUnreadable go_error | ConfigMalformed go_error | ConfigOk sim_config

datatype config_error = ReadConfig go_error | ParseConfig go_error

definition load_config :: "string \<Rightarrow> config_file \<Rightarrow> config_error + sim_config" where
  "load_config path f =
     (if path = [] then Inr \<lparr> sc_nodes = [], sc_route_report_ms = 0 \<rparr>
      else case f of
             ConfigUnreadable e \<Rightarrow> Inl (ReadConfig e)
           | ConfigMalformed e \<Rightarrow> Inl (ParseConfig e)
           | ConfigOk cfg \<Rightarrow> Inr cfg)"

text \<open>\<open>AdapterTypeFromString\<close> of the simulator ignores case, unlike the hub's function.\<close>

definition sim_adapter_type :: "string \<Rightarrow> i32 option" where
  "sim_adapter_type s =
     (if to_lower s = ''pir'' then Some 2
      else if to_lower s = ''led'' then Some 3
      else if to_lower s = ''relay'' then Some 4
      else None)"

text \<open>\<open>time.Duration(ms) * time.Millisecond\<close>, an int64 product that wraps around.\<close>

definition millis :: "int \<Rightarrow> duration" where
  "millis ms = wrap64 (ms * millisecond)"

section \<open>Nodes\<close>

record virtual_node =
  vn_mac :: "byte list"
  vn_mac_string :: string
  vn_name :: string
  vn_adapter_type :: i32
  vn_node_id :: byte
  vn_route_path :: "byte list list"
  vn_heartbeat_interval :: duration
  vn_enrolled :: bool
  vn_rejected :: bool
  vn_offline :: bool
  vn_silent :: bool
  vn_public_key :: "byte list"
  vn_uptime :: u32
  vn_ack_count :: u64
  vn_last_heartbeat :: time
  vn_last_route_report :: time
  vn_last_enroll_attempt :: time

text \<open>\<open>pubKeyForMAC\<close>: \<open>mac[i%6] ^ byte(i) | 0x01\<close>, where \<open>^\<close> and \<open>|\<close> associate to the left.\<close>

definition pub_key_for_mac :: "byte list \<Rightarrow> byte list" where
  "pub_key_for_mac mac = map (\<lambda>i. or (xor (mac ! (i mod 6)) (of_nat i)) 1) [0 ..< 32]"

datatype node_error = NodeMac mac_error | NodeType string | NodeRoute mac_error

definition new_node :: "string \<Rightarrow> string \<Rightarrow> node_error + virtual_node" where
  "new_node mac_str typ =
     (case sim_parse_mac mac_str of
        Inl e \<Rightarrow> Inl (NodeMac e)
      | Inr mac \<Rightarrow>
          (case sim_adapter_type typ of
             None \<Rightarrow> Inl (NodeType typ)
           | Some at \<Rightarrow> Inr
               \<lparr> vn_mac = mac, vn_mac_string = mac_str, vn_name = [], vn_adapter_type = at, vn_node_id = 0,
                 vn_route_path = [], vn_heartbeat_interval = 3 * second, vn_enrolled = False,
                 vn_rejected = False, vn_offline = False, vn_silent = False,
                 vn_public_key = pub_key_for_mac mac, vn_uptime = 0, vn_ack_count = 0,
                 vn_last_heartbeat = time_zero, vn_last_route_report = time_zero,
                 vn_last_enroll_attempt = time_zero \<rparr>))"

text \<open>The first relay that does not parse ends the loop with an error.\<close>

fun parse_route :: "string list \<Rightarrow> byte list list \<Rightarrow> mac_error + byte list list" where
  "parse_route [] acc = Inr acc"
| "parse_route (r # rs) acc =
     (case sim_parse_mac r of Inl e \<Rightarrow> Inl e | Inr m \<Rightarrow> parse_route rs (acc @ [m]))"

definition new_seeded_node :: "node_config \<Rightarrow> node_error + virtual_node" where
  "new_seeded_node nc =
     (case new_node (nc_mac nc) (nc_type nc) of
        Inl e \<Rightarrow> Inl e
      | Inr n \<Rightarrow>
          (let n1 = n\<lparr> vn_name := nc_name nc, vn_enrolled := True, vn_silent := nc_silent nc \<rparr>;
               n2 = (if 0 < nc_heartbeat_ms nc
                     then n1\<lparr> vn_heartbeat_interval := millis (nc_heartbeat_ms nc) \<rparr> else n1)
           in case parse_route (nc_route_path nc) (vn_route_path n2) of
                Inl e \<Rightarrow> Inl (NodeRoute e)
              | Inr path \<Rightarrow> Inr (n2\<lparr> vn_route_path := path \<rparr>)))"

definition new_enrolling_node :: "string \<Rightarrow> string \<Rightarrow> node_error + virtual_node" where
  "new_enrolling_node mac typ = new_node mac typ"

section \<open>Frames\<close>

definition envelope :: "virtual_node \<Rightarrow> mesh_message" where
  "envelope n = zero_message\<lparr> proto_version := 5, origin_mac := vn_mac n,
     msg_hop_count := of_nat (length (vn_route_path n) + 1) \<rparr>"

definition health_msg :: "virtual_node \<Rightarrow> mesh_message" where
  "health_msg n =
     (let d = go_make 12;
          d = d[0 := OpNodeHealth];
          d = d[1 := ucast (vn_adapter_type n)];
          d = go_copy d 2 (vn_mac n);
          d = go_copy d 8 (le32 (vn_uptime n))
      in (envelope n)\<lparr> message_type := MessageTypeAdapterData, data_type := AdapterTypeSerial, msg_data := d \<rparr>)"

definition route_report_msg :: "virtual_node \<Rightarrow> mesh_message" where
  "route_report_msg n =
     (let m = (envelope n)\<lparr> message_type := MessageTypeRouteReport,
                 route_len := Some (of_nat (length (vn_route_path n))) \<rparr>
      in if vn_route_path n \<noteq> []
         then m\<lparr> msg_route_path := Some (fold (\<lambda>(i, relay) buf. go_copy buf (i * 6) relay)
                  (enumerate 0 (vn_route_path n)) (go_make (length (vn_route_path n) * 6))) \<rparr>
         else m)"

definition motion_msg :: "virtual_node \<Rightarrow> mesh_message" where
  "motion_msg n = (envelope n)\<lparr> message_type := MessageTypeAdapterData, data_type := AdapterTypePIR,
     msg_data := [1] \<rparr>"

definition enrollment_msg :: "virtual_node \<Rightarrow> mesh_message" where
  "enrollment_msg n = (envelope n)\<lparr> message_type := MessageTypeEnrollment,
     target_mac := broadcast_mac_bytes, msg_public_key := vn_public_key n \<rparr>"

definition ack_msg :: "virtual_node \<Rightarrow> byte \<times> byte \<Rightarrow> mesh_message" where
  "ack_msg n token = (envelope n)\<lparr> message_type := MessageTypeAdapterData, data_type := AdapterTypeSerial,
     msg_data := [OpCommandAck, fst token, snd token] \<rparr>"

section \<open>Well-formed nodes\<close>

text \<open>
  What the constructors establish and nothing later changes: the address is the one the MAC
  string parses to, the key is the one derived from it, every relay is an address.
\<close>

definition node_wf :: "string \<Rightarrow> virtual_node \<Rightarrow> bool" where
  "node_wf k n \<longleftrightarrow> vn_mac_string n = k \<and> sim_parse_mac k = Inr (vn_mac n) \<and>
     vn_public_key n = pub_key_for_mac (vn_mac n) \<and> (\<forall>r \<in> set (vn_route_path n). length r = 6)"

lemma length_pub_key [simp]: "length (pub_key_for_mac mac) = 32"
  by (simp add: pub_key_for_mac_def)

text \<open>The derived key is never the zero key: every byte is odd.\<close>

lemma pub_key_odd: "i < 32 \<Longrightarrow> bit (pub_key_for_mac mac ! i) 0"
  by (simp add: pub_key_for_mac_def bit_simps)

lemma parse_route_lengths:
  "parse_route rs acc = Inr path \<Longrightarrow> (\<forall>r \<in> set acc. length r = 6) \<Longrightarrow> \<forall>r \<in> set path. length r = 6"
proof (induction rs arbitrary: acc)
  case Nil
  then show ?case by simp
next
  case (Cons r rs)
  from Cons.prems(1) obtain m where m: "sim_parse_mac r = Inr m" and rest: "parse_route rs (acc @ [m]) = Inr path"
    by (cases "sim_parse_mac r") simp_all
  from rest show ?case
    by (rule Cons.IH) (use Cons.prems(2) sim_codec.parse_length [OF m] in auto)
qed

lemma new_node_wf: "new_node s t = Inr n \<Longrightarrow> node_wf s n"
  by (auto simp: new_node_def node_wf_def split: sum.splits option.splits)

lemma new_node_state:
  "new_node s t = Inr n \<Longrightarrow> \<not> vn_enrolled n \<and> \<not> vn_rejected n \<and> \<not> vn_offline n \<and> vn_route_path n = []"
  by (auto simp: new_node_def split: sum.splits option.splits)

lemma new_seeded_node_wf:
  assumes "new_seeded_node nc = Inr n"
  shows "node_wf (nc_mac nc) n"
proof -
  from assms obtain n0 path where n0: "new_node (nc_mac nc) (nc_type nc) = Inr n0"
    and path: "parse_route (nc_route_path nc) (vn_route_path n0) = Inr path"
    and n: "vn_mac n = vn_mac n0" "vn_mac_string n = vn_mac_string n0" "vn_public_key n = vn_public_key n0"
      "vn_route_path n = path"
    by (auto simp: new_seeded_node_def Let_def split: sum.splits if_splits)
  have "\<forall>r \<in> set path. length r = 6"
    using parse_route_lengths [OF path] new_node_state [OF n0] by simp
  then show ?thesis using new_node_wf [OF n0] by (simp add: node_wf_def n)
qed

end
