(* ===== verification/Mesh_Sim.thy ===== *)
theory Mesh_Sim
  imports Sim_Node Table_Store "HOL-Library.List_Lexorder"
begin

text \<open>
  The mesh simulator (\<open>meshsim/sim.go\<close>), its control API (\<open>meshsim/control.go\<close>) and its main
  program (\<open>cmd/mesh-sim/main.go\<close>). A connection of the hub is a number; \<open>sim_tx\<close> lists the calls
  of \<open>WriteFrame\<close> with the connection and the result. The result of each write is the argument
  \<open>wr\<close> of an operation, the clock reading its argument \<open>now\<close>. A \<open>range\<close> loop over the node map
  meets the nodes in the order of the association list.
\<close>

section \<open>State\<close>

type_synonym write_result = "mesh_message \<Rightarrow> go_error option"

record simulator =
  sim_cfg :: sim_config
  sim_nodes :: "(string, virtual_node) gomap"
  sim_comm :: "nat option"
  sim_route_interval :: duration
  sim_started_at :: time
  sim_tx :: "(nat \<times> mesh_message \<times> go_error option) list"

definition tick_interval :: duration where "tick_interval = 250 * millisecond"
definition enroll_interval :: duration where "enroll_interval = 2 * second"

text \<open>\<open>resetLocked\<close>: seeds that do not build a node are logged and skipped.\<close>

definition seed_entry :: "node_config \<Rightarrow> (string \<times> virtual_node) option" where
  "seed_entry nc = (case new_seeded_node nc of Inl e \<Rightarrow> None | Inr n \<Rightarrow> Some (vn_mac_string n, n))"

definition seeded_nodes :: "node_config list \<Rightarrow> (string, virtual_node) gomap" where
  "seeded_nodes ncs =
     fold (\<lambda>nc m. case seed_entry nc of None \<Rightarrow> m | Some (k, n) \<Rightarrow> AList.update k n m) ncs []"

definition sim_reset :: "simulator \<Rightarrow> simulator" where
  "sim_reset s = s\<lparr> sim_nodes := seeded_nodes (sc_nodes (sim_cfg s)) \<rparr>"

definition new_simulator :: "time \<Rightarrow> sim_config \<Rightarrow> simulator" where
  "new_simulator now cfg = sim_reset
     \<lparr> sim_cfg = cfg, sim_nodes = [], sim_comm = None,
       sim_route_interval = (if 0 < sc_route_report_ms cfg then millis (sc_route_report_ms cfg) else 6 * second),
       sim_started_at = now, sim_tx = [] \<rparr>"

section \<open>Sending\<close>

definition write_locked :: "write_result \<Rightarrow> mesh_message \<Rightarrow> simulator \<Rightarrow> simulator" where
  "write_locked wr msg s =
     (case sim_comm s of
        None \<Rightarrow> s
      | Some c \<Rightarrow>
          (let s1 = s\<lparr> sim_tx := sim_tx s @ [(c, msg, wr msg)] \<rparr>
           in if wr msg \<noteq> None then s1\<lparr> sim_comm := None \<rparr> else s1))"

definition set_node :: "string \<Rightarrow> virtual_node \<Rightarrow> simulator \<Rightarrow> simulator" where
  "set_node k n s = s\<lparr> sim_nodes := AList.update k n (sim_nodes s) \<rparr>"

section \<open>Time\<close>

text \<open>\<open>uint32(now.Sub(s.startedAt).Seconds())\<close>, for a tick that is not before the start.\<close>

definition uptime_at :: "time \<Rightarrow> simulator \<Rightarrow> u32" where
  "uptime_at now s = of_int (time_sub now (sim_started_at s) div second)"

text \<open>The body of the first loop of \<open>tick\<close> for the node at one key.\<close>

definition tick_health :: "time \<Rightarrow> write_result \<Rightarrow> string \<Rightarrow> simulator \<Rightarrow> simulator" where
  "tick_health now wr k s =
     (case map_of (sim_nodes s) k of
        None \<Rightarrow> s
      | Some n \<Rightarrow>
          if vn_offline n then s
          else if \<not> vn_enrolled n then
            (if \<not> vn_rejected n \<and> enroll_interval \<le> time_sub now (vn_last_enroll_attempt n)
             then let n' = n\<lparr> vn_last_enroll_attempt := now \<rparr>
                  in write_locked wr (enrollment_msg n') (set_node k n' s)
             else s)
          else if vn_silent n then s
          else if vn_heartbeat_interval n \<le> time_sub now (vn_last_heartbeat n)
          then let n' = n\<lparr> vn_last_heartbeat := now, vn_uptime := uptime_at now s \<rparr>
               in write_locked wr (health_msg n') (set_node k n' s)
          else s)"

text \<open>The body of the second loop.\<close>

definition tick_route :: "time \<Rightarrow> write_result \<Rightarrow> string \<Rightarrow> simulator \<Rightarrow> simulator" where
  "tick_route now wr k s =
     (case map_of (sim_nodes s) k of
        None \<Rightarrow> s
      | Some n \<Rightarrow>
          if vn_offline n \<or> \<not> vn_enrolled n \<or> vn_silent n then s
          else if sim_route_interval s \<le> time_sub now (vn_last_route_report n)
          then let n' = n\<lparr> vn_last_route_report := now \<rparr>
               in write_locked wr (route_report_msg n') (set_node k n' s)
          else s)"

definition sim_tick :: "time \<Rightarrow> write_result \<Rightarrow> simulator \<Rightarrow> simulator" where
  "sim_tick now wr s =
     (case sim_comm s of
        None \<Rightarrow> s
      | Some c \<Rightarrow>
          (let s1 = fold (tick_health now wr) (map fst (sim_nodes s)) s
           in fold (tick_route now wr) (map fst (sim_nodes s1)) s1))"

section \<open>Frames from the hub\<close>

definition handle_serial_op :: "mesh_message \<Rightarrow> simulator \<Rightarrow> simulator" where
  "handle_serial_op msg s =
     (let d = msg_data msg
      in if d ! 0 = OpHealthReq
         then s\<lparr> sim_nodes := map (\<lambda>(k, n). (k, n\<lparr> vn_last_heartbeat := time_zero \<rparr>)) (sim_nodes s) \<rparr>
         else if d ! 0 = OpNodeIdSet
         then (if length d < 8 then s
               else s\<lparr> sim_nodes := adjust (mac_key (slice 1 7 d)) (\<lambda>n. n\<lparr> vn_node_id := d ! 7 \<rparr>) (sim_nodes s) \<rparr>)
         else if d ! 0 = OpConfigSet
         then (if length d < 8 then s
               else s\<lparr> sim_nodes := adjust (mac_key (slice 1 7 d))
                        (\<lambda>n. n\<lparr> vn_adapter_type := ucast (d ! 7) \<rparr>) (sim_nodes s) \<rparr>)
         else s)"

text \<open>One node's turn in the loop that acknowledges a command for all nodes of a type.\<close>

definition ack_command ::
    "write_result \<Rightarrow> i32 \<Rightarrow> byte \<times> byte \<Rightarrow> string \<Rightarrow> simulator \<Rightarrow> simulator" where
  "ack_command wr dt token k s =
     (case map_of (sim_nodes s) k of
        None \<Rightarrow> s
      | Some n \<Rightarrow>
          if vn_enrolled n \<and> \<not> vn_offline n \<and> vn_adapter_type n = dt
          then let n' = n\<lparr> vn_ack_count := vn_ack_count n + 1 \<rparr>
               in write_locked wr (ack_msg n' token) (set_node k n' s)
          else s)"

definition handle_join_ack :: "mesh_message \<Rightarrow> simulator \<Rightarrow> simulator" where
  "handle_join_ack msg s =
     s\<lparr> sim_nodes := adjust (mac_key (target_mac msg))
         (\<lambda>n. if length (msg_public_key msg) = 32
              then n\<lparr> vn_enrolled := True, vn_rejected := False, vn_last_heartbeat := time_zero,
                      vn_last_route_report := time_zero \<rparr>
              else n\<lparr> vn_rejected := True \<rparr>) (sim_nodes s) \<rparr>"

definition handle_frame :: "write_result \<Rightarrow> mesh_message \<Rightarrow> simulator \<Rightarrow> simulator" where
  "handle_frame wr msg s =
     (if message_type msg = MessageTypeJoinAck then handle_join_ack msg s
      else if message_type msg = MessageTypeAdapterData \<or> message_type msg = MessageTypeSerialCmdBroadcast then
        (if msg_data msg = [] then s
         else if data_type msg = AdapterTypeSerial then handle_serial_op msg s
         else if data_type msg = AdapterTypeLED \<or> data_type msg = AdapterTypeRelay then
           (if length (msg_data msg) < MaxDataLength then s
            else fold (ack_command wr (data_type msg)
                         (msg_data msg ! (MaxDataLength - 2), msg_data msg ! (MaxDataLength - 1)))
                   (map fst (sim_nodes s)) s)
         else s)
      else s)"

section \<open>The serial link\<close>

text \<open>
  \<open>attachComm\<close> replaces the connection; the read loop of a connection handles frames until a read
  fails, and then clears \<open>s.comm\<close> if it is still its own. The frames of a connection the hub
  replaced are still handled.
\<close>

definition attach_comm :: "nat \<Rightarrow> simulator \<Rightarrow> simulator" where
  "attach_comm c s = s\<lparr> sim_comm := Some c \<rparr>"

definition read_failed :: "nat \<Rightarrow> simulator \<Rightarrow> simulator" where
  "read_failed c s = (if sim_comm s = Some c then s\<lparr> sim_comm := None \<rparr> else s)"

fun sim_read_loop :: "write_result \<Rightarrow> nat \<Rightarrow> (go_error + mesh_message) list \<Rightarrow> simulator \<Rightarrow> simulator" where
  "sim_read_loop wr c [] s = s"
| "sim_read_loop wr c (Inl e # rs) s = read_failed c s"
| "sim_read_loop wr c (Inr msg # rs) s = sim_read_loop wr c rs (handle_frame wr msg s)"

text \<open>
  \<open>Run\<close> ticks until its context is done, which \<open>main\<close> never lets happen; \<open>ServeSerial\<close> attaches
  each accepted connection in place of the one before, until the listener fails.
\<close>

fun sim_run :: "(loop_event \<times> time \<times> write_result) list \<Rightarrow> simulator \<Rightarrow> bool \<times> simulator" where
  "sim_run [] s = (False, s)"
| "sim_run ((Tick, now, wr) # evs) s = sim_run evs (sim_tick now wr s)"
| "sim_run ((StopSignal, now, wr) # evs) s = (True, s)"

fun serve_serial :: "(go_error + nat) list \<Rightarrow> simulator \<Rightarrow> bool \<times> simulator" where
  "serve_serial [] s = (False, s)"
| "serve_serial (Inl e # accepts) s = (True, s)"
| "serve_serial (Inr c # accepts) s = serve_serial accepts (attach_comm c s)"

section \<open>Control operations\<close>

datatype sim_error =
    BadNode node_error
  | Duplicate string              \<comment> \<open>\<open>errDuplicate\<close>\<close>
  | UnknownNode string            \<comment> \<open>\<open>errUnknownNode\<close>\<close>
  | NodeNotReady string bool bool \<comment> \<open>\<open>errNodeNotReady\<close>: enrolled, offline\<close>
  | HubNotConnected               \<comment> \<open>\<open>errNodeNotReady\<close>: no connection\<close>

definition spawn_node :: "string \<Rightarrow> string \<Rightarrow> simulator \<Rightarrow> sim_error option \<times> simulator" where
  "spawn_node mac typ s =
     (case new_enrolling_node mac typ of
        Inl e \<Rightarrow> (Some (BadNode e), s)
      | Inr n \<Rightarrow>
          if map_of (sim_nodes s) (vn_mac_string n) \<noteq> None then (Some (Duplicate mac), s)
          else (None, set_node (vn_mac_string n) n s))"

definition fire_motion :: "write_result \<Rightarrow> string \<Rightarrow> simulator \<Rightarrow> sim_error option \<times> simulator" where
  "fire_motion wr mac s =
     (case map_of (sim_nodes s) mac of
        None \<Rightarrow> (Some (UnknownNode mac), s)
      | Some n \<Rightarrow>
          if \<not> vn_enrolled n \<or> vn_offline n then (Some (NodeNotReady mac (vn_enrolled n) (vn_offline n)), s)
          else if sim_comm s = None then (Some HubNotConnected, s)
          else (None, write_locked wr (motion_msg n) s))"

definition set_offline :: "string \<Rightarrow> bool \<Rightarrow> simulator \<Rightarrow> sim_error option \<times> simulator" where
  "set_offline mac off s =
     (case map_of (sim_nodes s) mac of
        None \<Rightarrow> (Some (UnknownNode mac), s)
      | Some n \<Rightarrow> (None, set_node mac (n\<lparr> vn_offline := off \<rparr>) s))"

text \<open>\<open>snapshot\<close>: a copy of the nodes sorted by MAC string; the keys are distinct.\<close>

definition snapshot :: "simulator \<Rightarrow> virtual_node list" where
  "snapshot s = sort_key (\<lambda>n. map (of_char :: char \<Rightarrow> nat) (vn_mac_string n)) (map snd (sim_nodes s))"

section \<open>The control API\<close>

text \<open>
  The handlers, as functions from the request to the response. The error body carries the text
  of the error, here the error itself; a request body is \<open>None\<close> when it does not decode.
\<close>

datatype sim_response = SimJson nat json | SimStatus nat | SimFailure nat "sim_error option"

definition adapter_type_name :: "i32 \<Rightarrow> string" where
  "adapter_type_name t =
     (if t = 1 then ''serial'' else if t = 2 then ''pir'' else if t = 3 then ''led''
      else if t = 4 then ''relay'' else ''unknown'')"

definition control_node :: "virtual_node \<Rightarrow> json" where
  "control_node n = JObj
     [(''mac'', JStr (vn_mac_string n)), (''name'', JStr (vn_name n)),
      (''type'', JStr (adapter_type_name (vn_adapter_type n))), (''enrolled'', JBool (vn_enrolled n)),
      (''rejected'', JBool (vn_rejected n)), (''offline'', JBool (vn_offline n)),
      (''silent'', JBool (vn_silent n)), (''nodeId'', JInt (int (unat (vn_node_id n)))),
      (''ackCount'', JInt (sint (vn_ack_count n)))]"

definition handle_state :: "simulator \<Rightarrow> sim_response" where
  "handle_state s = SimJson 200 (JObj [(''nodes'', JArr (map control_node (snapshot s)))])"

definition handle_reset :: "simulator \<Rightarrow> sim_response \<times> simulator" where
  "handle_reset s = (SimStatus 204, sim_reset s)"

definition handle_spawn :: "(string \<times> string) option \<Rightarrow> simulator \<Rightarrow> sim_response \<times> simulator" where
  "handle_spawn body s =
     (case body of
        None \<Rightarrow> (SimFailure 400 None, s)
      | Some (mac, typ) \<Rightarrow>
          (let (err, s') = spawn_node mac typ s
           in case err of
                None \<Rightarrow> (SimStatus 201, s')
              | Some (Duplicate m) \<Rightarrow> (SimFailure 409 err, s')
              | Some e \<Rightarrow> (SimFailure 400 err, s')))"

definition handle_motion :: "write_result \<Rightarrow> string \<Rightarrow> simulator \<Rightarrow> sim_response \<times> simulator" where
  "handle_motion wr mac s =
     (let (err, s') = fire_motion wr mac s
      in case err of
           None \<Rightarrow> (SimStatus 204, s')
         | Some (UnknownNode m) \<Rightarrow> (SimFailure 404 err, s')
         | Some e \<Rightarrow> (SimFailure 409 err, s'))"

definition handle_set_offline :: "bool \<Rightarrow> string \<Rightarrow> simulator \<Rightarrow> sim_response \<times> simulator" where
  "handle_set_offline off mac s =
     (let (err, s') = set_offline mac off s
      in case err of
           None \<Rightarrow> (SimStatus 204, s')
         | Some (UnknownNode m) \<Rightarrow> (SimFailure 404 err, s')
         | Some e \<Rightarrow> (SimFailure 409 err, s'))"

datatype control_endpoint = CtlState | CtlReset | CtlSpawn | CtlMotion string | CtlOffline bool string

text \<open>\<open>ControlHandler\<close>: the routes; no route has middleware.\<close>

definition control_route :: "string \<Rightarrow> string list \<Rightarrow> control_endpoint option" where
  "control_route method path =
     (case path of
        [a, b] \<Rightarrow>
          (if a \<noteq> ''sim'' then None
           else if b = ''state'' \<and> method = ''GET'' then Some CtlState
           else if b = ''reset'' \<and> method = ''POST'' then Some CtlReset
           else if b = ''nodes'' \<and> method = ''POST'' then Some CtlSpawn
           else None)
      | [a, b, mac, op] \<Rightarrow>
          (if a \<noteq> ''sim'' \<or> b \<noteq> ''nodes'' \<or> mac = [] \<or> method \<noteq> ''POST'' then None
           else if op = ''motion'' then Some (CtlMotion mac)
           else if op = ''offline'' then Some (CtlOffline True mac)
           else if op = ''online'' then Some (CtlOffline False mac)
           else None)
      | _ \<Rightarrow> None)"

definition control_serve ::
    "write_result \<Rightarrow> (string \<times> string) option \<Rightarrow> control_endpoint \<Rightarrow> simulator \<Rightarrow> sim_response \<times> simulator" where
  "control_serve wr body ep s =
     (case ep of
        CtlState \<Rightarrow> (handle_state s, s)
      | CtlReset \<Rightarrow> handle_reset s
      | CtlSpawn \<Rightarrow> handle_spawn body s
      | CtlMotion mac \<Rightarrow> handle_motion wr mac s
      | CtlOffline off mac \<Rightarrow> handle_set_offline off mac s)"

section \<open>The main program\<close>

definition env_or :: "(string \<Rightarrow> string) \<Rightarrow> string \<Rightarrow> string \<Rightarrow> string" where
  "env_or getenv key def = (if getenv key \<noteq> [] then getenv key else def)"

text \<open>
  What \<open>main\<close> does before it serves: \<open>listen\<close> is the result of \<open>net.Listen\<close>. The result is the
  exit status, or the two addresses and the simulator that then runs.
\<close>

definition sim_main ::
    "(string \<Rightarrow> string) \<Rightarrow> config_file \<Rightarrow> (string \<Rightarrow> go_error option) \<Rightarrow> time
       \<Rightarrow> nat + (string \<times> string \<times> simulator)" where
  "sim_main getenv file listen now =
     (let serial_addr = env_or getenv ''SIM_SERIAL_ADDR'' '':9000'';
          control_addr = env_or getenv ''SIM_CONTROL_ADDR'' '':9001''
      in case load_config (getenv ''SIM_NODES_PATH'') file of
           Inl e \<Rightarrow> Inl 1
         | Inr cfg \<Rightarrow>
             (let s = new_simulator now cfg
              in if listen serial_addr \<noteq> None then Inl 1 else Inr (serial_addr, control_addr, s)))"

end
