(* ===== verification/Server_Shutdown.thy ===== *)
theory Server_Shutdown
  imports Server_Claims Proto_Wire Mesh_Sim
begin

text \<open>
  The goroutines of a running server while \<open>Stop\<close> is executed (\<open>mesh/server.go\<close>). \<open>Stop\<close> holds the
  server's mutex from its first line until it returns, and waits for every goroutine in between; the
  receive loops, the offline detector and the save loops each have a place in their code, and take
  steps in any order. A handler that needs the mutex while \<open>Stop\<close> holds it does not proceed (and is
  taken to wait before its first effect). Also here: two writers that share a port.
\<close>

section \<open>State\<close>

text \<open>Where a goroutine is; a receive loop carries its count of consecutive read errors.\<close>

datatype goroutine =
    Selecting link nat
  | Reading link nat
  | Handling link mesh_message
  | Pausing link nat
  | AuthSaver
  | NodeSaver
  | Watching
  | Checking
  | Finished

datatype stop_pc = NotCalled | LinksOpen | LinksClosed | Returned

text \<open>\<open>sr_inbox\<close> is what will still arrive on each link, \<open>sr_ticks\<close> how often a ticker will fire.\<close>

record server_run =
  sr_pc :: stop_pc
  sr_server :: mesh_server
  sr_routines :: "goroutine list"
  sr_inbox :: "link \<Rightarrow> mesh_message list"
  sr_ticks :: nat

text \<open>The goroutines that \<open>Start\<close> leaves running.\<close>

definition routines_of :: "mesh_server \<Rightarrow> goroutine list" where
  "routines_of ms = map (\<lambda>l. Selecting l 0) (ms_processors ms) @
     (if ms_auth_path ms \<noteq> [] then [AuthSaver] else []) @
     (if ms_node_path ms \<noteq> [] then [NodeSaver] else []) @ [Watching]"

definition run_of :: "mesh_server \<Rightarrow> (link \<Rightarrow> mesh_message list) \<Rightarrow> nat \<Rightarrow> server_run" where
  "run_of ms inbox ticks = \<lparr> sr_pc = NotCalled, sr_server = ms, sr_routines = routines_of ms,
     sr_inbox = inbox, sr_ticks = ticks \<rparr>"

definition stop_holds_mutex :: "server_run \<Rightarrow> bool" where
  "stop_holds_mutex s \<longleftrightarrow> sr_pc s = LinksOpen \<or> sr_pc s = LinksClosed"

text \<open>
  Which handlers take the server's mutex: a health report, in \<open>publishHealthEvent\<close>, and a join
  request with the approved key, whose answer asks \<open>activeOutboundComm\<close> for the link.
\<close>

definition health_frame :: "mesh_message \<Rightarrow> bool" where
  "health_frame msg \<longleftrightarrow> proto_version msg = 5 \<and> message_type msg = MessageTypeAdapterData \<and>
     (case parse_health_report msg of Inl e \<Rightarrow> False | Inr r \<Rightarrow> True)"

definition join_frame :: "mesh_message \<Rightarrow> bool" where
  "join_frame msg \<longleftrightarrow> proto_version msg = 5 \<and> message_type msg = MessageTypeEnrollment \<and>
     6 \<le> length (origin_mac msg) \<and> length (msg_public_key msg) = 32"

definition takes_mutex :: "mesh_message \<Rightarrow> mesh_server \<Rightarrow> bool" where
  "takes_mutex msg ms \<longleftrightarrow> health_frame msg \<or>
     (join_frame msg \<and> ms_serial_comm ms \<and>
      get_approved_public_key (take 6 (origin_mac msg)) (ms_auth ms) = Some (msg_public_key msg))"

section \<open>Steps\<close>

definition close_channels :: "mesh_server \<Rightarrow> mesh_server" where
  "close_channels ms = ms\<lparr> ms_stop_persist_closed := True,
     ms_stop_node_closed := (ms_node_path ms \<noteq> [] \<or> ms_stop_node_closed ms) \<rparr>"

text \<open>
  One step of a goroutine: where it is then, and the shared state. A \<open>select\<close> with two ready cases
  may take either, so a ticker can still fire after the cancellation.
\<close>

inductive go_step :: "env \<Rightarrow> server_run \<Rightarrow> goroutine \<Rightarrow> goroutine \<Rightarrow> server_run \<Rightarrow> bool" for env s where
  select_done: "ms_cancelled (sr_server s) \<Longrightarrow> go_step env s (Selecting l k) Finished s"
| select_read: "\<not> ms_cancelled (sr_server s) \<Longrightarrow> go_step env s (Selecting l k) (Reading l k) s"
| read_frame: "sr_pc s \<noteq> LinksClosed \<Longrightarrow> sr_inbox s l = msg # msgs \<Longrightarrow>
    go_step env s (Reading l k) (Handling l msg)
      (s\<lparr> sr_inbox := (sr_inbox s)(l := msgs), sr_server := record_frame (en_now env) l (sr_server s) \<rparr>)"
| read_error: "st = process_read env l (Inl e) k (sr_server s) \<Longrightarrow>
    go_step env s (Reading l k) (Pausing l (ps_errors st)) (s\<lparr> sr_server := ps_server st \<rparr>)"
| pause_done: "ms_cancelled (sr_server s) \<Longrightarrow> go_step env s (Pausing l k) Finished s"
| pause_over: "go_step env s (Pausing l k) (Selecting l k) s"
| handle: "\<not> (stop_holds_mutex s \<and> takes_mutex msg (sr_server s)) \<Longrightarrow>
    go_step env s (Handling l msg) (Selecting l 0)
      (s\<lparr> sr_server := snd (handle_message env msg (sr_server s)) \<rparr>)"
| auth_tick: "sr_ticks s = Suc n \<Longrightarrow>
    go_step env s AuthSaver AuthSaver (s\<lparr> sr_ticks := n, sr_server := save_auth env (sr_server s) \<rparr>)"
| auth_done: "ms_stop_persist_closed (sr_server s) \<Longrightarrow>
    go_step env s AuthSaver Finished (s\<lparr> sr_server := save_auth env (sr_server s) \<rparr>)"
| node_tick: "sr_ticks s = Suc n \<Longrightarrow>
    go_step env s NodeSaver NodeSaver (s\<lparr> sr_ticks := n, sr_server := save_nodes env (sr_server s) \<rparr>)"
| node_done: "ms_stop_node_closed (sr_server s) \<Longrightarrow>
    go_step env s NodeSaver Finished (s\<lparr> sr_server := save_nodes env (sr_server s) \<rparr>)"
| watch_tick: "sr_ticks s = Suc n \<Longrightarrow> go_step env s Watching Checking (s\<lparr> sr_ticks := n \<rparr>)"
| watch_done: "ms_cancelled (sr_server s) \<Longrightarrow> go_step env s Watching Finished s"
| check: "\<not> stop_holds_mutex s \<Longrightarrow>
    go_step env s Checking Watching (s\<lparr> sr_server := check_snapshot env ns (sr_server s) \<rparr>)"

inductive run_step :: "env \<Rightarrow> zone_v1 option write_outcome \<Rightarrow> server_run \<Rightarrow> server_run \<Rightarrow> bool" for env zout where
  stop_begin: "sr_pc s = NotCalled \<Longrightarrow> ms_running (sr_server s) \<Longrightarrow> \<not> ms_stop_persist_closed (sr_server s) \<Longrightarrow>
    \<not> (ms_node_path (sr_server s) \<noteq> [] \<and> ms_stop_node_closed (sr_server s)) \<Longrightarrow>
    run_step env zout s (s\<lparr> sr_pc := LinksOpen,
      sr_server := save_zones zout (close_channels (cancel_server (sr_server s))) \<rparr>)"
| stop_close: "sr_pc s = LinksOpen \<Longrightarrow>
    run_step env zout s (s\<lparr> sr_pc := LinksClosed, sr_server := close_links (sr_server s) \<rparr>)"
| stop_return: "sr_pc s = LinksClosed \<Longrightarrow> set (sr_routines s) \<subseteq> {Finished} \<Longrightarrow>
    run_step env zout s (s\<lparr> sr_pc := Returned, sr_server := (sr_server s)\<lparr> ms_processors := [] \<rparr> \<rparr>)"
| routine: "i < length (sr_routines s) \<Longrightarrow> go_step env s (sr_routines s ! i) g s' \<Longrightarrow>
    run_step env zout s (s'\<lparr> sr_routines := (sr_routines s)[i := g] \<rparr>)"

inductive_cases go_stepE: "go_step env s g g' s'"
inductive_cases run_stepE: "run_step env zout s s'"

text \<open>The exact condition under which a join request takes the mutex, in terms of its handler.\<close>

lemma already_approved:
  "fst (add_pending now m pub r) = Some AlreadyApprovedSameKey \<longleftrightarrow> get_approved_public_key m r = Some pub"
  by (auto simp: add_pending_def get_approved_public_key_def Let_def split: option.splits)

section \<open>What no goroutine changes\<close>

text \<open>The life-cycle part of the server's state: only \<open>Start\<close> and \<open>Stop\<close> write it.\<close>

named_theorems life_frame \<open>operations that leave the life cycle alone\<close>

definition life :: "mesh_server \<Rightarrow> bool \<times> bool \<times> bool \<times> bool \<times> bool \<times> string \<times> string \<times> link list" where
  "life ms = (ms_running ms, ms_cancelled ms, ms_stop_persist_closed ms, ms_stop_node_closed ms,
     ms_serial_comm ms, ms_auth_path ms, ms_node_path ms, ms_processors ms)"

lemma life_eq_iff: "life a = life b \<longleftrightarrow> ms_running a = ms_running b \<and> ms_cancelled a = ms_cancelled b \<and>
    ms_stop_persist_closed a = ms_stop_persist_closed b \<and> ms_stop_node_closed a = ms_stop_node_closed b \<and>
    ms_serial_comm a = ms_serial_comm b \<and> ms_auth_path a = ms_auth_path b \<and> ms_node_path a = ms_node_path b \<and>
    ms_processors a = ms_processors b"
  by (simp add: life_def)

lemma life_updates [life_frame]:
  "life (ms\<lparr> ms_nodes := nr \<rparr>) = life ms" "life (ms\<lparr> ms_auth := r \<rparr>) = life ms"
  "life (ms\<lparr> ms_commands := cs \<rparr>) = life ms" "life (ms\<lparr> ms_online := on \<rparr>) = life ms"
  "life (ms\<lparr> ms_gauge := b \<rparr>) = life ms" "life (ms\<lparr> ms_auth_file := f \<rparr>) = life ms"
  by (simp_all add: life_def)

lemma life_publish [life_frame]: "life (publish_event env t d ms) = life ms"
  by (simp add: life_def publish_event_def)

lemma life_write_kafka [life_frame]: "life (snd (write_kafka env d t st ms)) = life ms"
  by (simp add: life_def write_kafka_def record_kafka_write_def case_prod_beta Let_def)

lemma life_log [life_frame]: "life (snd (log_message_to_kafka env msg d ms)) = life ms"
  by (simp add: log_message_to_kafka_def Let_def life_write_kafka split: option.split)

lemma life_record_frame [life_frame]: "life (record_frame now l ms) = life ms"
  by (simp add: life_def record_frame_def split: link.split)

lemma life_write_link [life_frame]: "life (snd (write_link env l m ms)) = life ms"
  by (simp add: life_def write_link_def Let_def)

lemma life_write_active [life_frame]: "life (snd (write_active env m ms)) = life ms"
  by (simp add: write_active_def life_write_link)

lemma life_approval_frames [life_frame]: "life (send_approval_frames env node i a ms) = life ms"
  by (simp add: send_approval_frames_def Let_def life_frame split: sum.split)

lemma life_persist_auth [life_frame]: "life (snd (persist_auth env ms)) = life ms"
  by (simp add: life_def persist_auth_def case_prod_beta Let_def)

lemma life_publishers [life_frame]:
  "life (publish_motion_event env n ms) = life ms" "life (publish_health_event env n ms) = life ms"
  "life (publish_enrolled_event env n t ms) = life ms"
  by (simp_all add: publish_motion_event_def publish_health_event_def publish_enrolled_event_def Let_def life_frame)

lemma life_approve [life_frame]: "life (snd (approve_enrollment env s p ms)) = life ms"
  by (simp add: approve_enrollment_def case_prod_beta Let_def life_frame split: sum.split option.split)

lemma life_resend [life_frame]: "life (snd (resend_join_ack env s ms)) = life ms"
  by (simp add: resend_join_ack_def life_frame split: sum.split)

lemma life_enroll [life_frame]: "life (snd (handle_enrollment_request env msg ms)) = life ms"
  by (auto simp: handle_enrollment_request_def case_prod_beta Let_def life_frame
      split: option.split add_error.split)

lemma life_handlers [life_frame]:
  "life (snd (handle_pir_data env msg ms)) = life ms" "life (snd (handle_health_report env msg ms)) = life ms"
  "life (handle_command_ack env msg ms) = life ms" "life (snd (handle_route_report env msg ms)) = life ms"
  "life (snd (handle_master_beacon msg ms)) = life ms"
  by (simp_all add: handle_pir_data_def handle_health_report_def handle_command_ack_def handle_route_report_def
      handle_master_beacon_def case_prod_beta Let_def life_frame split: option.split sum.split)

lemma life_message [life_frame]: "life (snd (handle_message env msg ms)) = life ms"
  by (simp add: handle_message_def handle_adapter_data_def handle_serial_data_def Let_def life_frame)

lemma life_read [life_frame]: "life (ps_server (process_read env l r k ms)) = life ms"
  by (simp add: process_read_def Let_def life_frame split: sum.split)

lemma life_check_node [life_frame]: "life (check_offline_node env n ms) = life ms"
  by (simp add: check_offline_node_def life_frame)

lemma life_check [life_frame]: "life (check_snapshot env ns ms) = life ms"
proof -
  have "life (fold (check_offline_node env) ns ms) = life ms" for ns
    by (induction ns arbitrary: ms) (simp_all add: life_check_node)
  then show ?thesis by (simp add: check_snapshot_def)
qed

lemma life_saves [life_frame]: "life (save_auth env ms) = life ms" "life (save_nodes env ms) = life ms"
  by (simp_all add: life_def save_auth_def save_nodes_def)

lemma go_step_frame:
  "go_step env s g g' s' \<Longrightarrow> life (sr_server s') = life (sr_server s) \<and> sr_pc s' = sr_pc s \<and>
     sr_routines s' = sr_routines s \<and> sr_ticks s' \<le> sr_ticks s"
  by (erule go_stepE) (simp_all add: life_frame)

section \<open>A stop that never returns\<close>

text \<open>Goroutine \<open>i\<close> needs the mutex that \<open>Stop\<close> holds while it waits for goroutine \<open>i\<close>.\<close>

definition stuck_at :: "nat \<Rightarrow> server_run \<Rightarrow> bool" where
  "stuck_at i s \<longleftrightarrow> stop_holds_mutex s \<and> i < length (sr_routines s) \<and>
     (sr_routines s ! i = Checking \<or> (\<exists>l msg. sr_routines s ! i = Handling l msg \<and> health_frame msg))"

lemma stuck_no_step: "stuck_at i s \<Longrightarrow> \<not> go_step env s (sr_routines s ! i) g s'"
  by (auto simp: stuck_at_def takes_mutex_def elim!: go_stepE)

lemma stuck_step: "run_step env z s s' \<Longrightarrow> stuck_at i s \<Longrightarrow> stuck_at i s'"
proof (erule run_stepE, goal_cases)
  case 1
  then show ?case by (simp add: stuck_at_def stop_holds_mutex_def)
next
  case 2
  then show ?case by (simp add: stuck_at_def stop_holds_mutex_def)
next
  case 3
  then have "sr_routines s ! i \<in> set (sr_routines s)" by (simp add: stuck_at_def)
  with 3 have "sr_routines s ! i = Finished" by blast
  with 3 show ?case by (simp add: stuck_at_def)
next
  case (4 j g s'')
  have "j \<noteq> i" using stuck_no_step [OF 4(1)] 4(4) by blast
  with 4 go_step_frame [OF 4(4)] show ?case by (simp add: stuck_at_def stop_holds_mutex_def)
qed

lemma stuck_run: "(run_step env z)\<^sup>*\<^sup>* s s' \<Longrightarrow> stuck_at i s \<Longrightarrow> stuck_at i s'"
  by (induction rule: rtranclp_induct) (auto dest: stuck_step)

lemma run_routine:
  assumes "i < length (sr_routines s)" and "sr_routines s ! i = g" and "go_step env s g g' s'"
  shows "run_step env z s (s'\<lparr> sr_routines := (sr_routines s)[i := g'] \<rparr>)"
  using routine [of i s env g' s' z] assms by simp

lemma begin_stuck:
  assumes "(run_step env z)\<^sup>*\<^sup>* s0 s" and "sr_pc s = NotCalled" and "life (sr_server s) = life ms"
    and "ms_running ms" "\<not> ms_stop_persist_closed ms" "\<not> ms_stop_node_closed ms"
    and "i < length (sr_routines s)"
    and "sr_routines s ! i = Checking \<or> (\<exists>l msg. sr_routines s ! i = Handling l msg \<and> health_frame msg)"
  shows "\<exists>t. (run_step env z)\<^sup>*\<^sup>* s0 t \<and> sr_pc t = LinksOpen \<and> stuck_at i t"
proof -
  let ?t = "s\<lparr> sr_pc := LinksOpen, sr_server := save_zones z (close_channels (cancel_server (sr_server s))) \<rparr>"
  have "run_step env z s ?t"
    by (rule stop_begin) (use assms in \<open>auto simp: life_eq_iff\<close>)
  with assms(1) have "(run_step env z)\<^sup>*\<^sup>* s0 ?t" by (rule rtranclp.rtrancl_into_rtrancl)
  moreover have "stuck_at i ?t" using assms(7,8) by (simp add: stuck_at_def stop_holds_mutex_def)
  ultimately show ?thesis by fastforce
qed

lemma receiver_index:
  assumes "l \<in> set (ms_processors ms)"
  obtains i where "i < length (routines_of ms)" and "routines_of ms ! i = Selecting l 0"
proof -
  have "Selecting l 0 \<in> set (routines_of ms)" using assms by (simp add: routines_of_def)
  then show thesis using that by (metis in_set_conv_nth)
qed

lemma watcher_index:
  obtains i where "i < length (routines_of ms)" and "routines_of ms ! i = Watching"
proof -
  have "Watching \<in> set (routines_of ms)" by (simp add: routines_of_def)
  then show thesis using that by (metis in_set_conv_nth)
qed

lemma frame_gets_stuck:
  assumes run: "ms_running ms" "\<not> ms_cancelled ms" "\<not> ms_stop_persist_closed ms" "\<not> ms_stop_node_closed ms"
    and l: "l \<in> set (ms_processors ms)" "inbox l = msg # rest" "health_frame msg"
  shows "\<exists>t i. (run_step env z)\<^sup>*\<^sup>* (run_of ms inbox ticks) t \<and> sr_pc t = LinksOpen \<and> stuck_at i t"
proof -
  obtain i where i: "i < length (routines_of ms)" "routines_of ms ! i = Selecting l 0"
    by (rule receiver_index [OF l(1)])
  let ?s = "run_of ms inbox ticks"
  let ?s1 = "?s\<lparr> sr_routines := (routines_of ms)[i := Reading l 0] \<rparr>"
  let ?s2 = "(?s1\<lparr> sr_inbox := inbox(l := rest), sr_server := record_frame (en_now env) l ms \<rparr>)
      \<lparr> sr_routines := (sr_routines ?s1)[i := Handling l msg] \<rparr>"
  have "run_step env z ?s ?s1"
    using run_routine [of i ?s "Selecting l 0" env "Reading l 0" ?s z] i run(2)
    by (simp add: run_of_def go_step.select_read)
  moreover have "run_step env z ?s1 ?s2"
    using run_routine [of i ?s1 "Reading l 0" env "Handling l msg"
        "?s1\<lparr> sr_inbox := inbox(l := rest), sr_server := record_frame (en_now env) l ms \<rparr>" z] i l(2)
      go_step.read_frame [of ?s1 l msg rest env 0]
    by (simp add: run_of_def)
  ultimately have "(run_step env z)\<^sup>*\<^sup>* ?s ?s2" by (meson converse_rtranclp_into_rtranclp rtranclp.rtrancl_refl)
  from begin_stuck [OF this _ _ run(1,3,4), of i] i l(3) show ?thesis
    by (auto simp: run_of_def life_frame)
qed

lemma tick_gets_stuck:
  assumes run: "ms_running ms" "\<not> ms_stop_persist_closed ms" "\<not> ms_stop_node_closed ms"
  shows "\<exists>t i. (run_step env z)\<^sup>*\<^sup>* (run_of ms inbox (Suc n)) t \<and> sr_pc t = LinksOpen \<and> stuck_at i t"
proof -
  obtain i where i: "i < length (routines_of ms)" "routines_of ms ! i = Watching" by (rule watcher_index)
  let ?s = "run_of ms inbox (Suc n)"
  let ?s1 = "(?s\<lparr> sr_ticks := n \<rparr>)\<lparr> sr_routines := (routines_of ms)[i := Checking] \<rparr>"
  have "run_step env z ?s ?s1"
    using run_routine [of i ?s Watching env Checking "?s\<lparr> sr_ticks := n \<rparr>" z] i go_step.watch_tick [of ?s n env]
    by (simp add: run_of_def)
  then have "(run_step env z)\<^sup>*\<^sup>* ?s ?s1" by blast
  from begin_stuck [OF this _ _ run, of i] i show ?thesis by (auto simp: run_of_def)
qed

section \<open>A stop that returns\<close>

text \<open>
  Nothing that needs the mutex is under way: no ticker fires, and no health report or join request
  is being handled or on its way.
\<close>

definition harmless :: "mesh_message \<Rightarrow> bool" where
  "harmless msg \<longleftrightarrow> \<not> health_frame msg \<and> \<not> join_frame msg"

fun routine_ok :: "mesh_server \<Rightarrow> goroutine \<Rightarrow> bool" where
  "routine_ok ms (Handling l msg) = harmless msg"
| "routine_ok ms Checking = False"
| "routine_ok ms NodeSaver = (ms_node_path ms \<noteq> [])"
| "routine_ok ms g = True"

definition quiet :: "server_run \<Rightarrow> bool" where
  "quiet s \<longleftrightarrow> sr_ticks s = 0 \<and> (\<forall>l. \<forall>msg \<in> set (sr_inbox s l). harmless msg) \<and>
     (\<forall>g \<in> set (sr_routines s). routine_ok (sr_server s) g) \<and>
     (sr_pc s \<noteq> NotCalled \<longrightarrow> ms_cancelled (sr_server s) \<and> ms_stop_persist_closed (sr_server s) \<and>
        (ms_node_path (sr_server s) \<noteq> [] \<longrightarrow> ms_stop_node_closed (sr_server s)))"

lemma routine_ok_life: "life a = life b \<Longrightarrow> routine_ok a g = routine_ok b g"
  by (cases g) (simp_all add: life_eq_iff)

lemma life_stop_parts:
  "life (save_zones z (close_channels (cancel_server ms))) = (False, True, True, ms_node_path ms \<noteq> [] \<or> ms_stop_node_closed ms,
     ms_serial_comm ms, ms_auth_path ms, ms_node_path ms, ms_processors ms)"
  "life (close_links ms) = life ms"
  by (simp_all add: life_def save_zones_def close_channels_def cancel_server_def close_links_def Let_def)

text \<open>A quiet goroutine's step leaves a quiet goroutine and a quiet rest.\<close>

lemma quiet_go_step:
  assumes "go_step env s g g' s'" and "quiet s" and "routine_ok (sr_server s) g"
  shows "routine_ok (sr_server s') g' \<and> sr_ticks s' = 0 \<and> (\<forall>l. \<forall>msg \<in> set (sr_inbox s' l). harmless msg)"
  using assms(1)
proof (cases rule: go_step.cases)
  case (read_frame l msg msgs k)
  have all: "\<forall>m \<in> set (sr_inbox s j). harmless m" for j using assms(2) by (simp add: quiet_def)
  from all [of l] read_frame(5) have "harmless msg \<and> (\<forall>m \<in> set msgs. harmless m)" by simp
  then show ?thesis using all read_frame assms(2) by (simp add: quiet_def)
qed (use assms(2,3) in \<open>auto simp: quiet_def\<close>)

lemma quiet_step: "run_step env z s s' \<Longrightarrow> quiet s \<Longrightarrow> quiet s'"
proof (erule run_stepE, goal_cases)
  case 1
  have "ms_node_path (save_zones z (close_channels (cancel_server (sr_server s)))) = ms_node_path (sr_server s)"
    "ms_cancelled (save_zones z (close_channels (cancel_server (sr_server s))))"
    "ms_stop_persist_closed (save_zones z (close_channels (cancel_server (sr_server s))))"
    "ms_node_path (sr_server s) \<noteq> [] \<Longrightarrow> ms_stop_node_closed (save_zones z (close_channels (cancel_server (sr_server s))))"
    using life_stop_parts(1) [of z "sr_server s"] by (simp_all add: life_def)
  moreover have "routine_ok (save_zones z (close_channels (cancel_server (sr_server s)))) g = routine_ok (sr_server s) g" for g
    using calculation(1) by (cases g) simp_all
  ultimately show ?case using 1 by (simp add: quiet_def)
next
  case 2
  have "life (close_links (sr_server s)) = life (sr_server s)" by (rule life_stop_parts)
  with 2 routine_ok_life [OF this] show ?case by (simp add: quiet_def life_eq_iff)
next
  case 3
  then show ?case by (auto simp: quiet_def)
next
  case (4 i g s'')
  note fr = go_step_frame [OF 4(4)]
  have ok: "routine_ok (sr_server s) (sr_routines s ! i)" using 4(1,3) by (simp add: quiet_def)
  note q = quiet_go_step [OF 4(4) 4(1) ok]
  have "\<forall>g' \<in> set ((sr_routines s)[i := g]). routine_ok (sr_server s'') g'"
    using q 4(1) routine_ok_life [of "sr_server s''" "sr_server s"] fr set_update_subset_insert [of "sr_routines s" i g]
    by (auto simp: quiet_def)
  with 4 q fr show ?case by (simp add: quiet_def life_eq_iff)
qed

lemma quiet_run: "(run_step env z)\<^sup>*\<^sup>* s s' \<Longrightarrow> quiet s \<Longrightarrow> quiet s'"
  by (induction rule: rtranclp_induct) (auto dest: quiet_step)

text \<open>After the cancellation every step brings the end nearer.\<close>

fun rank :: "goroutine \<Rightarrow> nat" where
  "rank (Reading l k) = 3"
| "rank (Handling l msg) = 2"
| "rank (Pausing l k) = 2"
| "rank Finished = 0"
| "rank g = 1"

fun pc_rank :: "stop_pc \<Rightarrow> nat" where
  "pc_rank NotCalled = 3" | "pc_rank LinksOpen = 2" | "pc_rank LinksClosed = 1" | "pc_rank Returned = 0"

definition distance :: "server_run \<Rightarrow> nat" where
  "distance s = pc_rank (sr_pc s) + sum_list (map rank (sr_routines s))"

lemma rank_go_step:
  assumes "go_step env s g g' s'" and "quiet s" and "ms_cancelled (sr_server s)" and "routine_ok (sr_server s) g"
  shows "rank g' < rank g"
  using assms by (cases rule: go_step.cases) (auto simp: quiet_def)

lemma sum_list_update_less:
  "i < length xs \<Longrightarrow> f y < f (xs ! i) \<Longrightarrow> sum_list (map f (xs[i := y])) < (sum_list (map f xs) :: nat)"
proof (induction xs arbitrary: i)
  case (Cons x xs)
  then show ?case by (cases i) simp_all
qed simp

lemma distance_step:
  assumes "run_step env z s s'" and "quiet s" and "sr_pc s \<noteq> NotCalled"
  shows "distance s' < distance s \<and> sr_pc s' \<noteq> NotCalled"
  using assms(1)
proof (cases rule: run_step.cases)
  case (routine i g s'')
  have c: "ms_cancelled (sr_server s)" "routine_ok (sr_server s) (sr_routines s ! i)"
    using assms(2,3) routine(2) by (simp_all add: quiet_def)
  from sum_list_update_less [OF routine(2) rank_go_step [OF routine(3) assms(2) c]]
  show ?thesis using routine(1) go_step_frame [OF routine(3)] assms(3) by (simp add: distance_def)
qed (use assms(3) in \<open>simp_all add: distance_def\<close>)

lemma started_run:
  "(run_step env z)\<^sup>*\<^sup>* s s' \<Longrightarrow> quiet s \<Longrightarrow> sr_pc s \<noteq> NotCalled \<Longrightarrow> quiet s' \<and> sr_pc s' \<noteq> NotCalled"
  by (induction rule: rtranclp_induct) (auto dest: quiet_step distance_step)

lemma distance_run:
  "(run_step env z ^^ n) s s' \<Longrightarrow> quiet s \<Longrightarrow> sr_pc s \<noteq> NotCalled \<Longrightarrow> distance s' + n \<le> distance s"
proof (induction n arbitrary: s')
  case (Suc n)
  then obtain t where t: "(run_step env z ^^ n) s t" "run_step env z t s'" by auto
  then have "quiet t \<and> sr_pc t \<noteq> NotCalled"
    using started_run Suc.prems(2,3) by (meson relpowp_imp_rtranclp)
  then have "distance s' < distance t" using distance_step [OF t(2)] by blast
  with Suc.IH [OF t(1) Suc.prems(2,3)] show ?case by simp
qed simp

text \<open>And until it has returned there is always a step to take.\<close>

lemma quiet_progress:
  assumes "quiet s" and "sr_pc s = LinksOpen \<or> sr_pc s = LinksClosed"
  shows "\<exists>s'. run_step env z s s'"
proof (cases "sr_pc s = LinksOpen \<or> set (sr_routines s) \<subseteq> {Finished}")
  case True
  then show ?thesis using assms(2) by (auto intro: stop_close stop_return)
next
  case False
  then obtain i where i: "i < length (sr_routines s)" "sr_routines s ! i \<noteq> Finished"
    by (metis in_set_conv_nth insertI1 subsetI)
  have q: "ms_cancelled (sr_server s)" "ms_stop_persist_closed (sr_server s)"
    "ms_node_path (sr_server s) \<noteq> [] \<Longrightarrow> ms_stop_node_closed (sr_server s)"
    "routine_ok (sr_server s) (sr_routines s ! i)"
    using assms i(1) by (auto simp: quiet_def)
  have "\<exists>g s'. go_step env s (sr_routines s ! i) g s'"
  proof (cases "sr_routines s ! i")
    case (Handling l msg)
    then have "\<not> takes_mutex msg (sr_server s)" using q(4) by (simp add: takes_mutex_def harmless_def)
    then show ?thesis using Handling go_step.handle by fastforce
  qed (use i(2) q in \<open>auto intro: go_step.intros\<close>)
  then show ?thesis using routine [OF i(1)] by blast
qed

lemma quiet_returns:
  "quiet s \<Longrightarrow> sr_pc s \<noteq> NotCalled \<Longrightarrow> \<exists>s'. (run_step env z)\<^sup>*\<^sup>* s s' \<and> sr_pc s' = Returned"
proof (induction "distance s" arbitrary: s rule: less_induct)
  case less
  show ?case
  proof (cases "sr_pc s = Returned")
    case False
    then have "sr_pc s = LinksOpen \<or> sr_pc s = LinksClosed" using less.prems(2) by (cases "sr_pc s") simp_all
    then obtain t where t: "run_step env z s t" using quiet_progress [OF less.prems(1)] by blast
    note d = distance_step [OF t less.prems]
    from less.hyps [OF d [THEN conjunct1] quiet_step [OF t less.prems(1)] d [THEN conjunct2]]
    obtain s' where "(run_step env z)\<^sup>*\<^sup>* t s'" "sr_pc s' = Returned" by blast
    with t show ?thesis by (meson converse_rtranclp_into_rtranclp)
  qed blast
qed

section \<open>Every schedule computes the atomic stop\<close>

text \<open>
  On silent links the shared state is a function of where \<open>Stop\<close> is, which save loops have ended and
  the serial gauge (which the receive loops may have cleared already).
\<close>

definition shut :: "env \<Rightarrow> zone_v1 option write_outcome \<Rightarrow> mesh_server \<Rightarrow> bool \<Rightarrow> stop_pc \<Rightarrow> goroutine list \<Rightarrow> mesh_server" where
  "shut env z ms g pc rs =
     (let b = (if pc = NotCalled then ms else save_zones z (close_channels (cancel_server ms)));
          c = (if pc = LinksClosed \<or> pc = Returned then close_links b else b);
          d = (if AuthSaver \<in> set rs \<or> ms_auth_path ms = [] then c else save_auth env c);
          e = (if NodeSaver \<in> set rs \<or> ms_node_path ms = [] then d else save_nodes env d)
      in e\<lparr> ms_gauge := g, ms_processors := (if pc = Returned then [] else ms_processors ms) \<rparr>)"

definition silent_inv :: "env \<Rightarrow> zone_v1 option write_outcome \<Rightarrow> mesh_server \<Rightarrow> server_run \<Rightarrow> bool" where
  "silent_inv env z ms s \<longleftrightarrow>
     (\<exists>g. sr_server s = shut env z ms g (sr_pc s) (sr_routines s) \<and>
        (sr_pc s = LinksClosed \<or> sr_pc s = Returned \<longrightarrow> ms_serial_comm ms \<longrightarrow> \<not> g)) \<and>
     (\<forall>l. sr_inbox s l = []) \<and> sr_ticks s = 0 \<and>
     (\<forall>g \<in> set (sr_routines s). (\<forall>l msg. g \<noteq> Handling l msg) \<and> g \<noteq> Checking) \<and>
     count_list (sr_routines s) AuthSaver \<le> 1 \<and> count_list (sr_routines s) NodeSaver \<le> 1 \<and>
     (AuthSaver \<in> set (sr_routines s) \<longrightarrow> ms_auth_path ms \<noteq> []) \<and>
     (NodeSaver \<in> set (sr_routines s) \<longrightarrow> ms_node_path ms \<noteq> []) \<and>
     (sr_pc s = NotCalled \<longrightarrow> (ms_auth_path ms \<noteq> [] \<longrightarrow> AuthSaver \<in> set (sr_routines s)) \<and>
        (ms_node_path ms \<noteq> [] \<longrightarrow> NodeSaver \<in> set (sr_routines s))) \<and>
     (sr_pc s = Returned \<longrightarrow> set (sr_routines s) \<subseteq> {Finished})"

lemma shut_gauge: "(shut env z ms g pc rs)\<lparr> ms_gauge := g' \<rparr> = shut env z ms g' pc rs"
  by (simp add: shut_def Let_def)

lemma shut_begin:
  assumes "AuthSaver \<in> set rs \<or> ms_auth_path ms = []" and "NodeSaver \<in> set rs \<or> ms_node_path ms = []"
  shows "save_zones z (close_channels (cancel_server (shut env z ms g NotCalled rs))) = shut env z ms g LinksOpen rs"
  using assms by (simp add: shut_def Let_def save_zones_def close_channels_def cancel_server_def)

text \<open>The parts of a stop commute with each other.\<close>

lemma close_links_commutes:
  "close_links (save_auth env x) = save_auth env (close_links x)"
  "close_links (save_nodes env x) = save_nodes env (close_links x)"
  "close_links (x\<lparr> ms_gauge := g, ms_processors := p \<rparr>) =
     (close_links x)\<lparr> ms_gauge := (if ms_serial_comm x then False else g), ms_processors := p \<rparr>"
  by (cases "ms_serial_comm x"; cases "ms_secondary_comm x";
      simp add: close_links_def save_auth_def save_nodes_def)+

lemma stop_parts_fields:
  "ms_serial_comm (save_zones z (close_channels (cancel_server ms))) = ms_serial_comm ms"
  "ms_serial_comm (save_auth env ms) = ms_serial_comm ms"
  "ms_serial_comm (save_nodes env ms) = ms_serial_comm ms"
  "ms_auth_path (close_links ms) = ms_auth_path ms" "ms_node_path (close_links ms) = ms_node_path ms"
  "ms_auth_path (save_zones z (close_channels (cancel_server ms))) = ms_auth_path ms"
  "ms_node_path (save_zones z (close_channels (cancel_server ms))) = ms_node_path ms"
  "ms_node_path (save_auth env ms) = ms_node_path ms"
  "ms_gauge (save_auth env ms) = ms_gauge ms" "ms_gauge (save_nodes env ms) = ms_gauge ms"
  "ms_gauge (close_links ms) = (ms_gauge ms \<and> \<not> ms_serial_comm ms)"
  by (simp_all add: save_zones_def close_channels_def cancel_server_def save_auth_def save_nodes_def
      close_links_def Let_def)

lemma shut_close:
  "close_links (shut env z ms g LinksOpen rs) =
     shut env z ms (if ms_serial_comm ms then False else g) LinksClosed rs"
  by (simp add: shut_def Let_def close_links_commutes stop_parts_fields)

lemma shut_return: "(shut env z ms g LinksClosed rs)\<lparr> ms_processors := [] \<rparr> = shut env z ms g Returned rs"
  by (simp add: shut_def Let_def)

lemma shut_auth_saved:
  assumes "AuthSaver \<in> set rs" "AuthSaver \<notin> set rs'" "NodeSaver \<in> set rs' \<longleftrightarrow> NodeSaver \<in> set rs" "ms_auth_path ms \<noteq> []"
  shows "save_auth env (shut env z ms g pc rs) = shut env z ms g pc rs'"
  using assms by (simp add: shut_def Let_def save_zones_def close_channels_def cancel_server_def close_links_def
      save_auth_def save_nodes_def)

lemma shut_nodes_saved:
  assumes "NodeSaver \<in> set rs" "NodeSaver \<notin> set rs'" "AuthSaver \<in> set rs' \<longleftrightarrow> AuthSaver \<in> set rs" "ms_node_path ms \<noteq> []"
  shows "save_nodes env (shut env z ms g pc rs) = shut env z ms g pc rs'"
  using assms by (simp add: shut_def Let_def save_zones_def close_channels_def cancel_server_def close_links_def
      save_auth_def save_nodes_def)

lemma shut_same_savers:
  "(AuthSaver \<in> set rs' \<longleftrightarrow> AuthSaver \<in> set rs) \<Longrightarrow> (NodeSaver \<in> set rs' \<longleftrightarrow> NodeSaver \<in> set rs) \<Longrightarrow>
     shut env z ms g pc rs' = shut env z ms g pc rs"
  by (simp add: shut_def)

lemma finish_loops_saves:
  "finish_loops env ms =
     (let ms1 = (if ms_auth_path ms = [] then ms else save_auth env ms);
          ms2 = (if ms_node_path ms = [] then ms1 else save_nodes env ms1)
      in ms2\<lparr> ms_processors := [] \<rparr>)"
  by (simp add: finish_loops_def save_auth_def save_nodes_def Let_def)

lemma stop_channels:
  "\<not> ms_stop_persist_closed ms \<Longrightarrow> \<not> ms_stop_node_closed ms \<Longrightarrow> ms_running ms \<Longrightarrow>
     stop env z ms = (Ret None, finish_loops env (close_links (save_zones z (close_channels (cancel_server ms)))))"
proof -
  assume a: "\<not> ms_stop_persist_closed ms" "\<not> ms_stop_node_closed ms" "ms_running ms"
  have same: "x\<lparr> ms_stop_node_closed := False \<rparr> = x" if "\<not> ms_stop_node_closed x" for x
    using that by (cases x) simp
  have "close_channels (cancel_server ms) =
      (if ms_node_path ms \<noteq> [] then (cancel_server ms)\<lparr> ms_stop_persist_closed := True, ms_stop_node_closed := True \<rparr>
       else (cancel_server ms)\<lparr> ms_stop_persist_closed := True \<rparr>)"
    using a(2) same [of "(cancel_server ms)\<lparr> ms_stop_persist_closed := True \<rparr>"]
    by (simp add: close_channels_def cancel_server_def)
  with a show ?thesis by (simp add: stop_def cancel_server_def Let_def)
qed

lemma gauge_same: "ms_gauge x = g \<Longrightarrow> x\<lparr> ms_gauge := g, ms_processors := p \<rparr> = x\<lparr> ms_processors := p \<rparr>"
  by (cases x) simp

lemma shut_stop:
  assumes "ms_running ms" "\<not> ms_stop_persist_closed ms" "\<not> ms_stop_node_closed ms" "ms_serial_comm ms"
    and "set rs \<subseteq> {Finished}"
  shows "stop env z ms = (Ret None, shut env z ms False Returned rs)"
proof -
  have s: "AuthSaver \<notin> set rs" "NodeSaver \<notin> set rs" using assms(5) by auto
  show ?thesis
    unfolding stop_channels [OF assms(2,3,1)] shut_def finish_loops_saves Let_def
    using s assms(4) by (simp add: gauge_same stop_parts_fields)
qed

text \<open>The invariant holds from the start and in every step.\<close>

lemma count_list_0: "count_list xs x = 0 \<longleftrightarrow> x \<notin> set xs"
  by (induction xs) auto

lemma count_list_update:
  "i < length xs \<Longrightarrow> count_list (xs[i := y]) x + (if xs ! i = x then 1 else 0) = count_list xs x + (if y = x then 1 else 0)"
proof (induction xs arbitrary: i)
  case (Cons a xs)
  show ?case
  proof (cases i)
    case (Suc j)
    then show ?thesis using Cons.IH [of j] Cons.prems by (cases "y = x"; cases "xs ! j = x") auto
  qed simp
qed simp

lemma member_update:
  assumes "i < length xs" and "count_list xs x \<le> 1" and "y \<noteq> x"
  shows "x \<in> set (xs[i := y]) \<longleftrightarrow> x \<in> set xs \<and> xs ! i \<noteq> x"
  using count_list_update [OF assms(1), of y x] count_list_0 [of "xs[i := y]" x] count_list_0 [of xs x] assms(2,3)
  by (auto split: if_splits)

lemma count_receivers [simp]:
  "count_list (map (\<lambda>l. Selecting l 0) ls) AuthSaver = 0" "count_list (map (\<lambda>l. Selecting l 0) ls) NodeSaver = 0"
  by (induction ls) simp_all

lemma silent_start: "silent_inv env z ms (run_of ms (\<lambda>l. []) 0)"
proof -
  have "ms = shut env z ms (ms_gauge ms) NotCalled (routines_of ms)"
    by (cases ms) (simp add: shut_def routines_of_def Let_def)
  then show ?thesis by (auto simp: silent_inv_def run_of_def routines_of_def)
qed

text \<open>What a goroutine does on silent links: it moves on, or it saves and ends, or it clears the gauge.\<close>

definition at_most_gauge :: "mesh_server \<Rightarrow> mesh_server \<Rightarrow> bool" where
  "at_most_gauge a b \<longleftrightarrow> b = a \<or> b = a\<lparr> ms_gauge := False \<rparr>"

lemma at_most_gauge_refl [simp]: "at_most_gauge a a"
  by (simp only: at_most_gauge_def simp_thms)

lemma read_error_gauge: "at_most_gauge ms (ps_server (process_read env l (Inl e) k ms))"
  unfolding at_most_gauge_def
  by (cases "k + 1 = max_consecutive_errors + 1 \<and> l = Primary") (simp_all only: process_read_def Let_def sum.case
      proc_step.simps if_True if_False simp_thms)

lemma silent_go_step:
  assumes "go_step env s g g' s'" and "\<forall>l. sr_inbox s l = []" and "sr_ticks s = 0"
    and "\<forall>l msg. g \<noteq> Handling l msg" and "g \<noteq> Checking"
  shows "sr_inbox s' = sr_inbox s \<and> sr_ticks s' = 0 \<and> g' \<noteq> AuthSaver \<and> g' \<noteq> NodeSaver \<and>
     (\<forall>l msg. g' \<noteq> Handling l msg) \<and> g' \<noteq> Checking \<and> (g \<in> {AuthSaver, NodeSaver} \<longrightarrow> g' = Finished) \<and>
     (if g = AuthSaver then sr_server s' = save_auth env (sr_server s)
      else if g = NodeSaver then sr_server s' = save_nodes env (sr_server s)
      else at_most_gauge (sr_server s) (sr_server s'))"
  using assms(1)
proof (cases rule: go_step.cases)
  case (read_error st l e k)
  then show ?thesis using assms(2-) read_error_gauge [of "sr_server s" env l e k] by simp
next
  case (read_frame l msg msgs k)
  then show ?thesis using assms(2) by simp
next
  case (auth_tick n)
  then show ?thesis using assms(3) by simp
next
  case (node_tick n)
  then show ?thesis using assms(3) by simp
next
  case (watch_tick n)
  then show ?thesis using assms(3) by simp
qed (use assms(2-) in simp_all)

lemma finished_ends: "\<not> go_step env s Finished g' s'"
  by (auto elim: go_stepE)

lemma saver_waits:
  assumes "go_step env s g g' s'" and "sr_ticks s = 0"
  shows "(g = AuthSaver \<longrightarrow> ms_stop_persist_closed (sr_server s)) \<and> (g = NodeSaver \<longrightarrow> ms_stop_node_closed (sr_server s))"
  using assms by (cases rule: go_step.cases) simp_all

lemma shut_not_called:
  "ms_stop_persist_closed (shut env z ms g NotCalled rs) = ms_stop_persist_closed ms"
  "ms_stop_node_closed (shut env z ms g NotCalled rs) = ms_stop_node_closed ms"
  "ms_running (shut env z ms g NotCalled rs) = ms_running ms"
  "ms_node_path (shut env z ms g pc rs) = ms_node_path ms"
  by (simp_all add: shut_def Let_def save_auth_def save_nodes_def stop_parts_fields)

lemma silent_routine:
  assumes inv: "silent_inv env z ms s" and i: "i < length (sr_routines s)"
    and st: "go_step env s (sr_routines s ! i) g' s'"
    and open_chans: "\<not> ms_stop_persist_closed ms" "\<not> ms_stop_node_closed ms"
  shows "silent_inv env z ms (s'\<lparr> sr_routines := (sr_routines s)[i := g'] \<rparr>)"
proof -
  let ?rs = "sr_routines s" and ?rs' = "(sr_routines s)[i := g']"
  obtain g where server: "sr_server s = shut env z ms g (sr_pc s) ?rs"
    and gauge: "sr_pc s = LinksClosed \<or> sr_pc s = Returned \<Longrightarrow> ms_serial_comm ms \<Longrightarrow> \<not> g"
    using inv unfolding silent_inv_def by blast
  have mem: "?rs ! i \<in> set ?rs" using i by simp
  have q: "\<forall>l. sr_inbox s l = []" "sr_ticks s = 0" "\<forall>l msg. ?rs ! i \<noteq> Handling l msg" "?rs ! i \<noteq> Checking"
    and cnt: "count_list ?rs AuthSaver \<le> 1" "count_list ?rs NodeSaver \<le> 1"
    using inv mem unfolding silent_inv_def by blast+
  note go = silent_go_step [OF st q] and fr = go_step_frame [OF st]
  have saver: "AuthSaver \<in> set ?rs' \<longleftrightarrow> AuthSaver \<in> set ?rs \<and> ?rs ! i \<noteq> AuthSaver"
    "NodeSaver \<in> set ?rs' \<longleftrightarrow> NodeSaver \<in> set ?rs \<and> ?rs ! i \<noteq> NodeSaver"
    using member_update [OF i cnt(1), of g'] member_update [OF i cnt(2), of g'] go by blast+
  have paths: "AuthSaver \<in> set ?rs \<Longrightarrow> ms_auth_path ms \<noteq> []" "NodeSaver \<in> set ?rs \<Longrightarrow> ms_node_path ms \<noteq> []"
    using inv unfolding silent_inv_def by blast+
  have alive: "sr_pc s \<noteq> Returned"
    using finished_ends [of env s g' s'] st mem inv unfolding silent_inv_def by auto
  have early: "sr_pc s \<noteq> NotCalled" if "?rs ! i = AuthSaver \<or> ?rs ! i = NodeSaver"
    using saver_waits [OF st q(2)] that server shut_not_called(1,2) [of env z ms g ?rs] open_chans by auto
  have cnt': "count_list ?rs' AuthSaver \<le> 1" "count_list ?rs' NodeSaver \<le> 1"
    using count_list_update [OF i, of g' AuthSaver] count_list_update [OF i, of g' NodeSaver] cnt go by auto
  have sub: "set ?rs' \<subseteq> insert g' (set ?rs)" by (rule set_update_subset_insert)
  have "\<exists>g2. sr_server s' = shut env z ms g2 (sr_pc s) ?rs' \<and>
      (sr_pc s = LinksClosed \<or> sr_pc s = Returned \<longrightarrow> ms_serial_comm ms \<longrightarrow> \<not> g2)"
  proof -
    consider (a) "?rs ! i = AuthSaver" | (n) "?rs ! i = NodeSaver" | (o1) "?rs ! i \<notin> {AuthSaver, NodeSaver}" by blast
    then show ?thesis
    proof cases
      case a
      then have "save_auth env (shut env z ms g (sr_pc s) ?rs) = shut env z ms g (sr_pc s) ?rs'"
        using saver mem paths by (intro shut_auth_saved) auto
      then show ?thesis using a go server gauge by auto
    next
      case n
      then have "save_nodes env (shut env z ms g (sr_pc s) ?rs) = shut env z ms g (sr_pc s) ?rs'"
        using saver mem paths by (intro shut_nodes_saved) auto
      then show ?thesis using n go server gauge by auto
    next
      case o1
      then have same: "shut env z ms h (sr_pc s) ?rs' = shut env z ms h (sr_pc s) ?rs" for h
        using saver by (intro shut_same_savers) auto
      from o1 go have "sr_server s' = sr_server s \<or> sr_server s' = (sr_server s)\<lparr> ms_gauge := False \<rparr>"
        unfolding at_most_gauge_def [symmetric] by auto
      then show ?thesis unfolding same server shut_gauge using gauge by blast
    qed
  qed
  moreover have "\<forall>g2 \<in> set ?rs'. (\<forall>l msg. g2 \<noteq> Handling l msg) \<and> g2 \<noteq> Checking"
    using sub go inv unfolding silent_inv_def by blast
  moreover have "sr_pc s = NotCalled \<longrightarrow> (ms_auth_path ms \<noteq> [] \<longrightarrow> AuthSaver \<in> set ?rs') \<and>
      (ms_node_path ms \<noteq> [] \<longrightarrow> NodeSaver \<in> set ?rs')"
    using early saver inv unfolding silent_inv_def by blast
  ultimately show ?thesis
    using fr go saver paths alive cnt' q(1) unfolding silent_inv_def by simp
qed

lemma silent_step:
  assumes step: "run_step env z s s'" and inv: "silent_inv env z ms s"
    and open_chans: "\<not> ms_stop_persist_closed ms" "\<not> ms_stop_node_closed ms"
  shows "silent_inv env z ms s'"
  using step
proof (cases rule: run_step.cases)
  case stop_begin
  obtain g where "sr_server s = shut env z ms g NotCalled (sr_routines s)"
    using inv stop_begin(2) unfolding silent_inv_def by metis
  moreover have "AuthSaver \<in> set (sr_routines s) \<or> ms_auth_path ms = []"
    "NodeSaver \<in> set (sr_routines s) \<or> ms_node_path ms = []"
    using inv stop_begin(2) unfolding silent_inv_def by blast+
  ultimately have "save_zones z (close_channels (cancel_server (sr_server s))) = shut env z ms g LinksOpen (sr_routines s)"
    by (simp only: shut_begin)
  then show ?thesis using inv stop_begin unfolding silent_inv_def by auto
next
  case stop_close
  obtain g where "sr_server s = shut env z ms g LinksOpen (sr_routines s)"
    using inv stop_close(2) unfolding silent_inv_def by metis
  then have "close_links (sr_server s) =
      shut env z ms (if ms_serial_comm ms then False else g) LinksClosed (sr_routines s)"
    by (simp only: shut_close)
  then show ?thesis using inv stop_close unfolding silent_inv_def by auto
next
  case stop_return
  obtain g where "sr_server s = shut env z ms g LinksClosed (sr_routines s)" "ms_serial_comm ms \<longrightarrow> \<not> g"
    using inv stop_return(2) unfolding silent_inv_def by metis
  then have "(sr_server s)\<lparr> ms_processors := [] \<rparr> = shut env z ms g Returned (sr_routines s) \<and> (ms_serial_comm ms \<longrightarrow> \<not> g)"
    by (simp only: shut_return)
  then show ?thesis using inv stop_return unfolding silent_inv_def by auto
next
  case (routine i g s'')
  show ?thesis unfolding routine(1) by (rule silent_routine [OF inv routine(2,3) open_chans])
qed

lemma silent_run:
  "(run_step env z)\<^sup>*\<^sup>* s s' \<Longrightarrow> silent_inv env z ms s \<Longrightarrow> \<not> ms_stop_persist_closed ms \<Longrightarrow>
     \<not> ms_stop_node_closed ms \<Longrightarrow> silent_inv env z ms s'"
  by (induction rule: rtranclp_induct) (auto dest: silent_step)

section \<open>Properties\<close>

text \<open>
  C9. A stop can wait for itself. If a ticker of the offline detector fires, or a health report
  has arrived on a link, when \<open>Stop\<close> is called, there is a schedule in which \<open>Stop\<close> takes the server's
  mutex and then waits for a goroutine that waits for the mutex: from that state on no run, however
  it is scheduled, lets \<open>Stop\<close> return or release the mutex.
\<close>

theorem stop_can_wait_for_itself:
  assumes run: "ms_running ms" "\<not> ms_cancelled ms" "\<not> ms_stop_persist_closed ms" "\<not> ms_stop_node_closed ms"
    and busy: "ticks \<noteq> 0 \<or> (\<exists>l \<in> set (ms_processors ms). \<exists>msg rest. inbox l = msg # rest \<and> health_frame msg)"
  shows "\<exists>s. (run_step env z)\<^sup>*\<^sup>* (run_of ms inbox ticks) s \<and> sr_pc s = LinksOpen \<and>
     (\<forall>s'. (run_step env z)\<^sup>*\<^sup>* s s' \<longrightarrow> sr_pc s' \<noteq> Returned \<and> stop_holds_mutex s')"
proof -
  obtain t i where t: "(run_step env z)\<^sup>*\<^sup>* (run_of ms inbox ticks) t" "sr_pc t = LinksOpen" "stuck_at i t"
    using busy frame_gets_stuck [OF run] tick_gets_stuck [OF run(1,3,4)] by (metis not0_implies_Suc)
  have "sr_pc s' \<noteq> Returned \<and> stop_holds_mutex s'" if "(run_step env z)\<^sup>*\<^sup>* t s'" for s'
    using stuck_run [OF that t(3)] by (auto simp: stuck_at_def stop_holds_mutex_def)
  with t show ?thesis by blast
qed

definition example_report :: mesh_message where
  "example_report = zero_message\<lparr> proto_version := 5, message_type := MessageTypeAdapterData,
     data_type := AdapterTypeSerial, msg_data := OpHealthReport # replicate 11 0 \<rparr>"

lemma example_report_health: "health_frame example_report"
  by (simp add: health_frame_def example_report_def parse_health_report_def)

lemma started_hub: "\<exists>ms. new_mesh_server empty_config Missing Missing Missing no_key no_key = Ret ms \<and>
    ms_running (snd (start (quiet_env 1) None None ms)) \<and> \<not> ms_cancelled (snd (start (quiet_env 1) None None ms)) \<and>
    \<not> ms_stop_persist_closed (snd (start (quiet_env 1) None None ms)) \<and>
    \<not> ms_stop_node_closed (snd (start (quiet_env 1) None None ms)) \<and>
    ms_serial_comm (snd (start (quiet_env 1) None None ms)) \<and>
    ms_processors (snd (start (quiet_env 1) None None ms)) = [Primary]"
  by (simp add: new_mesh_server_def empty_config_def start_def record_frame_def Let_def)

theorem stop_can_wait_for_itself_witness:
  "\<exists>ms s. new_mesh_server empty_config Missing Missing Missing no_key no_key = Ret ms \<and>
     (run_step (quiet_env 2) Written)\<^sup>*\<^sup>*
       (run_of (snd (start (quiet_env 1) None None ms)) (\<lambda>l. [example_report]) 0) s \<and> sr_pc s = LinksOpen \<and>
     (\<forall>s'. (run_step (quiet_env 2) Written)\<^sup>*\<^sup>* s s' \<longrightarrow> sr_pc s' \<noteq> Returned \<and> stop_holds_mutex s')"
proof -
  obtain ms where ms: "new_mesh_server empty_config Missing Missing Missing no_key no_key = Ret ms"
    and st: "ms_running (snd (start (quiet_env 1) None None ms))" "\<not> ms_cancelled (snd (start (quiet_env 1) None None ms))"
    "\<not> ms_stop_persist_closed (snd (start (quiet_env 1) None None ms))"
    "\<not> ms_stop_node_closed (snd (start (quiet_env 1) None None ms))"
    "ms_processors (snd (start (quiet_env 1) None None ms)) = [Primary]"
    using started_hub by blast
  have "(0 :: nat) \<noteq> 0 \<or> (\<exists>l \<in> set (ms_processors (snd (start (quiet_env 1) None None ms))).
      \<exists>msg rest. [example_report] = msg # rest \<and> health_frame msg)"
    using st(5) example_report_health by simp
  from stop_can_wait_for_itself [OF st(1-4) this] ms show ?thesis by blast
qed

text \<open>
  C8. Otherwise a stop returns. If no ticker fires and neither a health report nor a join request
  is on its way when \<open>Stop\<close> has taken the mutex, then every run from there ends with \<open>Stop\<close> returned,
  after at most three steps for each goroutine and two of its own. And on silent links the result is,
  whatever the schedule, the one that \<open>stop\<close> computes in one go, the final saves included.
\<close>

theorem quiet_stop_returns:
  assumes harmless: "\<forall>l. \<forall>msg \<in> set (inbox l). harmless msg"
    and reach: "(run_step env z)\<^sup>*\<^sup>* (run_of ms inbox 0) s" and pc: "sr_pc s = LinksOpen"
  shows "(\<forall>n s'. (run_step env z ^^ n) s s' \<longrightarrow> n \<le> 3 * length (sr_routines s) + 2) \<and>
     (\<forall>s'. (run_step env z)\<^sup>*\<^sup>* s s' \<and> (\<nexists>t. run_step env z s' t) \<longrightarrow> sr_pc s' = Returned) \<and>
     (\<exists>s'. (run_step env z)\<^sup>*\<^sup>* s s' \<and> sr_pc s' = Returned) \<and>
     ((\<forall>l. inbox l = []) \<and> ms_running ms \<and> ms_serial_comm ms \<and> \<not> ms_stop_persist_closed ms \<and> \<not> ms_stop_node_closed ms \<longrightarrow>
      (\<forall>s'. (run_step env z)\<^sup>*\<^sup>* s s' \<and> sr_pc s' = Returned \<longrightarrow> stop env z ms = (Ret None, sr_server s')))"
proof (intro conjI)
  have "quiet (run_of ms inbox 0)"
    using harmless by (auto simp: quiet_def run_of_def routines_of_def)
  then have q: "quiet s" by (rule quiet_run [OF reach])
  have d: "distance s \<le> 3 * length (sr_routines s) + 2"
  proof -
    have "sum_list (map rank gs) \<le> 3 * length gs" for gs
    proof (induction gs)
      case (Cons g gs)
      then show ?case by (cases g) simp_all
    qed simp
    then show ?thesis by (simp add: distance_def pc)
  qed
  show "\<forall>n s'. (run_step env z ^^ n) s s' \<longrightarrow> n \<le> 3 * length (sr_routines s) + 2"
    using distance_run [OF _ q] pc d by (metis add_leD2 le_trans stop_pc.distinct(1))
  note run = started_run [OF _ q, of env z]
  have pc': "sr_pc s \<noteq> NotCalled" using pc by simp
  show "\<forall>s'. (run_step env z)\<^sup>*\<^sup>* s s' \<and> (\<nexists>t. run_step env z s' t) \<longrightarrow> sr_pc s' = Returned"
    using run [OF _ pc'] quiet_progress by (metis stop_pc.exhaust)
  show "\<exists>s'. (run_step env z)\<^sup>*\<^sup>* s s' \<and> sr_pc s' = Returned" by (rule quiet_returns [OF q pc'])
  show "(\<forall>l. inbox l = []) \<and> ms_running ms \<and> ms_serial_comm ms \<and> \<not> ms_stop_persist_closed ms \<and> \<not> ms_stop_node_closed ms \<longrightarrow>
      (\<forall>s'. (run_step env z)\<^sup>*\<^sup>* s s' \<and> sr_pc s' = Returned \<longrightarrow> stop env z ms = (Ret None, sr_server s'))"
  proof (intro impI allI)
    fix s' assume a: "(\<forall>l. inbox l = []) \<and> ms_running ms \<and> ms_serial_comm ms \<and> \<not> ms_stop_persist_closed ms \<and> \<not> ms_stop_node_closed ms"
      and s': "(run_step env z)\<^sup>*\<^sup>* s s' \<and> sr_pc s' = Returned"
    have "inbox = (\<lambda>l. [])" using a by auto
    with reach s' have "(run_step env z)\<^sup>*\<^sup>* (run_of ms (\<lambda>l. []) 0) s'" by (simp add: rtranclp_trans)
    from silent_run [OF this silent_start] a have inv: "silent_inv env z ms s'" by blast
    then obtain g where "sr_server s' = shut env z ms g Returned (sr_routines s')" "\<not> g"
        "set (sr_routines s') \<subseteq> {Finished}"
      using s' a unfolding silent_inv_def by metis
    with shut_stop [of ms "sr_routines s'" env z] a show "stop env z ms = (Ret None, sr_server s')" by simp
  qed
qed

theorem quiet_stop_returns_witness:
  "\<exists>ms s'. new_mesh_server empty_config Missing Missing Missing no_key no_key = Ret ms \<and>
     (run_step (quiet_env 2) Written)\<^sup>*\<^sup>* (run_of (snd (start (quiet_env 1) None None ms)) (\<lambda>l. []) 0) s' \<and>
     sr_pc s' = Returned \<and>
     stop (quiet_env 2) Written (snd (start (quiet_env 1) None None ms)) = (Ret None, sr_server s')"
proof -
  obtain ms where ms: "new_mesh_server empty_config Missing Missing Missing no_key no_key = Ret ms"
    and st: "ms_running (snd (start (quiet_env 1) None None ms))"
    "\<not> ms_stop_persist_closed (snd (start (quiet_env 1) None None ms))"
    "\<not> ms_stop_node_closed (snd (start (quiet_env 1) None None ms))"
    "ms_serial_comm (snd (start (quiet_env 1) None None ms))"
    using started_hub by blast
  let ?ms = "snd (start (quiet_env 1) None None ms)"
  let ?init = "run_of ?ms (\<lambda>l. []) 0"
  let ?s = "?init\<lparr> sr_pc := LinksOpen, sr_server := save_zones Written (close_channels (cancel_server ?ms)) \<rparr>"
  have srv: "sr_server ?init = ?ms" by (simp add: run_of_def)
  have "run_step (quiet_env 2) Written ?init (?init\<lparr> sr_pc := LinksOpen,
      sr_server := save_zones Written (close_channels (cancel_server (sr_server ?init))) \<rparr>)"
    by (rule run_step.stop_begin) (use st in \<open>simp_all add: run_of_def\<close>)
  then have r: "(run_step (quiet_env 2) Written)\<^sup>*\<^sup>* ?init ?s" unfolding srv by blast
  have pc: "sr_pc ?s = LinksOpen" by simp
  have "\<forall>l. \<forall>msg \<in> set ((\<lambda>l. []) l). harmless msg" by simp
  note th = quiet_stop_returns [OF this r pc]
  then obtain s' where s': "(run_step (quiet_env 2) Written)\<^sup>*\<^sup>* ?s s'" "sr_pc s' = Returned" by blast
  have "stop (quiet_env 2) Written ?ms = (Ret None, sr_server s')" using th st s' by blast
  with ms s' r show ?thesis by (meson rtranclp_trans)
qed

text \<open>
  C16. Writers on one port. \<open>WriteFrame\<close> writes the length and the message in two calls, and the hub
  holds no lock around them. For any two LED commands there is a schedule of the four calls after
  which the second is lost, and with it up to 17 commands written whole after both: the reader gets the
  first without its protocol version, which the simulator handles like the command itself, then takes
  the end of it for the header of a frame of 1360 bytes and waits for more than all that was written.
\<close>

theorem unlocked_writers_lose_commands:
  assumes d: "length d = 64" and d': "length d' = 64" and later: "\<forall>e \<in> set later. length e = 64" "length later \<le> 17"
  shows "\<exists>sched \<in> shuffles (frame_writes proto_marshal (led_frame d)) (frame_writes proto_marshal (led_frame d')).
     \<exists>rest. read_frame proto_unmarshal chunk
              (concat sched @ concat (map (\<lambda>e. concat (frame_writes proto_marshal (led_frame e))) later)) =
            (Inr (led_frame d\<lparr> proto_version := 0 \<rparr>), rest) \<and>
          (\<forall>wr s. handle_frame wr (led_frame d\<lparr> proto_version := 0 \<rparr>) s = handle_frame wr (led_frame d) s) \<and>
          of_le16 (rest ! 0) (rest ! 1) = 1360 \<and>
          read_frame proto_unmarshal chunk rest = (Inl ReadDataFailed, [])"
proof -
  let ?e = "[8, 3, 16, 6, 50, 64] @ d @ [80, 5 :: byte]" and ?e' = "[8, 3, 16, 6, 50, 64] @ d' @ [80, 5 :: byte]"
  let ?later = "concat (map (\<lambda>e. concat (frame_writes proto_marshal (led_frame e))) later)"
  let ?rest = "[80, 5] @ ?e' @ ?later"
  have "[[72, 0], [72, 0], ?e, ?e'] \<in> shuffles [[72, 0], ?e] [[72, 0], ?e']"
    by (simp add: Cons_in_shuffles_iff)
  then have sched: "[[72, 0], [72, 0], ?e, ?e'] \<in>
      shuffles (frame_writes proto_marshal (led_frame d)) (frame_writes proto_marshal (led_frame d'))"
    by (simp only: led_frame_writes d d')
  have "\<forall>e \<in> set later. length (concat (frame_writes proto_marshal (led_frame e))) = 74"
    using later(1) by (simp add: led_frame_writes)
  then have len: "length ?later = 74 * length later" by (induction later) simp_all
  have "read_frame proto_unmarshal chunk (concat [[72, 0], [72, 0], ?e, ?e'] @ ?later) =
      (Inr (led_frame d\<lparr> proto_version := 0 \<rparr>), ?rest)"
    using torn_frame [OF d] d d' by (simp add: read_frame_def led_header Let_def)
  moreover have "read_frame proto_unmarshal chunk ?rest = (Inl ReadDataFailed, [])"
    using d' len later(2) by (simp add: read_frame_def torn_header Let_def)
  moreover have "of_le16 (?rest ! 0) (?rest ! 1) = 1360" by (simp add: torn_header)
  moreover have "handle_frame wr (led_frame d\<lparr> proto_version := 0 \<rparr>) s = handle_frame wr (led_frame d) s" for wr s
    by (simp add: handle_frame_def handle_join_ack_def handle_serial_op_def)
  ultimately show ?thesis using sched by blast
qed

theorem unlocked_writers_lose_commands_witness:
  "\<exists>sched \<in> shuffles (frame_writes proto_marshal (led_frame (replicate 64 1)))
        (frame_writes proto_marshal (led_frame (replicate 64 2))).
     \<exists>rest. read_frame proto_unmarshal (\<lambda>inp. 0)
          (concat sched @ concat (frame_writes proto_marshal (led_frame (replicate 64 3)))) =
        (Inr (led_frame (replicate 64 1)\<lparr> proto_version := 0 \<rparr>), rest) \<and>
      read_frame proto_unmarshal (\<lambda>inp. 0) rest = (Inl ReadDataFailed, [])"
proof -
  have "length (replicate 64 (1 :: byte)) = 64" "length (replicate 64 (2 :: byte)) = 64"
    "\<forall>e \<in> set [replicate 64 (3 :: byte)]. length e = 64" "length [replicate 64 (3 :: byte)] \<le> 17" by simp_all
  from unlocked_writers_lose_commands [OF this, of "\<lambda>inp. 0"] show ?thesis
    by (simp only: list.map concat.simps append_Nil2) blast
qed

text \<open>The frames are those that two requests for a command, served at the same time, write.\<close>

lemma led_frame_sent:
  assumes "ms_serial_comm ms" and "length d = 64"
  shows "ms_tx (snd (send_node_data env AdapterTypeLED d ms)) =
     (let l = active_outbound (en_now env) ms
      in ms_tx ms @ [(l, led_frame d, en_frame_err env l (led_frame d))])"
proof -
  have "go_copy (go_make MaxDataLength) 0 d = d" using assms(2) by (simp add: go_copy_def MaxDataLength_def)
  then show ?thesis using assms(1)
    by (simp add: send_node_data_def write_active_def write_link_def led_frame_def zero_message_def Let_def)
qed

end
