(* ===== verification/Approval_Race.thy ===== *)
theory Approval_Race
  imports Server_Claims
begin

text \<open>
  \<open>ApproveEnrollment\<close> (\<open>mesh/server.go\<close>) at the grain of the registries' locks. It holds no lock of its
  own, so approvals that are served at the same time (HTTP requests, and the repeated join requests
  that the receive loops answer) interleave between the calls it makes. Each call is one step here;
  \<open>approve_enrollment\<close> is what the steps amount to when nothing comes in between.
\<close>

section \<open>The steps of an approval\<close>

text \<open>
  Where an approval is, with its local variables: the parameters are those after the inheritance,
  \<open>Retired\<close> is after \<open>MarkReplaced\<close>, and \<open>Answered\<close> carries the result.
\<close>

datatype approval =
    Requested string approval_params
  | Decided node_auth approval_params
  | Chosen node_auth approval_params byte "byte list option" i32
  | Assigned node_auth approval_params byte "byte list option" i32
  | Retired node_auth approval_params byte i32
  | Announced node_auth byte i32
  | Sent
  | Answered "enroll_error option"

fun approval_next :: "env \<Rightarrow> approval \<Rightarrow> mesh_server \<Rightarrow> approval \<times> mesh_server" where
  "approval_next env (Requested mac_str p) ms =
     (case approve (en_now env) mac_str (ms_auth ms) of
        (Inl e, auth) \<Rightarrow> (Answered (Some (AuthError e)), ms)
      | (Inr node, auth) \<Rightarrow> (Decided node p, ms\<lparr> ms_auth := auth \<rparr>))"
| "approval_next env (Decided node p) ms =
     (let node_id = (if ap_node_id p = 0 then next_free_node_id (ms_nodes ms) else ap_node_id p);
          (old, p', inherited) = hotswap (na_mac node) p (ms_nodes ms)
      in (Chosen node p' node_id old inherited, ms))"
| "approval_next env (Chosen node p node_id old inherited) ms =
     (Assigned node p node_id old inherited,
      ms\<lparr> ms_nodes := assign_node (na_mac node) node_id (ap_name p) (ap_zone p) (ms_nodes ms) \<rparr>)"
| "approval_next env (Assigned node p node_id old inherited) ms =
     (Retired node p node_id inherited,
      case old of None \<Rightarrow> ms
        | Some mac \<Rightarrow> ms\<lparr> ms_nodes := mark_replaced mac (mac_to_string (na_mac node)) (ms_nodes ms) \<rparr>)"
| "approval_next env (Retired node p node_id inherited) ms =
     (Announced node node_id inherited,
      case get_node (na_mac node) (ms_nodes ms) of
        None \<Rightarrow> ms
      | Some n \<Rightarrow> publish_enrolled_event env n
          (if ap_adapter_type p = [] then ''unknown'' else ap_adapter_type p) ms)"
| "approval_next env (Announced node node_id inherited) ms =
     (Sent, send_approval_frames env node node_id inherited ms)"
| "approval_next env Sent ms =
     (let (err, ms') = persist_auth env ms in (Answered (map_option PersistFailed err), ms'))"
| "approval_next env (Answered r) ms = (Answered r, ms)"

text \<open>Left alone, the seven steps are the operation.\<close>

lemma approval_alone:
  "((\<lambda>(t, s). approval_next env t s) ^^ 7) (Requested mac_str p, ms) =
     (let (err, ms') = approve_enrollment env mac_str p ms in (Answered err, ms'))"
proof -
  have seven: "(f ^^ 7) x = f (f (f (f (f (f (f x))))))" for f :: "'a \<Rightarrow> 'a" and x
    by (simp add: numeral_eq_Suc)
  obtain res auth where a: "approve (en_now env) mac_str (ms_auth ms) = (res, auth)" by fastforce
  show ?thesis
  proof (cases res)
    case (Inl e)
    then show ?thesis by (simp add: seven a approve_enrollment_def)
  next
    case (Inr node)
    obtain old p' inh where h: "hotswap (na_mac node) p (ms_nodes ms) = (old, p', inh)" by (metis prod_cases3)
    show ?thesis
      unfolding seven
      by (cases old) (simp_all add: a Inr h approve_enrollment_def assign_approved_def Let_def case_prod_beta
          split: option.split)
  qed
qed

section \<open>Approvals at the same time\<close>

text \<open>
  A new approval can be requested at any time, any approval can take its next step, and any other
  operation of the server can come in between.
\<close>

inductive pool_step :: "approval list \<times> mesh_server \<Rightarrow> approval list \<times> mesh_server \<Rightarrow> bool" where
  request: "pool_step (ts, ms) (ts @ [Requested mac_str p], ms)"
| advance: "approval_next env t ms = (t', ms') \<Longrightarrow> pool_step (xs @ t # ys, ms) (xs @ t' # ys, ms')"
| other: "server_step ms ms' \<Longrightarrow> pool_step (ts, ms) (ts, ms')"

text \<open>
  From the choice of the id until the replaced node is retired an approval relies on what it read.
  A calm run is one in which no two approvals are there at once, and the other operations wait.
\<close>

fun inside :: "approval \<Rightarrow> bool" where
  "inside (Chosen node p i old a) = True"
| "inside (Assigned node p i old a) = True"
| "inside _ = False"

inductive calm_step :: "approval list \<times> mesh_server \<Rightarrow> approval list \<times> mesh_server \<Rightarrow> bool" where
  calm_request: "calm_step (ts, ms) (ts @ [Requested mac_str p], ms)"
| calm_advance: "approval_next env t ms = (t', ms') \<Longrightarrow> inside t' \<longrightarrow> filter inside (xs @ ys) = [] \<Longrightarrow>
    calm_step (xs @ t # ys, ms) (xs @ t' # ys, ms')"
| calm_other: "filter inside ts = [] \<Longrightarrow> server_step ms ms' \<Longrightarrow> calm_step (ts, ms) (ts, ms')"

lemma calm_is_pool: "calm_step c c' \<Longrightarrow> pool_step c c'"
  by (induction rule: calm_step.induct) (auto intro: pool_step.intros)

text \<open>What an approval between its choice and the retirement relies on.\<close>

definition retire :: "node_auth \<Rightarrow> byte list option \<Rightarrow> node_registry \<Rightarrow> node_registry" where
  "retire node old nr = (case old of None \<Rightarrow> nr | Some mac \<Rightarrow> mark_replaced mac (mac_to_string (na_mac node)) nr)"

lemma assign_approved_retire:
  "assign_approved node p i old nr = retire node old (assign_node (na_mac node) i (ap_name p) (ap_zone p) nr)"
  by (simp add: assign_approved_def retire_def Let_def)

definition nodes_good :: "node_registry \<Rightarrow> bool" where
  "nodes_good nr \<longleftrightarrow> ids_unique nr \<and> node_registry_inv nr"

fun relies :: "approval \<Rightarrow> node_registry \<Rightarrow> bool" where
  "relies (Chosen node p i old a) nr \<longleftrightarrow>
     nodes_good nr \<and> nodes_good (assign_approved node p i old nr) \<and> old \<noteq> Some (na_mac node)"
| "relies (Assigned node p i old a) nr \<longleftrightarrow>
     nodes_good (retire node old nr) \<and> old \<noteq> Some (na_mac node) \<and>
     (\<exists>nr0. nodes_good nr0 \<and> nr = assign_node (na_mac node) i (ap_name p) (ap_zone p) nr0)"
| "relies t nr \<longleftrightarrow> True"

definition rest_inv :: "mesh_server \<Rightarrow> bool" where
  "rest_inv ms \<longleftrightarrow> auth_registry_inv (ms_auth ms) \<and> cmds_ok (ms_commands ms) \<and> zone_registry_inv (ms_zones ms)"

lemma server_inv_split: "server_inv ms \<longleftrightarrow> nodes_good (ms_nodes ms) \<and> rest_inv ms"
  by (auto simp: server_inv_def nodes_good_def rest_inv_def)

definition calm_inv :: "approval list \<times> mesh_server \<Rightarrow> bool" where
  "calm_inv c \<longleftrightarrow> rest_inv (snd c) \<and>
     (case filter inside (fst c) of
        [] \<Rightarrow> nodes_good (ms_nodes (snd c))
      | t # others \<Rightarrow> others = [] \<and> relies t (ms_nodes (snd c)))"

lemma core_rest: "core ms' = core ms \<Longrightarrow> ms_nodes ms' = ms_nodes ms \<and> rest_inv ms' = rest_inv ms"
  by (simp add: core_eq_iff rest_inv_def)

lemma outside_relies: "\<not> inside t \<Longrightarrow> relies t nr"
  by (cases t) simp_all

lemma hotswap_other: "hotswap mac p nr = (old, p', a) \<Longrightarrow> old \<noteq> Some mac"
  by (auto simp: hotswap_def split: if_splits option.splits)

text \<open>One step of an approval, seen by the invariant.\<close>

definition step_ok :: "approval \<Rightarrow> mesh_server \<Rightarrow> approval \<Rightarrow> mesh_server \<Rightarrow> bool" where
  "step_ok t ms t' ms' \<longleftrightarrow> (rest_inv ms \<longrightarrow> rest_inv ms') \<and>
     (\<not> inside t \<longrightarrow> ms_nodes ms' = ms_nodes ms) \<and>
     (\<not> inside t \<and> nodes_good (ms_nodes ms) \<longrightarrow> relies t' (ms_nodes ms')) \<and>
     (inside t \<and> relies t (ms_nodes ms) \<longrightarrow> relies t' (ms_nodes ms') \<and> (\<not> inside t' \<longrightarrow> nodes_good (ms_nodes ms')))"

lemma next_ok: "approval_next env t ms = (t', ms') \<Longrightarrow> step_ok t ms t' ms'"
proof (cases t)
  case (Requested s p)
  assume n: "approval_next env t ms = (t', ms')"
  obtain res auth where a: "approve (en_now env) s (ms_auth ms) = (res, auth)" by fastforce
  then have "auth_registry_inv (ms_auth ms) \<longrightarrow> auth_registry_inv auth"
    using approve_inv [of "ms_auth ms" "en_now env" s] by simp
  then show ?thesis using n a Requested by (auto simp: step_ok_def rest_inv_def split: sum.splits)
next
  case (Decided node p)
  assume n: "approval_next env t ms = (t', ms')"
  obtain old p' inh where h: "hotswap (na_mac node) p (ms_nodes ms) = (old, p', inh)" by (metis prod_cases3)
  show ?thesis
    using n Decided h assign_approved_inv [OF _ _ h refl] hotswap_other [OF h]
    by (auto simp: step_ok_def nodes_good_def Let_def)
next
  case (Chosen node p i old a)
  assume "approval_next env t ms = (t', ms')"
  then show ?thesis using Chosen by (auto simp: step_ok_def rest_inv_def assign_approved_retire)
next
  case (Assigned node p i old a)
  assume n: "approval_next env t ms = (t', ms')"
  then have "ms_nodes ms' = retire node old (ms_nodes ms)"
    using Assigned by (auto simp: retire_def split: option.splits)
  moreover have "rest_inv ms \<longrightarrow> rest_inv ms'"
    using n Assigned by (auto simp: rest_inv_def split: option.splits)
  moreover have "\<not> inside t'" using n Assigned by auto
  ultimately show ?thesis using Assigned by (simp add: step_ok_def outside_relies)
next
  case (Retired node p i a)
  assume n: "approval_next env t ms = (t', ms')"
  have "core (snd (approval_next env (Retired node p i a) ms)) = core ms"
    by (simp add: core_enrolled split: option.split)
  then have "core ms' = core ms" using n Retired by simp
  note core_rest [OF this]
  moreover have "t' = Announced node i a" using n Retired by simp
  ultimately show ?thesis using Retired by (simp add: step_ok_def)
next
  case (Announced node i a)
  assume n: "approval_next env t ms = (t', ms')"
  have "core (snd (approval_next env (Announced node i a) ms)) = core ms" by (simp add: core_approval_frames)
  then have "core ms' = core ms" using n Announced by simp
  note core_rest [OF this]
  moreover have "t' = Sent" using n Announced by simp
  ultimately show ?thesis using Announced by (simp add: step_ok_def)
next
  case Sent
  assume n: "approval_next env t ms = (t', ms')"
  obtain err ms1 where pa: "persist_auth env ms = (err, ms1)" by fastforce
  then have "t' = Answered (map_option PersistFailed err)" "ms' = ms1" using n Sent by simp_all
  moreover have "ms_nodes ms1 = ms_nodes ms \<and> rest_inv ms1 = rest_inv ms"
    by (rule core_rest) (use core_persist_auth [of env ms] pa in simp)
  ultimately show ?thesis using Sent by (simp add: step_ok_def)
next
  case (Answered r)
  assume "approval_next env t ms = (t', ms')"
  then show ?thesis using Answered by (simp add: step_ok_def outside_relies)
qed

lemma calm_inv_step: "calm_step c c' \<Longrightarrow> calm_inv c \<Longrightarrow> calm_inv c'"
proof (induction rule: calm_step.induct)
  case (calm_request ts ms s p)
  then show ?case by (simp add: calm_inv_def split: list.splits)
next
  case (calm_advance env t ms t' ms' xs ys)
  note ok = next_ok [OF calm_advance(1), unfolded step_ok_def]
  show ?case
  proof (cases "inside t")
    case True
    then have "filter inside xs = []" "filter inside ys = []"
      using calm_advance(3) by (auto simp: calm_inv_def split: list.splits simp: append_eq_Cons_conv)
    then show ?thesis using ok True calm_advance(3) by (simp add: calm_inv_def)
  next
    case False
    then show ?thesis
      using ok calm_advance(2,3) by (cases "inside t'") (auto simp: calm_inv_def split: list.splits)
  qed
next
  case (calm_other ts ms ms')
  then have "server_inv ms" by (simp add: calm_inv_def server_inv_split)
  then have "server_inv ms'" using calm_other(2) server_step_inv by blast
  then show ?case using calm_other(1) by (simp add: calm_inv_def server_inv_split)
qed

lemma calm_run: "calm_step\<^sup>*\<^sup>* c c' \<Longrightarrow> calm_inv c \<Longrightarrow> calm_inv c'"
  by (induction rule: rtranclp_induct) (blast intro: calm_inv_step)+

lemma calm_alone:
  "calm_step\<^sup>*\<^sup>* ([Requested mac_str p], ms)
     ([Answered (fst (approve_enrollment env mac_str p ms))], snd (approve_enrollment env mac_str p ms))"
proof -
  let ?f = "\<lambda>(t, s). approval_next env t s" and ?g = "\<lambda>(t, s). ([t], s)"
  have go: "calm_step (?g c) (?g (?f c))" for c :: "approval \<times> mesh_server"
    by (cases c) (use calm_advance [of env "fst c" "snd c" _ _ "[]" "[]"] in \<open>auto split: prod.splits\<close>)
  have "calm_step\<^sup>*\<^sup>* (?g c) (?g ((?f ^^ n) c))" for c n
  proof (induction n)
    case (Suc n)
    then show ?case using go [of "(?f ^^ n) c"] by (simp only: funpow.simps o_apply rtranclp.rtrancl_into_rtrancl)
  qed simp
  from this [of "(Requested mac_str p, ms)" 7] show ?thesis
    unfolding approval_alone by (simp add: case_prod_beta Let_def)
qed

section \<open>A schedule that shares an id\<close>

text \<open>An approval that has chosen, alone to its end.\<close>

lemma finish_chosen:
  "\<exists>r ms'. pool_step\<^sup>*\<^sup>* (xs @ Chosen node p i None a # ys, ms) (xs @ Answered r # ys, ms') \<and>
     ms_auth ms' = ms_auth ms \<and>
     ms_nodes ms' = assign_node (na_mac node) i (ap_name p) (ap_zone p) (ms_nodes ms)"
proof -
  let ?f = "\<lambda>t s. xs @ t # ys"
  have go: "pool_step (xs @ t # ys, s) (xs @ fst (approval_next env t s) # ys, snd (approval_next env t s))" for t s env
    by (rule pool_step.advance [of env]) simp
  let ?ms1 = "ms\<lparr> ms_nodes := assign_node (na_mac node) i (ap_name p) (ap_zone p) (ms_nodes ms) \<rparr>"
  let ?ms2 = "snd (approval_next env (Retired node p i a) ?ms1)"
  let ?ms3 = "send_approval_frames env node i a ?ms2"
  let ?ms4 = "snd (persist_auth env ?ms3)"
  let ?r = "map_option PersistFailed (fst (persist_auth env ?ms3))"
  have "pool_step\<^sup>*\<^sup>* (xs @ Chosen node p i None a # ys, ms) (xs @ Answered ?r # ys, ?ms4)"
    using go [of "Chosen node p i None a" ms env] go [of "Assigned node p i None a" ?ms1 env]
      go [of "Retired node p i a" ?ms1 env] go [of "Announced node i a" ?ms2 env] go [of Sent ?ms3 env]
    by (simp add: case_prod_beta Let_def)
  moreover have "core ?ms4 = core ?ms1"
    by (simp add: core_persist_auth core_approval_frames core_enrolled split: option.split)
  then have "ms_auth ?ms4 = ms_auth ms" "ms_nodes ?ms4 = ms_nodes ?ms1" by (simp_all add: core_eq_iff)
  ultimately show ?thesis by force
qed

lemma reach_chosen:
  assumes "auth_registry_inv (ms_auth ms)" and "length mac = 6"
    and ai: "map_of (ms_auth ms) (auth_mac_to_string mac) = Some ai"
    and "ap_node_id p = 0"
  shows "\<exists>node auth. pool_step\<^sup>*\<^sup>* (xs @ Requested (auth_mac_to_string mac) p # ys, ms)
            (xs @ Chosen node p (next_free_node_id (ms_nodes ms)) None AdapterTypeUnknown # ys, ms\<lparr> ms_auth := auth \<rparr>) \<and>
          na_mac node = mac \<and> auth_registry_inv auth \<and>
          (\<forall>k. k \<noteq> auth_mac_to_string mac \<longrightarrow> map_of auth k = map_of (ms_auth ms) k)"
proof -
  let ?key = "auth_mac_to_string mac" and ?f = "\<lambda>t. xs @ t # ys"
  have key: "auth_key ?key = ?key"
    using assms(2) by (simp add: auth_key_def auth_codec.normalise_show)
  fix env :: env
  let ?node = "ai\<lparr> na_status := TrustApproved, na_approved_at := en_now env \<rparr>"
  let ?auth = "AList.update ?key ?node (ms_auth ms)"
  have ap: "approve (en_now env) ?key (ms_auth ms) = (Inr ?node, ?auth)"
    by (simp add: approve_def Let_def key ai)
  have "auth_ok ?key ai" using table_invD [OF assms(1) ai] .
  then have "na_mac ai = mac"
    using assms(2) by (auto simp: auth_ok_def auth_mac_to_string_eq mac_to_string_inj)
  moreover have "auth_registry_inv ?auth" using approve_inv [OF assms(1), of "en_now env" ?key] ap by simp
  moreover have "\<forall>k. k \<noteq> ?key \<longrightarrow> map_of ?auth k = map_of (ms_auth ms) k" by (simp add: gm.lookup_put)
  moreover have "pool_step (?f (Requested ?key p), ms) (?f (Decided ?node p), ms\<lparr> ms_auth := ?auth \<rparr>)"
    by (rule pool_step.advance [of env]) (simp add: ap)
  moreover have "pool_step (?f (Decided ?node p), ms\<lparr> ms_auth := ?auth \<rparr>)
      (?f (Chosen ?node p (next_free_node_id (ms_nodes ms)) None AdapterTypeUnknown), ms\<lparr> ms_auth := ?auth \<rparr>)"
    by (rule pool_step.advance [of env]) (simp add: assms(4) hotswap_def)
  ultimately show ?thesis
    by (intro exI [of _ ?node] exI [of _ ?auth]) simp
qed

section \<open>Properties\<close>

lemma assigned_sharing:
  assumes nr: "nr = assign_node (na_mac node) i nm z nr0" and good: "nodes_good nr0" "nodes_good (retire node old nr)"
    and old: "old \<noteq> Some (na_mac node)"
    and k: "map_of nr k = Some n" "active n" and k': "map_of nr k' = Some n'" "active n'"
    and share: "ni_node_id n = ni_node_id n'" "ni_node_id n \<noteq> 0" "k \<noteq> k'"
  shows "\<exists>mac. old = Some mac \<and> {k, k'} = {mac_to_string (na_mac node), mac_to_string mac}"
proof -
  let ?w = "mac_to_string (na_mac node)"
  have uniq: "ids_unique nr0" "ids_unique (retire node old nr)" using good by (simp_all add: nodes_good_def)
  have "k = ?w \<or> k' = ?w"
  proof (rule ccontr)
    assume "\<not> (k = ?w \<or> k' = ?w)"
    then have "map_of nr0 k = Some n" "map_of nr0 k' = Some n'"
      using k(1) k'(1) by (simp_all add: nr lookup_assign_node)
    then show False using ids_uniqueD [OF uniq(1) _ _ k(2) k'(2) share(1,2)] share(3) by blast
  qed
  moreover obtain mac where mac: "old = Some mac" and o: "k = mac_to_string mac \<or> k' = mac_to_string mac"
  proof (cases old)
    case None
    then show ?thesis
      using ids_uniqueD [OF uniq(2) _ _ k(2) k'(2) share(1,2), of k k'] k(1) k'(1) share(3) by (simp add: retire_def)
  next
    case (Some mac)
    have "k = mac_to_string mac \<or> k' = mac_to_string mac"
    proof (rule ccontr)
      assume "\<not> ?thesis"
      then have "map_of (retire node old nr) k = Some n" "map_of (retire node old nr) k' = Some n'"
        using k(1) k'(1) by (simp_all add: Some retire_def lookup_mark_replaced)
      then show False using ids_uniqueD [OF uniq(2) _ _ k(2) k'(2) share(1,2)] share(3) by blast
    qed
    then show ?thesis using that Some by blast
  qed
  moreover have "mac_to_string mac \<noteq> ?w" using old mac by (simp add: mac_to_string_inj)
  ultimately show ?thesis using share(3) by (intro exI [of _ mac]) auto
qed

text \<open>
  C4. Node ids are unique among active nodes as long as operations that use them do not overlap: in
  every run of approvals, taken call by call, and of the other operations of the server, where no
  approval chooses an id and no other operation runs between another's choice and its retirement of
  the replaced node. At any moment of such a run two active nodes share an id only if one of them
  is being approved in place of the other, after \<open>AssignNode\<close> and before \<open>MarkReplaced\<close>. In
  between, a lookup by id has exactly one possible answer, whatever order Go's map iteration takes.
\<close>

theorem active_ids_unique:
  assumes "server_inv ms" and "calm_step\<^sup>*\<^sup>* ([], ms) (ts, ms')"
  shows "(\<forall>k n k' n'. map_of (ms_nodes ms') k = Some n \<and> map_of (ms_nodes ms') k' = Some n' \<and>
            ni_status n \<noteq> ''replaced'' \<and> ni_status n' \<noteq> ''replaced'' \<and>
            ni_node_id n = ni_node_id n' \<and> ni_node_id n \<noteq> 0 \<and> k \<noteq> k' \<longrightarrow>
            (\<exists>node p i mac a. Assigned node p i (Some mac) a \<in> set ts \<and>
               {k, k'} = {mac_to_string (na_mac node), mac_to_string mac})) \<and>
         (filter inside ts = [] \<longrightarrow>
            (\<forall>k n. map_of (ms_nodes ms') k = Some n \<and> ni_status n \<noteq> ''replaced'' \<and> ni_node_id n \<noteq> 0 \<longrightarrow>
               get_node_by_id (ni_node_id n) (ms_nodes ms') = Some n))"
proof -
  have "calm_inv ([], ms)" using assms(1) by (simp add: calm_inv_def server_inv_split)
  from calm_run [OF assms(2) this] have inv: "calm_inv (ts, ms')" .
  consider (none) "filter inside ts = []" "ids_unique (ms_nodes ms')"
    | (one) t where "filter inside ts = [t]" "t \<in> set ts" "relies t (ms_nodes ms')" "inside t"
  proof (cases "filter inside ts")
    case Nil
    then show ?thesis using inv that(1) by (simp add: calm_inv_def nodes_good_def)
  next
    case (Cons t others)
    then have "t \<in> set (filter inside ts)" by simp
    then have "t \<in> set ts" "inside t" by (simp_all only: set_filter mem_Collect_eq)
    then show ?thesis using Cons inv that(2) [of t] by (simp add: calm_inv_def)
  qed
  then show ?thesis
  proof cases
    case none
    then show ?thesis
      using get_node_by_id_unique [OF none(2)] ids_uniqueD [OF none(2)] unfolding active_def by blast
  next
    case one
    have share: "\<exists>node p i mac a. Assigned node p i (Some mac) a \<in> set ts \<and>
            {k, k'} = {mac_to_string (na_mac node), mac_to_string mac}"
      if h: "map_of (ms_nodes ms') k = Some n" "active n" "map_of (ms_nodes ms') k' = Some n'" "active n'"
        "ni_node_id n = ni_node_id n'" "ni_node_id n \<noteq> 0" "k \<noteq> k'" for k n k' n'
    proof (cases t)
      case (Chosen node p i old a)
      then have "ids_unique (ms_nodes ms')" using one(3) by (simp add: nodes_good_def)
      then show ?thesis using ids_uniqueD h by blast
    next
      case (Assigned node p i old a)
      then obtain nr0 where "nodes_good nr0" "ms_nodes ms' = assign_node (na_mac node) i (ap_name p) (ap_zone p) nr0"
        "nodes_good (retire node old (ms_nodes ms'))" "old \<noteq> Some (na_mac node)"
        using one(3) by auto
      from assigned_sharing [OF this(2,1,3,4) h] show ?thesis using one(2) Assigned by blast
    qed (use one(4) in simp_all)
    show ?thesis
      by (intro conjI allI impI; (elim conjE)?)
        ((rule share [unfolded active_def]; assumption), use one(1) in simp)
  qed
qed

definition two_pending :: "mesh_server \<Rightarrow> mesh_server" where
  "two_pending ms = ms\<lparr> ms_auth :=
     snd (add_pending 0 [1, 1, 1, 1, 1, 1] (replicate 32 7)
       (snd (add_pending 0 [2, 2, 2, 2, 2, 2] (replicate 32 8) (ms_auth ms)))) \<rparr>"

lemma two_pending_inv: "server_inv ms \<Longrightarrow> server_inv (two_pending ms)"
  unfolding two_pending_def
  by (intro server_inv_auth add_pending_inv) (simp_all add: server_inv_def)

lemma lone_approval:
  assumes "auth_registry_inv (ms_auth ms)" and "length mac = 6"
    and ai: "map_of (ms_auth ms) (auth_mac_to_string mac) = Some ai" and "ap_node_id p = 0"
  shows "ms_nodes (snd (approve_enrollment env (auth_mac_to_string mac) p ms)) =
     assign_node mac (next_free_node_id (ms_nodes ms)) (ap_name p) (ap_zone p) (ms_nodes ms)"
proof -
  let ?key = "auth_mac_to_string mac"
  let ?node = "ai\<lparr> na_status := TrustApproved, na_approved_at := en_now env \<rparr>"
  let ?ms = "ms\<lparr> ms_auth := AList.update ?key ?node (ms_auth ms),
     ms_nodes := assign_node mac (next_free_node_id (ms_nodes ms)) (ap_name p) (ap_zone p) (ms_nodes ms) \<rparr>"
  have "auth_key ?key = ?key" using assms(2) by (simp add: auth_key_def auth_codec.normalise_show)
  then have ap: "approve (en_now env) ?key (ms_auth ms) = (Inr ?node, AList.update ?key ?node (ms_auth ms))"
    by (simp add: approve_def Let_def ai)
  have "na_mac ai = mac"
    using table_invD [OF assms(1) ai] assms(2) by (auto simp: auth_ok_def auth_mac_to_string_eq mac_to_string_inj)
  then have "core (snd (approve_enrollment env ?key p ms)) = core ?ms"
    by (simp add: approve_enrollment_def ap hotswap_def assms(4) assign_approved_def Let_def case_prod_beta
        server_frame split: option.split)
  then show ?thesis by (simp add: core_eq_iff)
qed

theorem active_ids_unique_witness:
  "\<exists>ms n. new_mesh_server empty_config Missing Missing Missing no_key no_key = Ret ms \<and>
     get_node_by_id 1 (ms_nodes (snd (approve_enrollment (quiet_env 5) (auth_mac_to_string [1, 1, 1, 1, 1, 1]) no_params
        (two_pending ms)))) = Some n \<and> ni_mac n = [1, 1, 1, 1, 1, 1]"
proof -
  obtain ms where ms: "new_mesh_server empty_config Missing Missing Missing no_key no_key = Ret ms"
    and empty: "ms_auth ms = []" "ms_nodes ms = []" using empty_hub by blast
  let ?ms = "two_pending ms" and ?m = "[1, 1, 1, 1, 1, 1] :: byte list"
  let ?s = "auth_mac_to_string ?m" and ?k = "mac_to_string ?m" and ?env = "quiet_env 5"
  have ok: "server_inv ?ms" by (rule two_pending_inv [OF new_server_inv [OF ms]])
  have "?s \<noteq> auth_mac_to_string [2, 2, 2, 2, 2, 2]" by (simp add: auth_mac_to_string_eq mac_to_string_inj)
  then obtain ai where ai: "map_of (ms_auth ?ms) ?s = Some ai"
    by (auto simp: two_pending_def empty add_pending_def Let_def gm.lookup_put)
  have free: "next_free_node_id [] = 1" by code_simp
  let ?ms' = "snd (approve_enrollment ?env ?s no_params ?ms)"
  have "ms_nodes ?ms' = assign_node ?m 1 [] [] []"
    using lone_approval [OF _ _ ai, of no_params ?env] ok
    by (simp add: server_inv_def no_params_def two_pending_def empty free)
  then have n: "map_of (ms_nodes ?ms') ?k =
      Some ((fresh_node ?m)\<lparr> ni_node_id := 1, ni_name := ?k, ni_zone := [] \<rparr>)"
    by (simp add: lookup_assign_node)
  have "calm_step ([], ?ms) ([Requested ?s no_params], ?ms)"
    using calm_request [of "[]" ?ms ?s no_params] by simp
  note run = converse_rtranclp_into_rtranclp [OF this calm_alone [of ?s no_params ?ms ?env]]
  from active_ids_unique [OF ok run] n
  have "get_node_by_id 1 (ms_nodes ?ms') = Some ((fresh_node ?m)\<lparr> ni_node_id := 1, ni_name := ?k, ni_zone := [] \<rparr>)"
    by (fastforce simp: fresh_node_def)
  with ms show ?thesis by (intro exI [of _ ms] exI conjI) (auto simp: fresh_node_def)
qed

text \<open>
  C5. As long as no two approvals are at once between the choice of an id and the retirement of the
  node that is replaced, and the other operations wait for the one that is, approvals keep the
  server's invariant: whenever none is there, the registries are well formed and every id belongs to
  one active node.
\<close>

theorem calm_approvals_keep_ids_unique:
  assumes "server_inv ms" and "calm_step\<^sup>*\<^sup>* ([], ms) (ts, ms')" and "filter inside ts = []"
  shows "pool_step\<^sup>*\<^sup>* ([], ms) (ts, ms') \<and> server_inv ms'"
proof
  have "calm_inv ([], ms)" using assms(1) by (simp add: calm_inv_def server_inv_split)
  from calm_run [OF assms(2) this] show "server_inv ms'"
    using assms(3) by (simp add: calm_inv_def server_inv_split)
  from assms(2) show "pool_step\<^sup>*\<^sup>* ([], ms) (ts, ms')"
    by (rule rtranclp_mono [THEN predicate2D, rotated]) (blast intro: calm_is_pool)
qed

theorem calm_approvals_keep_ids_unique_witness:
  "\<exists>ms env. new_mesh_server empty_config Missing Missing Missing no_key no_key = Ret ms \<and>
     server_inv (snd (approve_enrollment env ''01:01:01:01:01:01'' no_params (two_pending ms)))"
proof -
  obtain ms where ms: "new_mesh_server empty_config Missing Missing Missing no_key no_key = Ret ms"
    using empty_hub by blast
  fix env :: env
  let ?ms = "two_pending ms" and ?s = "''01:01:01:01:01:01''"
  have "calm_step ([], ?ms) ([Requested ?s no_params], ?ms)"
    using calm_request [of "[]" ?ms ?s no_params] by simp
  note run = converse_rtranclp_into_rtranclp [OF this calm_alone [of ?s no_params ?ms env]]
  have "server_inv (snd (approve_enrollment env ?s no_params ?ms))"
    using calm_approvals_keep_ids_unique [OF two_pending_inv [OF new_server_inv [OF ms]] run] by simp
  with ms show ?thesis by blast
qed

text \<open>
  C6. The choice of a free id and its assignment are two locks: when two pending nodes that the
  registry does not know are approved without an id at the same time, both can be given the same one.
  The well-formed server then has two active nodes with one id.
\<close>

theorem overlapping_approvals_share_an_id:
  assumes inv: "server_inv ms" and len: "length m1 = 6" "length m2 = 6" and "m1 \<noteq> m2"
    and pend: "map_of (ms_auth ms) (auth_mac_to_string m1) = Some a1"
      "map_of (ms_auth ms) (auth_mac_to_string m2) = Some a2"
    and new: "get_node m1 (ms_nodes ms) = None" "get_node m2 (ms_nodes ms) = None"
    and i: "next_free_node_id (ms_nodes ms) \<noteq> 0" and auto: "ap_node_id p1 = 0" "ap_node_id p2 = 0"
  shows "\<exists>r1 r2 ms' n1 n2.
     pool_step\<^sup>*\<^sup>* ([Requested (auth_mac_to_string m1) p1, Requested (auth_mac_to_string m2) p2], ms)
       ([Answered r1, Answered r2], ms') \<and>
     get_node m1 (ms_nodes ms') = Some n1 \<and> active n1 \<and> ni_node_id n1 = next_free_node_id (ms_nodes ms) \<and>
     get_node m2 (ms_nodes ms') = Some n2 \<and> active n2 \<and> ni_node_id n2 = next_free_node_id (ms_nodes ms) \<and>
     \<not> server_inv ms'"
proof -
  let ?s1 = "auth_mac_to_string m1" and ?s2 = "auth_mac_to_string m2" and ?i = "next_free_node_id (ms_nodes ms)"
  have s12: "?s1 \<noteq> ?s2" "mac_to_string m1 \<noteq> mac_to_string m2"
    using \<open>m1 \<noteq> m2\<close> len by (simp_all add: auth_mac_to_string_eq mac_to_string_inj)
  have auth: "auth_registry_inv (ms_auth ms)" using inv by (simp add: server_inv_def)
  obtain d1 auth1 where one: "pool_step\<^sup>*\<^sup>* ([Requested ?s1 p1, Requested ?s2 p2], ms)
      ([Chosen d1 p1 ?i None AdapterTypeUnknown, Requested ?s2 p2], ms\<lparr> ms_auth := auth1 \<rparr>)"
    and d1: "na_mac d1 = m1" and auth1: "auth_registry_inv auth1" "map_of auth1 ?s2 = Some a2"
    using reach_chosen [OF auth len(1) pend(1) auto(1), of "[]" "[Requested ?s2 p2]"] s12(1) pend(2) by auto
  obtain d2 auth2 where two: "pool_step\<^sup>*\<^sup>*
      ([Chosen d1 p1 ?i None AdapterTypeUnknown, Requested ?s2 p2], ms\<lparr> ms_auth := auth1 \<rparr>)
      ([Chosen d1 p1 ?i None AdapterTypeUnknown, Chosen d2 p2 ?i None AdapterTypeUnknown], ms\<lparr> ms_auth := auth2 \<rparr>)"
    and d2: "na_mac d2 = m2"
    using reach_chosen [of "ms\<lparr> ms_auth := auth1 \<rparr>", OF _ len(2) _ auto(2),
        of a2 "[Chosen d1 p1 ?i None AdapterTypeUnknown]" "[]"] auth1 by auto
  obtain r1 ms1 where three: "pool_step\<^sup>*\<^sup>*
      ([Chosen d1 p1 ?i None AdapterTypeUnknown, Chosen d2 p2 ?i None AdapterTypeUnknown], ms\<lparr> ms_auth := auth2 \<rparr>)
      ([Answered r1, Chosen d2 p2 ?i None AdapterTypeUnknown], ms1)"
    and n1: "ms_nodes ms1 = assign_node m1 ?i (ap_name p1) (ap_zone p1) (ms_nodes ms)"
    using finish_chosen [of "[]" d1 p1 ?i AdapterTypeUnknown "[Chosen d2 p2 ?i None AdapterTypeUnknown]"
        "ms\<lparr> ms_auth := auth2 \<rparr>"] d1 by auto
  obtain r2 ms2 where four: "pool_step\<^sup>*\<^sup>* ([Answered r1, Chosen d2 p2 ?i None AdapterTypeUnknown], ms1)
      ([Answered r1, Answered r2], ms2)"
    and n2: "ms_nodes ms2 = assign_node m2 ?i (ap_name p2) (ap_zone p2) (ms_nodes ms1)"
    using finish_chosen [of "[Answered r1]" d2 p2 ?i AdapterTypeUnknown "[]" ms1] d2 by auto
  obtain v1 v2 where v1: "get_node m1 (ms_nodes ms2) = Some v1" "active v1" "ni_node_id v1 = ?i"
    and v2: "get_node m2 (ms_nodes ms2) = Some v2" "active v2" "ni_node_id v2 = ?i"
    using new s12(2) by (simp add: n1 n2 get_node_def lookup_assign_node active_def fresh_node_def)
  have "\<not> server_inv ms2"
    using ids_uniqueD [of "ms_nodes ms2" "mac_to_string m1" v1 "mac_to_string m2" v2] v1 v2 i s12(2)
    by (auto simp: server_inv_def get_node_def)
  moreover note rtranclp_trans [OF rtranclp_trans [OF one two] rtranclp_trans [OF three four]]
  ultimately show ?thesis using v1 v2 by blast
qed

theorem overlapping_approvals_share_an_id_witness:
  "\<exists>ms r1 r2 ms'. new_mesh_server empty_config Missing Missing Missing no_key no_key = Ret ms \<and>
     pool_step\<^sup>*\<^sup>* ([Requested (auth_mac_to_string [1, 1, 1, 1, 1, 1]) no_params,
        Requested (auth_mac_to_string [2, 2, 2, 2, 2, 2]) no_params], two_pending ms)
       ([Answered r1, Answered r2], ms') \<and> \<not> server_inv ms'"
proof -
  obtain ms where ms: "new_mesh_server empty_config Missing Missing Missing no_key no_key = Ret ms"
    and empty: "ms_auth ms = []" "ms_nodes ms = []"
    using empty_hub by blast
  let ?ms = "two_pending ms" and ?m1 = "[1, 1, 1, 1, 1, 1] :: byte list" and ?m2 = "[2, 2, 2, 2, 2, 2] :: byte list"
  have ne: "auth_mac_to_string ?m1 \<noteq> auth_mac_to_string ?m2"
    by (simp add: auth_mac_to_string_eq mac_to_string_inj)
  then have pend: "\<exists>a. map_of (ms_auth ?ms) (auth_mac_to_string ?m1) = Some a"
    "\<exists>a. map_of (ms_auth ?ms) (auth_mac_to_string ?m2) = Some a"
    by (auto simp: two_pending_def empty add_pending_def Let_def gm.lookup_put)
  have nodes: "ms_nodes ?ms = []" by (simp add: two_pending_def empty)
  have free: "next_free_node_id [] \<noteq> 0" by code_simp
  obtain a1 a2 where "map_of (ms_auth ?ms) (auth_mac_to_string ?m1) = Some a1"
    "map_of (ms_auth ?ms) (auth_mac_to_string ?m2) = Some a2" using pend by blast
  from overlapping_approvals_share_an_id [OF two_pending_inv [OF new_server_inv [OF ms]] _ _ _ this,
      of no_params no_params] show ?thesis
    using ms nodes free by (auto simp: get_node_def no_params_def)
qed

end
