(* ===== verification/Server_Frames.thy ===== *)
theory Server_Frames
  imports Approval_Race
begin

text \<open>
  What the hub puts on its links, over all of its operations and all interleavings of approvals:
  which link each frame takes, and what a \<open>JOIN_ACK\<close> carries.
\<close>

section \<open>What an operation sends\<close>

definition identity :: "mesh_server \<Rightarrow> byte list \<times> byte list \<times> byte list \<times> byte list" where
  "identity ms = (ms_master_public ms, ms_master_mac ms, ms_secondary_public ms, ms_secondary_mac ms)"

text \<open>The part of the state that the frames and their link depend on, and that part with the log of what was sent.\<close>

definition radio_part :: "mesh_server \<Rightarrow> (byte list \<times> byte list \<times> byte list \<times> byte list) \<times> bool \<times> time" where
  "radio_part ms = (identity ms, ms_secondary_comm ms, ms_primary_frame ms)"

definition air :: "mesh_server \<Rightarrow> ((byte list \<times> byte list \<times> byte list \<times> byte list) \<times> bool \<times> time) \<times>
    (link \<times> mesh_message \<times> go_error option) list" where
  "air ms = (radio_part ms, ms_tx ms)"

definition is_config_set :: "mesh_message \<Rightarrow> bool" where
  "is_config_set m \<longleftrightarrow> message_type m = MessageTypeAdapterData \<and> data_type m = AdapterTypeSerial \<and>
     msg_data m ! 0 = OpConfigSet"

text \<open>
  A frame that an operation of the server \<open>ms\<close> may send: on the active link, but for the
  \<open>OP_CONFIG_SET\<close> of a hot swap, and a \<open>JOIN_ACK\<close> only of the two kinds.
\<close>

definition may_send :: "bool \<Rightarrow> env \<Rightarrow> mesh_server \<Rightarrow> link \<times> mesh_message \<times> go_error option \<Rightarrow> bool" where
  "may_send swap env ms = (\<lambda>(l, m, r). r = en_frame_err env l m \<and>
     l = (if swap \<and> is_config_set m then Primary else active_outbound (en_now env) ms) \<and>
     (message_type m = MessageTypeJoinAck \<longrightarrow> (\<exists>node. m = join_ack node ms) \<or> (\<exists>mac. m = reject_frame mac ms)))"

definition emits :: "bool \<Rightarrow> env \<Rightarrow> mesh_server \<Rightarrow> mesh_server \<Rightarrow> bool" where
  "emits swap env ms ms' \<longleftrightarrow> radio_part ms' = radio_part ms \<and>
     (\<exists>new. ms_tx ms' = ms_tx ms @ new \<and> (\<forall>f \<in> set new. may_send swap env ms f))"

lemma may_send_cong:
  assumes "radio_part a = radio_part b"
  shows "may_send swap env a = may_send swap env b"
proof -
  have "join_ack node a = join_ack node b" "reject_frame mac a = reject_frame mac b" for node mac
    using assms by (simp_all add: radio_part_def identity_def join_ack_def join_ack_data_def reject_frame_def Let_def)
  moreover have "active_outbound now a = active_outbound now b" for now
    using assms by (simp add: radio_part_def active_outbound_def)
  ultimately show ?thesis by (intro ext) (auto simp: may_send_def split: if_splits)
qed

lemma emits_trans:
  assumes "emits swap env a b" and "emits swap env b c"
  shows "emits swap env a c"
proof -
  obtain new where new: "ms_tx b = ms_tx a @ new" "\<forall>f \<in> set new. may_send swap env a f"
    using assms(1) by (auto simp: emits_def)
  obtain new' where new': "ms_tx c = ms_tx b @ new'" "\<forall>f \<in> set new'. may_send swap env b f"
    using assms(2) by (auto simp: emits_def)
  have same: "radio_part b = radio_part a" "radio_part c = radio_part a" using assms by (simp_all add: emits_def)
  have "\<forall>f \<in> set (new @ new'). may_send swap env a f"
    using new(2) new'(2) unfolding may_send_cong [OF same(1)] by auto
  then show ?thesis using new(1) new'(1) same(2) by (auto simp: emits_def)
qed

lemma emits_air: "air ms' = air ms \<Longrightarrow> emits swap env ms ms'"
  by (simp add: emits_def air_def)

lemma emits_refl: "emits swap env ms ms"
  by (simp add: emits_air)

lemma emits_from: "air a = air ms \<Longrightarrow> emits swap env a ms' \<Longrightarrow> emits swap env ms ms'"
  by (rule emits_trans [OF emits_air])

lemma emits_to: "emits swap env ms a \<Longrightarrow> air ms' = air a \<Longrightarrow> emits swap env ms ms'"
  by (rule emits_trans [OF _ emits_air])

text \<open>The two ways to send.\<close>

lemma emits_write_active:
  assumes "message_type m = MessageTypeJoinAck \<longrightarrow> (\<exists>node. m = join_ack node ms) \<or> (\<exists>mac. m = reject_frame mac ms)"
    and "swap \<longrightarrow> \<not> is_config_set m"
  shows "emits swap env ms (snd (write_active env m ms))"
  using assms
  by (auto simp: emits_def write_active_def write_link_def Let_def radio_part_def identity_def may_send_def)

lemma emits_write_primary:
  assumes "is_config_set m"
  shows "emits True env ms (snd (write_link env Primary m ms))"
proof -
  have "message_type m \<noteq> MessageTypeJoinAck" using assms by (simp add: is_config_set_def wire_consts)
  then show ?thesis
    using assms by (simp add: emits_def write_link_def Let_def radio_part_def identity_def may_send_def)
qed

lemma emits_plain:
  "message_type m \<noteq> MessageTypeJoinAck \<Longrightarrow> emits False env ms (snd (write_active env m ms))"
  by (rule emits_write_active) simp_all

section \<open>Operations that send nothing\<close>

named_theorems air_frame

lemma air_updates [air_frame]:
  "air (ms\<lparr> ms_nodes := nr \<rparr>) = air ms" "air (ms\<lparr> ms_auth := r \<rparr>) = air ms"
  "air (ms\<lparr> ms_commands := cs \<rparr>) = air ms" "air (ms\<lparr> ms_zones := zr \<rparr>) = air ms"
  "air (ms\<lparr> ms_gauge := g \<rparr>) = air ms" "air (ms\<lparr> ms_online := os \<rparr>) = air ms"
  "air (ms\<lparr> ms_tx_preset := p \<rparr>) = air ms" "air (ms\<lparr> ms_auth_file := f \<rparr>) = air ms"
  "air (ms\<lparr> ms_node_file := nf \<rparr>) = air ms" "air (ms\<lparr> ms_zone_file := zf \<rparr>) = air ms"
  "air (ms\<lparr> ms_events := evs \<rparr>) = air ms" "air (ms\<lparr> ms_store := st \<rparr>) = air ms"
  "air (ms\<lparr> ms_kafka_writes := ks \<rparr>) = air ms" "air (ms\<lparr> ms_processors := ps \<rparr>) = air ms"
  by (simp_all add: air_def radio_part_def identity_def)

lemma air_events [air_frame]:
  "air (publish_event env t d ms) = air ms" "air (publish_enrolled_event env n s ms) = air ms"
  "air (publish_motion_event env n ms) = air ms" "air (publish_health_event env n ms) = air ms"
  by (simp_all add: publish_event_def publish_enrolled_event_def publish_motion_event_def publish_health_event_def
      Let_def air_updates)

lemma air_kafka [air_frame]: "air (snd (write_kafka env doc topic st ms)) = air ms"
  by (simp add: write_kafka_def record_kafka_write_def case_prod_beta Let_def air_updates)

lemma air_log [air_frame]: "air (snd (log_message_to_kafka env m d ms)) = air ms"
  by (simp add: log_message_to_kafka_def Let_def air_kafka split: option.split)

lemma air_saves [air_frame]:
  "air (snd (persist_auth env ms)) = air ms" "air (save_auth env ms) = air ms" "air (save_nodes env ms) = air ms"
  by (simp_all add: persist_auth_def save_auth_def save_nodes_def case_prod_beta Let_def air_updates)

lemma air_check [air_frame]: "air (check_snapshot env ns ms) = air ms"
proof -
  have "air (check_offline_node env n ms) = air ms" for n ms
    by (simp add: check_offline_node_def air_events air_updates)
  then show ?thesis by (induction ns arbitrary: ms) (simp_all add: check_snapshot_def)
qed

lemma air_handlers [air_frame]:
  "air (snd (handle_pir_data env msg ms)) = air ms" "air (handle_command_ack env msg ms) = air ms"
  "air (snd (handle_health_report env msg ms)) = air ms" "air (snd (handle_route_report env msg ms)) = air ms"
  "air (snd (handle_adapter_data env msg ms)) = air ms" "air (snd (handle_master_beacon msg ms)) = air ms"
proof -
  show pir: "air (snd (handle_pir_data env msg ms)) = air ms"
    by (simp add: handle_pir_data_def Let_def air_frame split: option.split)
  show ack: "air (handle_command_ack env msg ms) = air ms"
    by (simp add: handle_command_ack_def Let_def case_prod_beta air_frame split: option.split)
  show health: "air (snd (handle_health_report env msg ms)) = air ms"
    by (simp add: handle_health_report_def Let_def air_frame split: option.split sum.split)
  show "air (snd (handle_route_report env msg ms)) = air ms"
    by (simp add: handle_route_report_def Let_def air_frame split: option.split)
  show "air (snd (handle_adapter_data env msg ms)) = air ms"
    by (simp add: handle_adapter_data_def handle_serial_data_def Let_def pir ack health)
  show "air (snd (handle_master_beacon msg ms)) = air ms" by (simp add: handle_master_beacon_def)
qed

lemma air_node_ops [air_frame]:
  "air (snd (v1_delete_node s ms)) = air ms" "air (snd (v1_create_zone n ms)) = air ms"
  "air (snd (v1_update_zone s n ms)) = air ms" "air (snd (v1_delete_zone s ms)) = air ms"
  by (simp_all add: v1_delete_node_def v1_create_zone_def v1_update_zone_def v1_delete_zone_def case_prod_beta Let_def
      air_updates split: option.split prod.split sum.split zone_error.split)

section \<open>Operations that send\<close>

lemma frame_types:
  "message_type (join_ack node ms) = MessageTypeJoinAck" "message_type (reject_frame mac ms) = MessageTypeJoinAck"
  "message_type (node_id_set mac i ms) = MessageTypeSerialCmdBroadcast"
  by (simp_all add: join_ack_def reject_frame_def node_id_set_def)

lemma not_config_set:
  "\<not> is_config_set (join_ack node ms)" "\<not> is_config_set (reject_frame mac ms)" "\<not> is_config_set (node_id_set mac i ms)"
  by (simp_all add: is_config_set_def frame_types wire_consts)

lemma built_config_set:
  "build_config_set_message mac t = Inr m \<Longrightarrow> is_config_set m \<and> is_config_set (m\<lparr> origin_mac := x \<rparr>)"
  by (auto simp: build_config_set_message_def is_config_set_def go_make_def go_copy_def MaxDataLength_def
      mac_address_length_def nth_append Let_def split: if_splits)

lemma emits_send_message:
  "message_type m \<noteq> MessageTypeJoinAck \<Longrightarrow> emits False env ms (snd (send_message env m ms))"
  by (auto simp: send_message_def case_prod_beta Let_def emits_refl intro: emits_from [OF air_log emits_plain])

lemma emits_config:
  "emits False env ms (snd (configure_node env mac t ms))"
  "emits False env ms (snd (configure_all_nodes env t ms))"
  "emits False env ms (snd (request_health_reports env ms))"
  "emits False env ms (snd (broadcast_data env dt bs ms))"
  "emits False env ms (snd (send_node_data env dt bs ms))"
  "emits False env ms (snd (set_tx_power_preset env p ms))"
proof -
  have type: "build_config_set_message a t = Inr m \<Longrightarrow> message_type m \<noteq> MessageTypeJoinAck" for a m
    by (auto simp: build_config_set_message_def Let_def wire_consts split: if_splits)
  show "emits False env ms (snd (configure_node env mac t ms))"
    by (auto simp: configure_node_def emits_refl dest!: type intro!: emits_send_message split: sum.split)
  show "emits False env ms (snd (configure_all_nodes env t ms))"
    by (auto simp: configure_all_nodes_def build_config_set_broadcast_message_def emits_refl dest: type
        intro!: emits_send_message split: sum.split)
  show "emits False env ms (snd (request_health_reports env ms))"
    by (simp add: request_health_reports_def emits_send_message build_health_request_message_def wire_consts)
  show "emits False env ms (snd (broadcast_data env dt bs ms))"
    by (auto simp: broadcast_data_def build_broadcast_message_def emits_refl wire_consts
        intro!: emits_send_message split: sum.split if_splits)
  show "emits False env ms (snd (send_node_data env dt bs ms))"
    by (simp add: send_node_data_def case_prod_beta Let_def emits_refl emits_plain wire_consts)
  show "emits False env ms (snd (set_tx_power_preset env p ms))"
  proof -
    let ?m = "zero_message\<lparr> proto_version := 5, message_type := MessageTypeAdapterData, data_type := AdapterTypeSerial,
      msg_data := ((go_make MaxDataLength)[0 := OpTxPowerSet])[Suc 0 := p] \<rparr>"
    have w: "emits False env ms (snd (write_active env ?m ms))" by (rule emits_plain) (simp add: wire_consts)
    note w' = emits_to [OF w air_updates(7)]
    show ?thesis by (auto simp: set_tx_power_preset_def case_prod_beta Let_def emits_refl intro: w w' split: option.split)
  qed
qed

lemma emits_send_to_nodes: "emits False env ms (snd (send_to_nodes env out p ns ms))"
  by (induction ns arbitrary: ms)
    (auto simp: case_prod_beta Let_def emits_refl intro: emits_trans [OF emits_config(5)])

text \<open>The frames of an approval, and the operations that approve.\<close>

lemma emits_approval_frames:
  assumes "swap \<or> inherited = AdapterTypeUnknown"
  shows "emits swap env ms (send_approval_frames env node i inherited ms)"
proof (cases "ms_serial_comm ms")
  case True
  let ?ms1 = "snd (write_active env (join_ack node ms) ms)"
  let ?ms2 = "if 0 < i then snd (write_active env (node_id_set (na_mac node) i ?ms1) ?ms1) else ?ms1"
  have "emits swap env ms ?ms1" by (rule emits_write_active) (auto simp: not_config_set)
  moreover have "emits swap env ?ms1 ?ms2"
    using emits_write_active [of "node_id_set (na_mac node) i ?ms1" ?ms1 swap env]
    by (simp add: emits_refl frame_types not_config_set wire_consts)
  ultimately have two: "emits swap env ms ?ms2" by (rule emits_trans)
  show ?thesis
  proof (cases "build_config_set_message (na_mac node) inherited")
    case (Inl e)
    then show ?thesis using True two by (simp add: send_approval_frames_def Let_def)
  next
    case (Inr m)
    let ?m = "m\<lparr> origin_mac := ms_master_mac ?ms2 \<rparr>"
    have "swap \<Longrightarrow> emits swap env ms (snd (write_link env Primary ?m ?ms2))"
      using emits_trans [OF two] emits_write_primary [of ?m env ?ms2] built_config_set [OF Inr] by simp
    then show ?thesis using assms True two Inr by (auto simp: send_approval_frames_def Let_def)
  qed
qed (simp add: send_approval_frames_def emits_refl)

lemma emits_approve:
  assumes "swap \<or> ap_adapter_type p \<noteq> []"
  shows "emits swap env ms (snd (approve_enrollment env s p ms))"
proof (cases "fst (approve (en_now env) s (ms_auth ms))")
  case (Inl e)
  then show ?thesis by (simp add: approve_enrollment_def case_prod_beta Let_def emits_refl)
next
  case (Inr node)
  obtain old p' inh where h: "hotswap (na_mac node) p (ms_nodes ms) = (old, p', inh)" by (metis prod_cases3)
  have inh: "swap \<or> inh = AdapterTypeUnknown"
    using assms h by (auto simp: hotswap_def split: if_splits option.splits)
  let ?i = "if ap_node_id p = 0 then next_free_node_id (ms_nodes ms) else ap_node_id p"
  let ?ms2 = "ms\<lparr> ms_auth := snd (approve (en_now env) s (ms_auth ms)),
                  ms_nodes := assign_approved node p' ?i old (ms_nodes ms) \<rparr>"
  let ?ms3 = "case get_node (na_mac node) (ms_nodes ?ms2) of None \<Rightarrow> ?ms2
     | Some n \<Rightarrow> publish_enrolled_event env n (if ap_adapter_type p' = [] then ''unknown'' else ap_adapter_type p') ?ms2"
  have "air ?ms3 = air ms" by (simp add: air_frame split: option.split)
  note emits_to [OF emits_from [OF this emits_approval_frames [OF inh]] air_saves(1)]
  moreover have "snd (approve_enrollment env s p ms) = snd (persist_auth env (send_approval_frames env node ?i inh ?ms3))"
    by (simp add: approve_enrollment_def case_prod_beta Let_def Inr h split: option.split)
  ultimately show ?thesis by simp
qed

lemma emits_approval_step: "approval_next env t ms = (t', ms') \<Longrightarrow> emits True env ms ms'"
proof (cases t)
  case (Announced node i a)
  assume "approval_next env t ms = (t', ms')"
  then show ?thesis using Announced emits_approval_frames [of True] by auto
next
  case Sent
  assume "approval_next env t ms = (t', ms')"
  then show ?thesis using Sent emits_air [OF air_saves(1)] by (auto simp: case_prod_beta)
qed (auto simp: Let_def emits_refl air_frame split: sum.splits option.splits prod.splits intro!: emits_air)

lemma emits_reject: "emits False env ms (snd (reject_enrollment env s ms))"
proof -
  have "emits False env ms (snd (persist_auth env
      (if ms_serial_comm a then snd (write_active env (reject_frame mac a) a) else a)))"
    if a: "a = ms\<lparr> ms_auth := r \<rparr>" for a r mac
  proof -
    have "emits False env a (if ms_serial_comm a then snd (write_active env (reject_frame mac a) a) else a)"
      using emits_write_active [of "reject_frame mac a" a False env] by (auto simp: emits_refl)
    then show ?thesis by (intro emits_to [OF emits_from air_saves(1)]) (simp_all add: a air_updates)
  qed
  then show ?thesis
    by (simp add: reject_enrollment_def case_prod_beta Let_def emits_refl split: sum.split option.split)
qed

lemma emits_enrollment_request: "emits True env ms (snd (handle_enrollment_request env msg ms))"
proof -
  have resend: "emits True env ms (snd (resend_join_ack env s (ms\<lparr> ms_auth := r \<rparr>)))" for s r
    by (auto simp: resend_join_ack_def emits_air air_updates intro: emits_from [OF air_updates(2) emits_approve]
        split: sum.split)
  show ?thesis
    by (auto simp: handle_enrollment_request_def case_prod_beta Let_def resend air_frame
        intro!: emits_air split: option.split add_error.split)
qed

lemma emits_handle_message: "emits True env ms (snd (handle_message env msg ms))"
  using emits_from [OF air_log emits_enrollment_request]
  by (auto simp: handle_message_def Let_def air_frame intro!: emits_air)

lemma emits_v1_approve: "emits (ap_adapter_type b = []) env ms (snd (v1_approve_enrollment env s b ms))"
proof (cases "ap_adapter_type b = []")
  case True
  then show ?thesis
    using emits_approve [of True b env ms s]
    by (simp add: v1_approve_enrollment_def case_prod_beta Let_def split: option.split)
next
  case False
  then have "emits False env ms (snd (approve_enrollment env s b ms))" by (intro emits_approve) simp
  then show ?thesis
    using False
    by (auto simp: v1_approve_enrollment_def case_prod_beta Let_def intro: emits_trans [OF _ emits_config(1)]
        split: option.split)
qed

lemma emits_update_node: "emits False env ms (snd (v1_update_node env s b ms))"
  by (auto simp: v1_update_node_def case_prod_beta Let_def emits_refl
      intro: emits_air air_updates emits_from [OF air_updates(1) emits_config(1)] split: option.split)

lemma emits_commands:
  "emits False env ms (snd (v1_node_command env out u s cb ms))"
  "emits False env ms (snd (v1_zone_command env out s cb ms))"
proof -
  show "emits False env ms (snd (v1_node_command env out u s cb ms))"
    by (auto simp: v1_node_command_def case_prod_beta Let_def emits_refl
        intro: emits_from [OF air_updates(3) emits_config(5)] split: option.split payload_result.split)
  show "emits False env ms (snd (v1_zone_command env out s cb ms))"
    by (auto simp: v1_zone_command_def case_prod_beta Let_def emits_refl emits_send_to_nodes
        split: option.split payload_result.split)
qed

lemma emits_api:
  "emits True env ms (snd (approve_legacy env s b ms))" "emits False env ms (snd (v1_reject_enrollment env s ms))"
  "emits False env ms (snd (reject_legacy env s ms))" "emits False env ms (snd (configure_node_legacy env s t ms))"
  "emits False env ms (snd (configure_all_legacy env t ms))" "emits False env ms (snd (request_health env ms))"
  "emits False env ms (snd (broadcast_legacy env bb ms))" "emits False env ms (snd (handle_set_tx_power env pr ms))"
  using emits_approve [of True b env ms s] emits_reject [of env ms s] emits_config [of env ms]
  by (simp_all add: approve_legacy_def v1_reject_enrollment_def reject_legacy_def configure_node_legacy_def
      configure_all_legacy_def request_health_def broadcast_legacy_def handle_set_tx_power_def case_prod_beta Let_def
      emits_refl split: option.split sum.split)

lemma air_life_cycle:
  "identity (snd (start_server env o1 o2 ms)) = identity ms" "ms_tx (snd (start_server env o1 o2 ms)) = ms_tx ms"
  "identity (snd (stop_server env zo ms)) = identity ms" "ms_tx (snd (stop_server env zo ms)) = ms_tx ms"
proof -
  show "identity (snd (start_server env o1 o2 ms)) = identity ms" "ms_tx (snd (start_server env o1 o2 ms)) = ms_tx ms"
    by (simp_all add: start_server_def start_def record_frame_def identity_def case_prod_beta Let_def split: option.split)
  have parts: "identity (save_zones out m) = identity m \<and> ms_tx (save_zones out m) = ms_tx m"
    "identity (close_links m) = identity m \<and> ms_tx (close_links m) = ms_tx m"
    "identity (finish_loops env m) = identity m \<and> ms_tx (finish_loops env m) = ms_tx m"
    "identity (cancel_server m) = identity m \<and> ms_tx (cancel_server m) = ms_tx m"
    "identity (m\<lparr> ms_stop_persist_closed := c \<rparr>) = identity m" "identity (m\<lparr> ms_stop_node_closed := c \<rparr>) = identity m"
    for out m c
    by (simp_all add: save_zones_def close_links_def finish_loops_def save_auth_def save_nodes_def cancel_server_def
        identity_def Let_def)
  have "identity (snd (stop env zo ms)) = identity ms \<and> ms_tx (snd (stop env zo ms)) = ms_tx ms"
    by (simp add: stop_def Let_def parts)
  moreover have "snd (stop_server env zo ms) = ms \<or> snd (stop_server env zo ms) = snd (stop env zo ms)"
    by (cases "stop env zo ms"; cases "fst (stop env zo ms)") (auto simp: stop_server_def split: option.split)
  ultimately show "identity (snd (stop_server env zo ms)) = identity ms" "ms_tx (snd (stop_server env zo ms)) = ms_tx ms"
    by metis+
qed

section \<open>The acknowledgements of a run\<close>

definition ack_ok :: "mesh_server \<Rightarrow> link \<times> mesh_message \<times> go_error option \<Rightarrow> bool" where
  "ack_ok ms = (\<lambda>(l, m, r). message_type m = MessageTypeJoinAck \<longrightarrow>
     (\<exists>node. m = join_ack node ms) \<or> (\<exists>mac. m = reject_frame mac ms))"

lemma ack_ok_cong:
  assumes "identity a = identity b"
  shows "ack_ok a = ack_ok b"
proof -
  have "join_ack node a = join_ack node b" "reject_frame mac a = reject_frame mac b" for node mac
    using assms by (simp_all add: identity_def join_ack_def join_ack_data_def reject_frame_def Let_def)
  then show ?thesis by (simp add: ack_ok_def)
qed

definition acks_only :: "mesh_server \<Rightarrow> mesh_server \<Rightarrow> bool" where
  "acks_only ms ms' \<longleftrightarrow> identity ms' = identity ms \<and> (\<forall>f \<in> set (ms_tx ms'). f \<in> set (ms_tx ms) \<or> ack_ok ms f)"

lemma emits_acks:
  assumes "emits swap env ms ms'"
  shows "acks_only ms ms'"
proof -
  have "ack_ok ms f" if "may_send swap env ms f" for f
    using that by (auto simp: may_send_def ack_ok_def split: prod.splits)
  then show ?thesis using assms by (auto simp: emits_def acks_only_def radio_part_def)
qed

lemma quiet_acks: "identity ms' = identity ms \<Longrightarrow> ms_tx ms' = ms_tx ms \<Longrightarrow> acks_only ms ms'"
  by (simp add: acks_only_def)

lemma air_acks: "air ms' = air ms \<Longrightarrow> acks_only ms ms'"
  by (rule emits_acks [OF emits_air])

lemma acks_trans:
  assumes "acks_only a b" and "acks_only b c"
  shows "acks_only a c"
  using assms ack_ok_cong [of b a] by (fastforce simp: acks_only_def)

lemma process_read_acks: "acks_only ms (ps_server (process_read env l r k ms))"
proof (cases r)
  case (Inl e)
  then show ?thesis by (simp add: process_read_def Let_def air_acks air_updates emits_acks [OF emits_refl])
next
  case (Inr msg)
  have "acks_only ms (record_frame (en_now env) l ms)"
    by (rule quiet_acks) (simp_all add: record_frame_def identity_def split: link.split)
  from acks_trans [OF this emits_acks [OF emits_handle_message]] show ?thesis by (simp add: process_read_def Inr)
qed

lemmas step_acks =
  process_read_acks air_check [THEN air_acks] air_saves(2,3) [THEN air_acks] emits_v1_approve [THEN emits_acks]
  emits_api [THEN emits_acks] emits_update_node [THEN emits_acks] air_node_ops [THEN air_acks]
  emits_commands [THEN emits_acks] quiet_acks [OF air_life_cycle(1,2)] quiet_acks [OF air_life_cycle(3,4)]

lemma server_step_acks: "server_step ms ms' \<Longrightarrow> acks_only ms ms'"
  by (induction rule: server_step.induct) (simp_all only: step_acks)

lemma pool_run_acks: "pool_step\<^sup>*\<^sup>* (ts, ms) (ts', ms') \<Longrightarrow> acks_only ms ms'"
proof (induction rule: rtranclp_induct2)
  case refl
  show ?case by (rule emits_acks [OF emits_refl])
next
  case (step ts1 ms1 ts2 ms2)
  from step(2) have "acks_only ms1 ms2"
  proof (cases rule: pool_step.cases)
    case request
    then show ?thesis by (simp add: emits_acks [OF emits_refl])
  next
    case advance
    then show ?thesis using emits_acks [OF emits_approval_step] by simp
  next
    case other
    then show ?thesis by (simp add: server_step_acks)
  qed
  then show ?case using step(3) acks_trans by blast
qed

section \<open>Properties\<close>

text \<open>
  The frames that an operation logs, with the link of each: the primary is silent when more than 75 s
  have passed since its last frame, that of the operation included.
\<close>

definition follows_link :: "bool \<Rightarrow> env \<Rightarrow> mesh_server \<Rightarrow> mesh_server \<Rightarrow> bool" where
  "follows_link swap env ms ms' \<longleftrightarrow> (\<exists>new. ms_tx ms' = ms_tx ms @ new \<and>
     (\<forall>(l, m, r) \<in> set new. l =
        (if swap \<and> is_config_set m then Primary
         else if ms_secondary_comm ms \<and> 75 * second < en_now env - ms_primary_frame ms' then Secondary
         else Primary)))"

lemma emits_follows:
  assumes "emits swap env a ms'" and "ms_tx a = ms_tx ms" and "ms_secondary_comm a = ms_secondary_comm ms"
  shows "follows_link swap env ms ms'"
proof -
  have le: "since now t \<le> 75 * second \<longleftrightarrow> now - t \<le> 75 * second" for now t
    by (rule since_le_iff) (simp_all add: second_def)
  have "active_outbound (en_now env) a =
      (if ms_secondary_comm ms \<and> 75 * second < en_now env - ms_primary_frame ms' then Secondary else Primary)"
    using assms le [of "en_now env" "ms_primary_frame a"]
    by (simp add: emits_def radio_part_def active_outbound_def failover_threshold_def not_le [symmetric])
  then show ?thesis using assms(1,2) unfolding emits_def follows_link_def may_send_def by fastforce
qed

text \<open>
  C32. Every frame the hub sends follows the same rule: it goes out on the secondary link exactly when
  one is connected and the primary has been silent for more than 75 s, and on the primary otherwise, so
  the primary's next frame switches back at once. This holds for every request that sends, for what
  the receive loop sends in answer to a frame, and for each call of an approval; the only exception is
  the \<open>OP_CONFIG_SET\<close> of a hot swap that inherits the adapter type, which always takes the primary.
  Nothing else the server does sends a frame.
\<close>

theorem frames_follow_the_link:
  "follows_link False env ms (snd (v1_reject_enrollment env s ms)) \<and>
   follows_link False env ms (snd (reject_legacy env s ms)) \<and>
   follows_link False env ms (snd (v1_node_command env out u s cb ms)) \<and>
   follows_link False env ms (snd (v1_zone_command env out s cb ms)) \<and>
   follows_link False env ms (snd (v1_update_node env s ub ms)) \<and>
   follows_link False env ms (snd (configure_node_legacy env s t ms)) \<and>
   follows_link False env ms (snd (configure_all_legacy env t ms)) \<and>
   follows_link False env ms (snd (request_health env ms)) \<and>
   follows_link False env ms (snd (broadcast_legacy env bb ms)) \<and>
   follows_link False env ms (snd (handle_set_tx_power env pr ms)) \<and>
   follows_link True env ms (ps_server (process_read env label r errors ms)) \<and>
   follows_link True env ms (snd (approval_next env at ms)) \<and>
   follows_link True env ms (snd (approve_legacy env s p ms)) \<and>
   follows_link (ap_adapter_type p = []) env ms (snd (v1_approve_enrollment env s p ms)) \<and>
   ms_tx (check_snapshot env ns ms) = ms_tx ms \<and> ms_tx (save_auth env ms) = ms_tx ms \<and>
   ms_tx (save_nodes env ms) = ms_tx ms \<and> ms_tx (snd (v1_delete_node s ms)) = ms_tx ms \<and>
   ms_tx (snd (v1_create_zone z ms)) = ms_tx ms \<and> ms_tx (snd (v1_update_zone s z ms)) = ms_tx ms \<and>
   ms_tx (snd (v1_delete_zone s ms)) = ms_tx ms \<and> ms_tx (snd (start_server env o1 o2 ms)) = ms_tx ms \<and>
   ms_tx (snd (stop_server env zo ms)) = ms_tx ms"
proof -
  have req: "follows_link swap env ms ms'" if "emits swap env ms ms'" for swap ms'
    using emits_follows [OF that] by simp
  have read: "follows_link True env ms (ps_server (process_read env label r errors ms))"
  proof (cases r)
    case (Inl e)
    then show ?thesis by (auto simp: process_read_def Let_def intro!: req emits_air air_updates)
  next
    case (Inr msg)
    show ?thesis
      by (rule emits_follows [of _ _ "record_frame (en_now env) label ms"])
        (simp_all add: process_read_def Inr emits_handle_message record_frame_def split: link.split)
  qed
  have step: "follows_link True env ms (snd (approval_next env at ms))"
    by (rule req, rule emits_approval_step) (rule prod.collapse [symmetric])
  have quiet: "ms_tx ms' = ms_tx ms" if "air ms' = air ms" for ms'
    using that by (simp add: air_def)
  show ?thesis
    by (intro conjI read step emits_api [THEN req] emits_commands [THEN req] emits_update_node [THEN req]
        emits_v1_approve [THEN req] air_check [THEN quiet] air_saves [THEN quiet] air_node_ops [THEN quiet]
        air_life_cycle)
qed

end
