(* ===== verification/Sim_Props.thy ===== *)
theory Sim_Props
  imports Mesh_Sim
begin

text \<open>
  Runs of the simulator: the step relation over everything that can happen to it, the invariant
  of its node table, and what the frames it sends say about the nodes.
\<close>

section \<open>Runs\<close>

inductive sim_step :: "simulator \<Rightarrow> simulator \<Rightarrow> bool" where
  step_tick: "sim_step s (sim_tick now wr s)"
| step_frame: "sim_step s (handle_frame wr msg s)"
| step_attach: "sim_step s (attach_comm c s)"
| step_read_failed: "sim_step s (read_failed c s)"
| step_control: "sim_step s (snd (control_serve wr body ep s))"

inductive_cases sim_stepE: "sim_step s s'"

text \<open>The loops of the simulator are runs of it.\<close>

lemma loops_are_runs:
  "sim_step\<^sup>*\<^sup>* s (snd (sim_run evs s))" "sim_step\<^sup>*\<^sup>* s (snd (serve_serial accepts s))"
  "sim_step\<^sup>*\<^sup>* s (sim_read_loop wr c rs s)"
proof -
  show "sim_step\<^sup>*\<^sup>* s (snd (sim_run evs s))"
    by (induction evs s rule: sim_run.induct)
      (auto intro: step_tick converse_rtranclp_into_rtranclp)
  show "sim_step\<^sup>*\<^sup>* s (snd (serve_serial accepts s))"
    by (induction accepts s rule: serve_serial.induct)
      (auto intro: step_attach converse_rtranclp_into_rtranclp)
  show "sim_step\<^sup>*\<^sup>* s (sim_read_loop wr c rs s)"
    by (induction wr c rs s rule: sim_read_loop.induct)
      (auto intro: step_frame step_read_failed converse_rtranclp_into_rtranclp)
qed

section \<open>The node table\<close>

definition sim_inv :: "simulator \<Rightarrow> bool" where
  "sim_inv s \<longleftrightarrow> keys_distinct (sim_nodes s) \<and> (\<forall>k n. map_of (sim_nodes s) k = Some n \<longrightarrow> node_wf k n)"

text \<open>
  What every operation but spawning and resetting leaves alone: the set of nodes, and of each
  node its address, name and key. \<open>node_core\<close> is that part of a node.
\<close>

definition node_core :: "virtual_node \<Rightarrow> string \<times> byte list \<times> byte list \<times> byte list list \<times> string" where
  "node_core n = (vn_mac_string n, vn_mac n, vn_public_key n, vn_route_path n, vn_name n)"

definition cores :: "simulator \<Rightarrow> (string \<times> (string \<times> byte list \<times> byte list \<times> byte list list \<times> string)) list" where
  "cores s = map (\<lambda>(k, n). (k, node_core n)) (sim_nodes s)"

lemma keys_of_cores: "cores s = cores s' \<Longrightarrow> map fst (sim_nodes s) = map fst (sim_nodes s')"
proof -
  assume "cores s = cores s'"
  then have "map fst (cores s) = map fst (cores s')" by simp
  then show ?thesis by (simp add: cores_def comp_def case_prod_beta)
qed

lemma map_of_cores: "map_of (cores s) k = map_option node_core (map_of (sim_nodes s) k)"
  by (simp add: cores_def map_of_map)

lemma node_wf_core: "node_core n = node_core n' \<Longrightarrow> node_wf k n = node_wf k n'"
  by (simp add: node_core_def node_wf_def)

lemma sim_inv_cores:
  assumes "cores s = cores s'" and inv: "sim_inv s"
  shows "sim_inv s'"
proof -
  have "keys_distinct (sim_nodes s')"
    using inv keys_of_cores [OF assms(1)] by (simp add: sim_inv_def keys_distinct_def)
  moreover have "node_wf k n" if "map_of (sim_nodes s') k = Some n" for k n
  proof -
    have "map_option node_core (map_of (sim_nodes s) k) = Some (node_core n)"
      using that by (metis assms(1) map_of_cores option.simps(9))
    then obtain n0 where "map_of (sim_nodes s) k = Some n0" and "node_core n0 = node_core n" by auto
    then show ?thesis using inv node_wf_core [of n0 n] by (auto simp: sim_inv_def)
  qed
  ultimately show ?thesis by (simp add: sim_inv_def)
qed

lemma update_map_same:
  "map_of m k = Some n \<Longrightarrow> f n' = f n \<Longrightarrow>
     map (\<lambda>(k, n). (k, f n)) (AList.update k n' m) = map (\<lambda>(k, n). (k, f n)) m"
  by (induction m) (auto split: if_splits)

lemma cores_set_node:
  "map_of (sim_nodes s) k = Some n \<Longrightarrow> node_core n' = node_core n \<Longrightarrow> cores (set_node k n' s) = cores s"
  by (simp add: cores_def set_node_def update_map_same)

lemma set_node_simps [simp]:
  "sim_nodes (set_node k n s) = AList.update k n (sim_nodes s)"
  "sim_comm (set_node k n s) = sim_comm s" "sim_tx (set_node k n s) = sim_tx s"
  "sim_cfg (set_node k n s) = sim_cfg s" "sim_started_at (set_node k n s) = sim_started_at s"
  "sim_route_interval (set_node k n s) = sim_route_interval s"
  by (simp_all add: set_node_def)

lemma nodes_write [simp]: "sim_nodes (write_locked wr msg s) = sim_nodes s"
  by (simp add: write_locked_def Let_def split: option.split)

lemma cores_write [simp]: "cores (write_locked wr msg s) = cores s"
  by (simp add: cores_def)

lemma cores_adjust:
  "(\<And>n. node_core (f n) = node_core n) \<Longrightarrow> cores (s\<lparr> sim_nodes := adjust k f (sim_nodes s) \<rparr>) = cores s"
  by (auto simp: cores_def adjust_def)

lemma node_core_updates [simp]:
  "node_core (n\<lparr> vn_last_enroll_attempt := t \<rparr>) = node_core n"
  "node_core (n\<lparr> vn_last_heartbeat := t \<rparr>) = node_core n"
  "node_core (n\<lparr> vn_last_heartbeat := t, vn_uptime := u \<rparr>) = node_core n"
  "node_core (n\<lparr> vn_last_route_report := t \<rparr>) = node_core n"
  "node_core (n\<lparr> vn_ack_count := a \<rparr>) = node_core n"
  "node_core (n\<lparr> vn_node_id := i \<rparr>) = node_core n"
  "node_core (n\<lparr> vn_adapter_type := at \<rparr>) = node_core n"
  "node_core (n\<lparr> vn_offline := b \<rparr>) = node_core n"
  "node_core (n\<lparr> vn_rejected := b \<rparr>) = node_core n"
  "node_core (n\<lparr> vn_enrolled := b, vn_rejected := c, vn_last_heartbeat := t, vn_last_route_report := t2 \<rparr>) = node_core n"
  by (simp_all add: node_core_def)

lemma cores_tick_health [simp]: "cores (tick_health now wr k s) = cores s"
  by (auto simp: tick_health_def Let_def cores_set_node split: option.split)

lemma cores_tick_route [simp]: "cores (tick_route now wr k s) = cores s"
  by (auto simp: tick_route_def Let_def cores_set_node split: option.split)

lemma cores_ack [simp]: "cores (ack_command wr dt tok k s) = cores s"
  by (auto simp: ack_command_def Let_def cores_set_node split: option.split)

lemma cores_fold: "(\<And>k s. cores (f k s) = cores s) \<Longrightarrow> cores (fold f ks s) = cores s"
  by (induction ks arbitrary: s) auto

lemma cores_tick [simp]: "cores (sim_tick now wr s) = cores s"
  by (simp add: sim_tick_def Let_def cores_fold split: option.split)

lemma cores_serial_op: "cores (handle_serial_op msg s) = cores s"
  by (auto simp: handle_serial_op_def Let_def cores_adjust) (auto simp: cores_def)

lemma cores_join_ack: "cores (handle_join_ack msg s) = cores s"
  unfolding handle_join_ack_def by (rule cores_adjust) (simp add: node_core_def)

lemma cores_frame [simp]: "cores (handle_frame wr msg s) = cores s"
  by (simp add: handle_frame_def cores_serial_op cores_join_ack cores_fold)

lemma cores_link [simp]: "cores (attach_comm c s) = cores s" "cores (read_failed c s) = cores s"
  by (simp_all add: attach_comm_def read_failed_def cores_def)

lemma cores_motion [simp]: "cores (snd (fire_motion wr mac s)) = cores s"
  by (simp add: fire_motion_def split: option.split)

lemma cores_offline [simp]: "cores (snd (set_offline mac off s)) = cores s"
  by (simp add: set_offline_def cores_set_node split: option.split)

lemma spawn_inv: "sim_inv s \<Longrightarrow> sim_inv (snd (spawn_node mac typ s))"
proof (cases "new_node mac typ")
  case (Inr n)
  assume inv: "sim_inv s"
  have wf: "node_wf mac n" by (rule new_node_wf [OF Inr])
  then have "vn_mac_string n = mac" by (simp add: node_wf_def)
  then show ?thesis using inv wf Inr
    by (auto simp: spawn_node_def new_enrolling_node_def sim_inv_def set_node_def gomap_simps)
qed (simp add: spawn_node_def new_enrolling_node_def)

lemma seed_entry_wf: "seed_entry nc = Some (k, n) \<Longrightarrow> node_wf k n"
proof -
  assume "seed_entry nc = Some (k, n)"
  then have n: "new_seeded_node nc = Inr n" "k = vn_mac_string n"
    by (auto simp: seed_entry_def split: sum.splits)
  have "node_wf (nc_mac nc) n" by (rule new_seeded_node_wf [OF n(1)])
  then show ?thesis using n(2) by (simp add: node_wf_def)
qed

lemma seeded_inv:
  "keys_distinct (seeded_nodes ncs) \<and> (\<forall>k n. map_of (seeded_nodes ncs) k = Some n \<longrightarrow> node_wf k n)"
  unfolding seeded_nodes_def
  by (rule fold_invariant_step)
    (auto simp: gomap_simps seed_entry_wf split: option.split prod.split)

lemma reset_inv: "sim_inv (sim_reset s)"
  using seeded_inv by (simp add: sim_inv_def sim_reset_def)

lemma new_simulator_inv: "sim_inv (new_simulator now cfg)"
  by (simp add: new_simulator_def reset_inv)

lemma control_snd:
  "\<exists>m t off. snd (control_serve wr body ep s) \<in>
     {s, sim_reset s, snd (spawn_node m t s), snd (fire_motion wr m s), snd (set_offline m off s)}"
  by (cases ep; cases body)
    (auto simp: control_serve_def handle_reset_def handle_spawn_def handle_motion_def handle_set_offline_def
      Let_def case_prod_beta split: option.split sim_error.split)

lemma control_inv:
  assumes inv: "sim_inv s"
  shows "sim_inv (snd (control_serve wr body ep s))"
proof -
  have same: "sim_inv s'" if "cores s' = cores s" for s'
    by (rule sim_inv_cores [OF that [symmetric] inv])
  obtain m t off where "snd (control_serve wr body ep s) \<in>
     {s, sim_reset s, snd (spawn_node m t s), snd (fire_motion wr m s), snd (set_offline m off s)}"
    using control_snd by blast
  then show ?thesis by (auto simp: inv reset_inv spawn_inv same)
qed

lemma sim_step_inv: "sim_step s s' \<Longrightarrow> sim_inv s \<Longrightarrow> sim_inv s'"
proof (induction rule: sim_step.induct)
  case (step_control s wr body ep)
  then show ?case by (rule control_inv)
qed (erule sim_inv_cores [rotated], simp)+

lemma sim_run_inv: "sim_step\<^sup>*\<^sup>* s s' \<Longrightarrow> sim_inv s \<Longrightarrow> sim_inv s'"
  by (induction rule: rtranclp_induct) (auto intro: sim_step_inv)

section \<open>What the frames say\<close>

text \<open>
  A frame written for a node in state \<open>n\<close>: the node is powered on, the frame carries its address,
  and the kinds of frame match its state. The silent flag stops the periodic reports only.
\<close>

definition periodic :: "mesh_message \<Rightarrow> bool" where
  "periodic m \<longleftrightarrow> message_type m = MessageTypeRouteReport \<or> is_health_report m"

definition speaks :: "virtual_node \<Rightarrow> mesh_message \<Rightarrow> bool" where
  "speaks n m \<longleftrightarrow> \<not> vn_offline n \<and> origin_mac m = vn_mac n \<and> proto_version m = 5 \<and>
     (vn_enrolled n \<longleftrightarrow> message_type m \<noteq> MessageTypeEnrollment) \<and>
     (message_type m = MessageTypeEnrollment \<longrightarrow> \<not> vn_rejected n \<and> msg_public_key m = vn_public_key n) \<and>
     (periodic m \<longrightarrow> \<not> vn_silent n)"

text \<open>The flags a frame depends on, which no tick and no command acknowledgement changes.\<close>

definition flags :: "virtual_node \<Rightarrow> byte list \<times> bool \<times> bool \<times> bool \<times> bool \<times> byte list" where
  "flags n = (vn_mac n, vn_offline n, vn_enrolled n, vn_rejected n, vn_silent n, vn_public_key n)"

lemma speaks_flags: "flags n = flags n' \<Longrightarrow> speaks n m = speaks n' m"
  by (simp add: flags_def speaks_def)

lemma envelope_simps [simp]:
  "origin_mac (envelope n) = vn_mac n" "proto_version (envelope n) = 5"
  "msg_hop_count (envelope n) = of_nat (length (vn_route_path n) + 1)"
  by (simp_all add: envelope_def)

lemma envelope_updates [simp]:
  "envelope (n\<lparr> vn_last_enroll_attempt := t \<rparr>) = envelope n"
  "envelope (n\<lparr> vn_last_heartbeat := t, vn_uptime := u \<rparr>) = envelope n"
  "envelope (n\<lparr> vn_last_route_report := t \<rparr>) = envelope n"
  "envelope (n\<lparr> vn_ack_count := a \<rparr>) = envelope n"
  by (simp_all add: envelope_def)

lemma message_types [simp]:
  "message_type (health_msg n) = MessageTypeAdapterData" "origin_mac (health_msg n) = vn_mac n"
  "proto_version (health_msg n) = 5"
  "message_type (route_report_msg n) = MessageTypeRouteReport" "origin_mac (route_report_msg n) = vn_mac n"
  "proto_version (route_report_msg n) = 5"
  "message_type (motion_msg n) = MessageTypeAdapterData" "origin_mac (motion_msg n) = vn_mac n"
  "proto_version (motion_msg n) = 5"
  "message_type (enrollment_msg n) = MessageTypeEnrollment" "origin_mac (enrollment_msg n) = vn_mac n"
  "proto_version (enrollment_msg n) = 5" "msg_public_key (enrollment_msg n) = vn_public_key n"
  "message_type (ack_msg n t) = MessageTypeAdapterData" "origin_mac (ack_msg n t) = vn_mac n"
  "proto_version (ack_msg n t) = 5"
  by (simp_all add: health_msg_def route_report_msg_def motion_msg_def enrollment_msg_def ack_msg_def Let_def)

lemma types_differ [simp]:
  "MessageTypeAdapterData \<noteq> MessageTypeEnrollment" "MessageTypeRouteReport \<noteq> MessageTypeEnrollment"
  "MessageTypeEnrollment \<noteq> MessageTypeRouteReport" "MessageTypeAdapterData \<noteq> MessageTypeRouteReport"
  by (simp_all add: wire_consts)

lemma not_periodic [simp]:
  "\<not> periodic (motion_msg n)" "\<not> periodic (enrollment_msg n)" "\<not> periodic (ack_msg n t)"
  by (simp_all add: periodic_def is_health_report_def motion_msg_def ack_msg_def enrollment_msg_def
      envelope_def wire_consts)

text \<open>
  \<open>truthful s s'\<close>: going from \<open>s\<close> to \<open>s'\<close> appended frames only, every one of them on the
  connection of \<open>s\<close> and for a node of \<open>s\<close> that could send it.
\<close>

definition spoken :: "simulator \<Rightarrow> nat \<times> mesh_message \<times> go_error option \<Rightarrow> bool" where
  "spoken s f \<longleftrightarrow> sim_comm s = Some (fst f) \<and> (\<exists>k n. map_of (sim_nodes s) k = Some n \<and> speaks n (fst (snd f)))"

definition truthful :: "simulator \<Rightarrow> simulator \<Rightarrow> bool" where
  "truthful s s' \<longleftrightarrow> (\<exists>fs. sim_tx s' = sim_tx s @ fs \<and> (\<forall>f \<in> set fs. spoken s f)) \<and>
     (sim_comm s' = sim_comm s \<or> sim_comm s' = None) \<and>
     (\<forall>k. map_option flags (map_of (sim_nodes s') k) = map_option flags (map_of (sim_nodes s) k))"

lemma truthful_refl [simp]: "truthful s s"
  by (simp add: truthful_def)

lemma spoken_before:
  assumes t: "truthful s s'" and f: "spoken s' f"
  shows "spoken s f"
proof -
  from f obtain k n where c: "sim_comm s' = Some (fst f)" and n: "map_of (sim_nodes s') k = Some n"
    and sp: "speaks n (fst (snd f))" by (auto simp: spoken_def)
  from t have "map_option flags (map_of (sim_nodes s') k) = map_option flags (map_of (sim_nodes s) k)"
    unfolding truthful_def by blast
  with n have "map_option flags (map_of (sim_nodes s) k) = Some (flags n)" by simp
  then obtain n0 where "map_of (sim_nodes s) k = Some n0" and "flags n0 = flags n" by auto
  then show ?thesis using sp c t speaks_flags [of n0 n] by (auto simp: spoken_def truthful_def)
qed

lemma truthful_trans: "truthful s s' \<Longrightarrow> truthful s' s'' \<Longrightarrow> truthful s s''"
  unfolding truthful_def using spoken_before [of s s'] unfolding truthful_def
  by (auto 0 3)

lemma truthful_fold: "(\<And>k s. truthful s (f k s)) \<Longrightarrow> truthful s (fold f ks s)"
  by (induction ks arbitrary: s) (auto intro: truthful_trans)

text \<open>One update of a node's bookkeeping followed by one write.\<close>

lemma truthful_write:
  assumes "map_of (sim_nodes s) k = Some n" and "flags n' = flags n" and "speaks n m"
  shows "truthful s (write_locked wr m (set_node k n' s))"
proof -
  have sp: "spoken s (c, m, r)" if "sim_comm s = Some c" for c r
    using assms(1,3) that by (auto simp: spoken_def)
  have fl: "map_option flags (map_of (AList.update k n' (sim_nodes s)) j) = map_option flags (map_of (sim_nodes s) j)" for j
    using assms(1,2) by (simp add: gm.lookup_put)
  show ?thesis
    by (cases "sim_comm s") (simp_all add: truthful_def write_locked_def Let_def fl sp)
qed

lemma speaks_enrollment:
  "\<not> vn_offline n \<Longrightarrow> \<not> vn_enrolled n \<Longrightarrow> \<not> vn_rejected n \<Longrightarrow> speaks n (enrollment_msg n)"
  by (simp add: speaks_def)

lemma speaks_report:
  "\<not> vn_offline n \<Longrightarrow> vn_enrolled n \<Longrightarrow> \<not> vn_silent n \<Longrightarrow>
     vn_mac n' = vn_mac n \<Longrightarrow> speaks n (health_msg n') \<and> speaks n (route_report_msg n')"
  by (simp add: speaks_def)

lemma speaks_answer:
  "\<not> vn_offline n \<Longrightarrow> vn_enrolled n \<Longrightarrow> vn_mac n' = vn_mac n \<Longrightarrow>
     speaks n (ack_msg n' t) \<and> speaks n (motion_msg n')"
  by (simp add: speaks_def)

lemma truthful_health: "truthful s (tick_health now wr k s)"
  by (auto simp: tick_health_def Let_def flags_def speaks_def split: option.split
      intro!: truthful_write)

lemma truthful_route: "truthful s (tick_route now wr k s)"
  by (auto simp: tick_route_def Let_def flags_def speaks_def split: option.split intro!: truthful_write)

lemma truthful_ack: "truthful s (ack_command wr dt tok k s)"
  by (auto simp: ack_command_def Let_def flags_def speaks_def split: option.split intro!: truthful_write)

lemma truthful_tick: "truthful s (sim_tick now wr s)"
proof -
  have "truthful s (fold (tick_health now wr) ks s)" and "truthful s' (fold (tick_route now wr) ks' s')" for ks ks' s'
    by (rule truthful_fold, rule truthful_health truthful_route)+
  then have "truthful s (fold (tick_route now wr) ks' (fold (tick_health now wr) ks s))" for ks ks'
    by (blast intro: truthful_trans)
  then show ?thesis by (simp add: sim_tick_def Let_def split: option.split)
qed

text \<open>What a step appends to the frames sent; operations that send nothing append nothing.\<close>

definition appends :: "simulator \<Rightarrow> simulator \<Rightarrow> bool" where
  "appends s s' \<longleftrightarrow> (\<exists>fs. sim_tx s' = sim_tx s @ fs \<and> (\<forall>f \<in> set fs. spoken s f))"

lemma appends_same: "sim_tx s' = sim_tx s \<Longrightarrow> appends s s'"
  by (simp add: appends_def)

lemma truthful_appends: "truthful s s' \<Longrightarrow> appends s s'"
  by (simp add: truthful_def appends_def)

lemma tx_quiet [simp]:
  "sim_tx (handle_serial_op msg s) = sim_tx s" "sim_tx (handle_join_ack msg s) = sim_tx s"
  "sim_tx (sim_reset s) = sim_tx s" "sim_tx (snd (spawn_node mac typ s)) = sim_tx s"
  "sim_tx (snd (set_offline mac off s)) = sim_tx s" "sim_tx (attach_comm c s) = sim_tx s"
  "sim_tx (read_failed c s) = sim_tx s"
  by (simp_all add: handle_serial_op_def handle_join_ack_def sim_reset_def spawn_node_def set_offline_def
      attach_comm_def read_failed_def Let_def split: sum.split option.split)

lemma frame_appends: "appends s (handle_frame wr msg s)"
  by (auto simp: handle_frame_def appends_same intro: truthful_appends [OF truthful_fold [OF truthful_ack]])

lemma truthful_say:
  "map_of (sim_nodes s) k = Some n \<Longrightarrow> speaks n m \<Longrightarrow> truthful s (write_locked wr m s)"
  by (cases "sim_comm s") (auto simp: truthful_def write_locked_def Let_def spoken_def)

lemma motion_appends: "appends s (snd (fire_motion wr mac s))"
  by (auto simp: fire_motion_def appends_same speaks_answer split: option.split
      intro!: truthful_appends truthful_say)

lemma control_appends: "appends s (snd (control_serve wr body ep s))"
proof -
  obtain m t off where "snd (control_serve wr body ep s) \<in>
     {s, sim_reset s, snd (spawn_node m t s), snd (fire_motion wr m s), snd (set_offline m off s)}"
    using control_snd by blast
  then show ?thesis by (auto simp: motion_appends appends_same)
qed

lemma step_appends: "sim_step s s' \<Longrightarrow> appends s s'"
  by (induction rule: sim_step.induct)
    (simp_all add: truthful_appends truthful_tick frame_appends control_appends appends_same)

end
