(* ===== verification/Sim_Loops.thy ===== *)
theory Sim_Loops
  imports Sim_Props
begin

text \<open>
  The loops of the simulator over its node map, on a link that accepts every write. Each loop
  visits the keys one after another and updates the map as it goes; the locale \<open>node_loop\<close> shows
  that the result is what treating every node by itself gives: one pass that maps the nodes, and
  the frames in the order of the nodes. It is interpreted on the two loops of \<open>tick\<close> and on the
  loop that acknowledges a command.
\<close>

abbreviation accepts :: write_result where
  "accepts \<equiv> \<lambda>msg. None"

definition sent :: "nat \<Rightarrow> mesh_message list \<Rightarrow> (nat \<times> mesh_message \<times> go_error option) list" where
  "sent c ms = map (\<lambda>m. (c, m, None)) ms"

lemma sent_simps [simp]: "sent c [] = []" "sent c (m # ms) = (c, m, None) # sent c ms"
  "sent c (ms @ ms') = sent c ms @ sent c ms'"
  by (simp_all add: sent_def)

lemma gomap_rebuild:
  assumes "keys_distinct m"
  shows "map (\<lambda>k. (k, the (map_of m k))) (map fst m) = m"
proof -
  have "(k, the (map_of m k)) = (k, n)" if "(k, n) \<in> set m" for k n
    using that gm.entries_lookup [OF assms, of k n] by simp
  then show ?thesis by (auto simp: comp_def intro!: map_idI)
qed

lemma gomap_eqI:
  assumes "map fst a = map fst b" and "map_of a = map_of b" and "keys_distinct a"
  shows "a = b"
proof -
  have "keys_distinct b" using assms(1,3) by (simp add: keys_distinct_def)
  from gomap_rebuild [OF this] gomap_rebuild [OF assms(3)] assms(1,2) show ?thesis by simp
qed

locale node_loop =
  fixes step :: "string \<Rightarrow> simulator \<Rightarrow> simulator"
    and out :: "virtual_node \<Rightarrow> mesh_message list"
    and upd :: "virtual_node \<Rightarrow> virtual_node"
    and good :: "simulator \<Rightarrow> bool"
    and c :: nat
  assumes step_node: "good s \<Longrightarrow> map_of (sim_nodes s) k = Some n \<Longrightarrow>
      sim_tx (step k s) = sim_tx s @ sent c (out n) \<and>
      map_of (sim_nodes (step k s)) = (map_of (sim_nodes s))(k \<mapsto> upd n) \<and> good (step k s) \<and>
      map fst (sim_nodes (step k s)) = map fst (sim_nodes s)"
begin

lemma loop_keys:
  "distinct ks \<Longrightarrow> (\<forall>k \<in> set ks. map_of (sim_nodes s) k = Some (g k)) \<Longrightarrow> good s \<Longrightarrow>
     sim_tx (fold step ks s) = sim_tx s @ sent c (concat (map (out \<circ> g) ks)) \<and>
     (\<forall>k. map_of (sim_nodes (fold step ks s)) k =
        (if k \<in> set ks then Some (upd (g k)) else map_of (sim_nodes s) k)) \<and>
     good (fold step ks s) \<and> map fst (sim_nodes (fold step ks s)) = map fst (sim_nodes s)"
proof (induction ks arbitrary: s)
  case Nil
  then show ?case by simp
next
  case (Cons k ks)
  note st = step_node [OF Cons.prems(3), of k "g k"]
  have k: "map_of (sim_nodes s) k = Some (g k)" using Cons.prems(2) by simp
  have "\<forall>j \<in> set ks. map_of (sim_nodes (step k s)) j = Some (g j)"
    using Cons.prems(1,2) st [OF k] by auto
  with Cons.IH [of "step k s"] Cons.prems(1) st [OF k] show ?case by auto
qed

text \<open>The whole loop, as one pass over the association list.\<close>

theorem loop_result:
  assumes kd: "keys_distinct (sim_nodes s)" and g: "good s"
  shows "sim_tx (fold step (map fst (sim_nodes s)) s) =
           sim_tx s @ sent c (concat (map (\<lambda>(k, n). out n) (sim_nodes s)))"
    and "sim_nodes (fold step (map fst (sim_nodes s)) s) = map (\<lambda>(k, n). (k, upd n)) (sim_nodes s)"
    and "good (fold step (map fst (sim_nodes s)) s)"
proof -
  let ?m = "sim_nodes s" and ?s' = "fold step (map fst (sim_nodes s)) s"
  let ?g = "\<lambda>k. the (map_of ?m k)"
  have look: "map_of ?m k = Some n" if "(k, n) \<in> set ?m" for k n
    using that kd by (simp add: gm.entries_lookup)
  have all: "\<forall>k \<in> set (map fst ?m). map_of ?m k = Some (?g k)" using look by auto
  have d: "distinct (map fst ?m)" using kd by (simp add: keys_distinct_def)
  note r = loop_keys [OF d all g]
  have "map (out \<circ> ?g) (map fst ?m) = map (\<lambda>(k, n). out n) ?m"
    by (auto simp: look)
  then show "sim_tx ?s' = sim_tx s @ sent c (concat (map (\<lambda>(k, n). out n) ?m))"
    by (simp only: r [THEN conjunct1])
  from r show "good ?s'" by blast
  let ?m' = "map (\<lambda>(k, n). (k, upd n)) ?m"
  have keys: "map fst (sim_nodes ?s') = map fst ?m'" using r by (simp add: comp_def case_prod_beta)
  have "map_of (sim_nodes ?s') k = map_of ?m' k" for k
  proof (cases "map_of ?m k")
    case None
    then have "k \<notin> set (map fst ?m)" by (simp add: map_of_eq_None_iff)
    then show ?thesis using r None by (simp add: map_of_map)
  next
    case (Some n)
    then have "k \<in> set (map fst ?m)" by (simp add: map_of_SomeD image_iff) (metis fst_conv map_of_SomeD)
    then show ?thesis using r Some by (simp add: map_of_map)
  qed
  then have "map_of (sim_nodes ?s') = map_of ?m'" by blast
  then show "sim_nodes ?s' = ?m'"
    by (intro gomap_eqI) (use keys r d in \<open>simp_all only: keys_distinct_def\<close>)
qed

end

section \<open>The three loops\<close>

text \<open>What one node sends in each loop, and how the loop leaves it; \<open>t0\<close> is the start time.\<close>

definition uptime_since :: "time \<Rightarrow> time \<Rightarrow> u32" where
  "uptime_since now t0 = of_int (time_sub now t0 div second)"

definition enrolls :: "time \<Rightarrow> virtual_node \<Rightarrow> bool" where
  "enrolls now n \<longleftrightarrow> \<not> vn_offline n \<and> \<not> vn_enrolled n \<and> \<not> vn_rejected n \<and>
     enroll_interval \<le> time_sub now (vn_last_enroll_attempt n)"

definition reports :: "virtual_node \<Rightarrow> bool" where
  "reports n \<longleftrightarrow> \<not> vn_offline n \<and> vn_enrolled n \<and> \<not> vn_silent n"

definition beats :: "time \<Rightarrow> virtual_node \<Rightarrow> bool" where
  "beats now n \<longleftrightarrow> reports n \<and> vn_heartbeat_interval n \<le> time_sub now (vn_last_heartbeat n)"

definition routes_due :: "time \<Rightarrow> duration \<Rightarrow> virtual_node \<Rightarrow> bool" where
  "routes_due now i n \<longleftrightarrow> reports n \<and> i \<le> time_sub now (vn_last_route_report n)"

definition after_health :: "time \<Rightarrow> time \<Rightarrow> virtual_node \<Rightarrow> virtual_node" where
  "after_health now t0 n =
     (if enrolls now n then n\<lparr> vn_last_enroll_attempt := now \<rparr>
      else if beats now n then n\<lparr> vn_last_heartbeat := now, vn_uptime := uptime_since now t0 \<rparr> else n)"

definition health_out :: "time \<Rightarrow> time \<Rightarrow> virtual_node \<Rightarrow> mesh_message list" where
  "health_out now t0 n =
     (if enrolls now n then [enrollment_msg n]
      else if beats now n then [health_msg (after_health now t0 n)] else [])"

definition after_route :: "time \<Rightarrow> duration \<Rightarrow> virtual_node \<Rightarrow> virtual_node" where
  "after_route now i n = (if routes_due now i n then n\<lparr> vn_last_route_report := now \<rparr> else n)"

definition route_out :: "time \<Rightarrow> duration \<Rightarrow> virtual_node \<Rightarrow> mesh_message list" where
  "route_out now i n = (if routes_due now i n then [route_report_msg n] else [])"

definition answers :: "i32 \<Rightarrow> virtual_node \<Rightarrow> bool" where
  "answers dt n \<longleftrightarrow> vn_enrolled n \<and> \<not> vn_offline n \<and> vn_adapter_type n = dt"

definition after_ack :: "i32 \<Rightarrow> virtual_node \<Rightarrow> virtual_node" where
  "after_ack dt n = (if answers dt n then n\<lparr> vn_ack_count := vn_ack_count n + 1 \<rparr> else n)"

definition ack_out :: "i32 \<Rightarrow> byte \<times> byte \<Rightarrow> virtual_node \<Rightarrow> mesh_message list" where
  "ack_out dt tok n = (if answers dt n then [ack_msg n tok] else [])"

lemma write_accepted:
  "sim_comm s = Some c \<Longrightarrow> write_locked accepts m s = s\<lparr> sim_tx := sim_tx s @ [(c, m, None)] \<rparr>"
  by (simp add: write_locked_def)

lemma update_present: "map_of m k = Some n \<Longrightarrow> map fst (AList.update k n' m) = map fst m"
  by (induction m) (auto split: if_splits)

lemmas update_facts = gm.lookup_put update_present write_accepted

definition link_state :: "nat \<Rightarrow> time \<Rightarrow> duration \<Rightarrow> simulator \<Rightarrow> bool" where
  "link_state c t0 i s \<longleftrightarrow> sim_comm s = Some c \<and> sim_started_at s = t0 \<and> sim_route_interval s = i"

lemma frames_ignore_bookkeeping [simp]:
  "enrollment_msg (n\<lparr> vn_last_enroll_attempt := t \<rparr>) = enrollment_msg n"
  "route_report_msg (n\<lparr> vn_last_route_report := t \<rparr>) = route_report_msg n"
  "ack_msg (n\<lparr> vn_ack_count := a \<rparr>) tok = ack_msg n tok"
  "route_report_msg (n\<lparr> vn_last_enroll_attempt := t \<rparr>) = route_report_msg n"
  "route_report_msg (n\<lparr> vn_last_heartbeat := t, vn_uptime := u \<rparr>) = route_report_msg n"
  by (simp_all add: enrollment_msg_def route_report_msg_def ack_msg_def Let_def)

lemma same_node: "map_of m k = Some n \<Longrightarrow> (map_of m)(k \<mapsto> n) = map_of m"
  by auto

lemma write_step:
  assumes "link_state c t0 i s" and "map_of (sim_nodes s) k = Some n"
  shows "sim_tx (write_locked accepts m (set_node k n' s)) = sim_tx s @ sent c [m] \<and>
      map_of (sim_nodes (write_locked accepts m (set_node k n' s))) = (map_of (sim_nodes s))(k \<mapsto> n') \<and>
      link_state c t0 i (write_locked accepts m (set_node k n' s)) \<and>
      map fst (sim_nodes (write_locked accepts m (set_node k n' s))) = map fst (sim_nodes s)"
  using assms by (simp add: link_state_def update_facts)

lemma tick_health_node:
  "map_of (sim_nodes s) k = Some n \<Longrightarrow> tick_health now wr k s =
     (if enrolls now n then write_locked wr (enrollment_msg n) (set_node k (n\<lparr> vn_last_enroll_attempt := now \<rparr>) s)
      else if beats now n
      then let n' = n\<lparr> vn_last_heartbeat := now, vn_uptime := uptime_since now (sim_started_at s) \<rparr>
           in write_locked wr (health_msg n') (set_node k n' s)
      else s)"
  by (cases "vn_offline n"; cases "vn_enrolled n"; cases "vn_silent n")
    (simp_all add: tick_health_def after_health_def enrolls_def beats_def reports_def uptime_at_def
      uptime_since_def Let_def)

lemma ack_command_node:
  "map_of (sim_nodes s) k = Some n \<Longrightarrow> ack_command wr dt tok k s =
     (if answers dt n then write_locked wr (ack_msg n tok) (set_node k (after_ack dt n) s) else s)"
  by (simp add: ack_command_def answers_def after_ack_def Let_def)

lemma tick_route_node:
  "map_of (sim_nodes s) k = Some n \<Longrightarrow> tick_route now wr k s =
     (if routes_due now (sim_route_interval s) n
      then write_locked wr (route_report_msg n) (set_node k (n\<lparr> vn_last_route_report := now \<rparr>) s) else s)"
  by (auto simp: tick_route_def routes_due_def reports_def Let_def)

interpretation health_loop: node_loop "tick_health now accepts" "health_out now t0" "after_health now t0"
    "link_state c t0 i" c for now c t0 i
proof
  fix s k n
  assume g: "link_state c t0 i s" and n: "map_of (sim_nodes s) k = Some n"
  have comm: "sim_comm s = Some c" and t0: "sim_started_at s = t0" using g by (simp_all add: link_state_def)
  have wr: "sim_tx (write_locked accepts m (set_node k n' s)) = sim_tx s @ sent c [m] \<and>
      map_of (sim_nodes (write_locked accepts m (set_node k n' s))) = (map_of (sim_nodes s))(k \<mapsto> n') \<and>
      link_state c t0 i (write_locked accepts m (set_node k n' s)) \<and>
      map fst (sim_nodes (write_locked accepts m (set_node k n' s))) = map fst (sim_nodes s)" for m n'
    by (rule write_step [OF g n])
  consider "enrolls now n" | "\<not> enrolls now n" "beats now n" | "\<not> enrolls now n" "\<not> beats now n" by blast
  then show "sim_tx (tick_health now accepts k s) = sim_tx s @ sent c (health_out now t0 n) \<and>
      map_of (sim_nodes (tick_health now accepts k s)) = (map_of (sim_nodes s))(k \<mapsto> after_health now t0 n) \<and>
      link_state c t0 i (tick_health now accepts k s) \<and>
      map fst (sim_nodes (tick_health now accepts k s)) = map fst (sim_nodes s)"
  proof cases
    case 1
    then show ?thesis using wr by (simp only: tick_health_node [OF n] health_out_def after_health_def if_True)
  next
    case 2
    then show ?thesis using wr
      by (simp only: tick_health_node [OF n] health_out_def after_health_def if_True if_False Let_def t0)
  next
    case 3
    then show ?thesis using g
      by (simp only: tick_health_node [OF n] health_out_def after_health_def if_False same_node [OF n]
          sent_simps append_Nil2)
  qed
qed

interpretation route_loop: node_loop "tick_route now accepts" "route_out now i" "after_route now i"
    "link_state c t0 i" c for now c t0 i
proof
  fix s k n
  assume g: "link_state c t0 i s" and n: "map_of (sim_nodes s) k = Some n"
  then show "sim_tx (tick_route now accepts k s) = sim_tx s @ sent c (route_out now i n) \<and>
      map_of (sim_nodes (tick_route now accepts k s)) = (map_of (sim_nodes s))(k \<mapsto> after_route now i n) \<and>
      link_state c t0 i (tick_route now accepts k s) \<and>
      map fst (sim_nodes (tick_route now accepts k s)) = map fst (sim_nodes s)"
    by (cases "routes_due now i n")
      (simp_all add: tick_route_node route_out_def after_route_def link_state_def update_facts same_node)
qed

interpretation ack_loop: node_loop "ack_command accepts dt tok" "ack_out dt tok" "after_ack dt"
    "link_state c t0 i" c for dt tok c t0 i
proof
  fix s k n
  assume g: "link_state c t0 i s" and n: "map_of (sim_nodes s) k = Some n"
  then show "sim_tx (ack_command accepts dt tok k s) = sim_tx s @ sent c (ack_out dt tok n) \<and>
      map_of (sim_nodes (ack_command accepts dt tok k s)) = (map_of (sim_nodes s))(k \<mapsto> after_ack dt n) \<and>
      link_state c t0 i (ack_command accepts dt tok k s) \<and>
      map fst (sim_nodes (ack_command accepts dt tok k s)) = map fst (sim_nodes s)"
    by (cases "answers dt n")
      (simp_all add: ack_command_node ack_out_def after_ack_def link_state_def update_facts same_node)
qed

text \<open>A tick and a command, as one pass each.\<close>

lemma tick_result:
  assumes kd: "keys_distinct (sim_nodes s)" and g: "link_state c t0 i s"
  shows "sim_tx (sim_tick now accepts s) = sim_tx s @
           sent c (concat (map (\<lambda>(k, n). health_out now t0 n) (sim_nodes s)) @
                   concat (map (\<lambda>(k, n). route_out now i (after_health now t0 n)) (sim_nodes s)))"
    and "sim_nodes (sim_tick now accepts s) =
           map (\<lambda>(k, n). (k, after_route now i (after_health now t0 n))) (sim_nodes s)"
proof -
  let ?s1 = "fold (tick_health now accepts) (map fst (sim_nodes s)) s"
  note h = health_loop.loop_result [OF kd g, of now]
  have kd1: "keys_distinct (sim_nodes ?s1)"
    using kd by (simp add: h keys_distinct_def comp_def case_prod_beta)
  note r = route_loop.loop_result [OF kd1 h(3), of now]
  have tick: "sim_tick now accepts s = fold (tick_route now accepts) (map fst (sim_nodes ?s1)) ?s1"
    using g by (simp add: sim_tick_def link_state_def Let_def)
  show "sim_tx (sim_tick now accepts s) = sim_tx s @
           sent c (concat (map (\<lambda>(k, n). health_out now t0 n) (sim_nodes s)) @
                   concat (map (\<lambda>(k, n). route_out now i (after_health now t0 n)) (sim_nodes s)))"
    unfolding tick r(1) unfolding h by (simp add: case_prod_unfold comp_def)
  show "sim_nodes (sim_tick now accepts s) =
           map (\<lambda>(k, n). (k, after_route now i (after_health now t0 n))) (sim_nodes s)"
    unfolding tick r(2) unfolding h by (simp add: case_prod_unfold comp_def)
qed

lemma command_result:
  assumes kd: "keys_distinct (sim_nodes s)" and g: "link_state c t0 i s"
    and m: "message_type msg = MessageTypeAdapterData \<or> message_type msg = MessageTypeSerialCmdBroadcast"
    and dt: "data_type msg = AdapterTypeLED \<or> data_type msg = AdapterTypeRelay"
    and len: "length (msg_data msg) = MaxDataLength"
  shows "sim_tx (handle_frame accepts msg s) = sim_tx s @
           sent c (concat (map (\<lambda>(k, n). ack_out (data_type msg) (msg_data msg ! 62, msg_data msg ! 63) n) (sim_nodes s)))"
    and "sim_nodes (handle_frame accepts msg s) = map (\<lambda>(k, n). (k, after_ack (data_type msg) n)) (sim_nodes s)"
proof -
  have "handle_frame accepts msg s =
      fold (ack_command accepts (data_type msg) (msg_data msg ! 62, msg_data msg ! 63)) (map fst (sim_nodes s)) s"
    using m dt len by (auto simp: handle_frame_def wire_consts)
  with ack_loop.loop_result [OF kd g, of "data_type msg" "(msg_data msg ! 62, msg_data msg ! 63)"]
  show "sim_tx (handle_frame accepts msg s) = sim_tx s @
           sent c (concat (map (\<lambda>(k, n). ack_out (data_type msg) (msg_data msg ! 62, msg_data msg ! 63) n) (sim_nodes s)))"
    and "sim_nodes (handle_frame accepts msg s) = map (\<lambda>(k, n). (k, after_ack (data_type msg) n)) (sim_nodes s)"
    by simp_all
qed

end
