(* ===== verification/Sim_Claims.thy ===== *)
theory Sim_Claims
  imports Sim_Loops
begin

text \<open>
  The properties of the simulator by itself: its nodes stay well formed, it speaks only for nodes
  that can speak, a tick sends exactly what is due, and a node whose MAC is not spelled the way
  the frame handler prints it can never be enrolled.
\<close>

section \<open>Well-formed nodes\<close>

text \<open>
  C36. In every state the simulator can reach from any configuration, the node stored under a
  key is well formed: the key is its MAC string, that string parses to its six address bytes, its
  public key is the 32 bytes derived from the address, and every relay on its path is an address.
\<close>
theorem sim_nodes_well_formed:
  assumes "sim_step\<^sup>*\<^sup>* (new_simulator now cfg) s" and "map_of (sim_nodes s) k = Some n"
  shows "vn_mac_string n = k \<and> sim_parse_mac k = Inr (vn_mac n) \<and> length (vn_mac n) = 6 \<and>
         vn_public_key n = pub_key_for_mac (vn_mac n) \<and> length (vn_public_key n) = 32 \<and>
         (\<forall>r \<in> set (vn_route_path n). length r = 6)"
  using sim_run_inv [OF assms(1) new_simulator_inv] assms(2)
  by (auto simp: sim_inv_def node_wf_def dest: sim_codec.parse_length)

definition one_node :: "string \<Rightarrow> string \<Rightarrow> string list \<Rightarrow> sim_config" where
  "one_node mac typ route = \<lparr> sc_nodes = [\<lparr> nc_mac = mac, nc_name = ''n'', nc_type = typ, nc_route_path = route,
     nc_heartbeat_ms = 0, nc_silent = False \<rparr>], sc_route_report_ms = 0 \<rparr>"

lemma one_node_state:
  obtains n where "sim_nodes (new_simulator now (one_node ''02:00:00:00:00:0a'' ''pir'' [])) = [(''02:00:00:00:00:0a'', n)]"
    and "vn_mac n = [2, 0, 0, 0, 0, 10]" and "vn_enrolled n" and "\<not> vn_offline n" and "\<not> vn_silent n"
    and "vn_last_heartbeat n = 0" and "vn_heartbeat_interval n = 3 * second"
proof -
  obtain n where n: "new_node ''02:00:00:00:00:0a'' ''pir'' = Inr n" "vn_mac_string n = ''02:00:00:00:00:0a''"
    "vn_mac n = [2, 0, 0, 0, 0, 10]" "\<not> vn_offline n" "vn_last_heartbeat n = 0"
    "vn_heartbeat_interval n = 3 * second" "vn_route_path n = []"
  proof -
    have "sim_parse_mac ''02:00:00:00:00:0a'' = Inr [2, 0, 0, 0, 0, 10]" by code_simp
    moreover have "sim_adapter_type ''pir'' = Some 2" by code_simp
    ultimately show thesis using that by (simp add: new_node_def time_zero_def)
  qed
  have "sim_nodes (new_simulator now (one_node ''02:00:00:00:00:0a'' ''pir'' [])) =
      [(''02:00:00:00:00:0a'', n\<lparr> vn_name := ''n'', vn_enrolled := True, vn_silent := False, vn_route_path := [] \<rparr>)]"
    using n by (simp add: new_simulator_def sim_reset_def one_node_def seeded_nodes_def seed_entry_def
        new_seeded_node_def Let_def)
  then show thesis by (rule that) (use n in simp_all)
qed

theorem sim_nodes_well_formed_witness:
  "\<exists>n. map_of (sim_nodes (sim_tick 5 accepts (new_simulator 0 (one_node ''02:00:00:00:00:0a'' ''pir'' [])))) ''02:00:00:00:00:0a'' = Some n \<and>
       length (vn_public_key n) = 32"
proof -
  let ?s = "new_simulator 0 (one_node ''02:00:00:00:00:0a'' ''pir'' [])"
  obtain n where "sim_nodes ?s = [(''02:00:00:00:00:0a'', n)]" using one_node_state by blast
  then have n: "map_of (sim_nodes ?s) ''02:00:00:00:00:0a'' = Some n" by simp
  have "map_option node_core (map_of (sim_nodes (sim_tick 5 accepts ?s)) ''02:00:00:00:00:0a'') = Some (node_core n)"
    using map_of_cores [of "sim_tick 5 accepts ?s" "''02:00:00:00:00:0a''"] map_of_cores [of ?s "''02:00:00:00:00:0a''"] n
    by simp
  then obtain n' where n': "map_of (sim_nodes (sim_tick 5 accepts ?s)) ''02:00:00:00:00:0a'' = Some n'" by auto
  have "sim_step\<^sup>*\<^sup>* ?s (sim_tick 5 accepts ?s)" by (intro r_into_rtranclp sim_step.step_tick)
  from sim_nodes_well_formed [OF this n'] n' show ?thesis by blast
qed

section \<open>Who speaks\<close>

text \<open>
  C24. Whatever happens to the simulator, every frame it writes goes to the current connection
  and speaks for one of its nodes that is powered on: a join request only for a node that is
  neither enrolled nor rejected, everything else only for an enrolled node, and the periodic
  reports never for a silent one. An offline node sends nothing and acknowledges nothing.
\<close>
theorem only_live_nodes_speak:
  assumes "sim_step s s'"
  shows "\<exists>fs. sim_tx s' = sim_tx s @ fs \<and>
    (\<forall>(c, m, r) \<in> set fs. sim_comm s = Some c \<and>
       (\<exists>k n. map_of (sim_nodes s) k = Some n \<and> origin_mac m = vn_mac n \<and> \<not> vn_offline n \<and>
          (message_type m = MessageTypeEnrollment \<longrightarrow> \<not> vn_enrolled n \<and> \<not> vn_rejected n \<and>
             msg_public_key m = vn_public_key n) \<and>
          (message_type m \<noteq> MessageTypeEnrollment \<longrightarrow> vn_enrolled n) \<and>
          (message_type m = MessageTypeRouteReport \<or> is_health_report m \<longrightarrow> \<not> vn_silent n)))"
proof -
  from step_appends [OF assms] obtain fs where fs: "sim_tx s' = sim_tx s @ fs" "\<forall>f \<in> set fs. spoken s f"
    by (auto simp: appends_def)
  then show ?thesis by (fastforce simp: spoken_def speaks_def periodic_def)
qed

theorem only_live_nodes_speak_witness:
  "\<exists>fs. sim_tx (sim_tick (10 * second) accepts (attach_comm 7 (new_simulator 0 (one_node ''02:00:00:00:00:0a'' ''pir'' [])))) = fs \<and>
     fs \<noteq> [] \<and> (\<forall>(c, m, r) \<in> set fs. c = 7)"
proof -
  let ?s = "attach_comm 7 (new_simulator 0 (one_node ''02:00:00:00:00:0a'' ''pir'' []))"
  let ?s' = "sim_tick (10 * second) accepts ?s"
  obtain n where n: "sim_nodes ?s = [(''02:00:00:00:00:0a'', n)]" "vn_enrolled n" "\<not> vn_offline n"
    "\<not> vn_silent n" "vn_last_heartbeat n = 0" "vn_heartbeat_interval n = 3 * second"
    by (rule one_node_state [of 0]) (simp add: attach_comm_def)
  have kd: "keys_distinct (sim_nodes ?s)"
    using new_simulator_inv by (simp add: attach_comm_def sim_inv_def)
  have link: "link_state 7 0 (6 * second) ?s" and empty: "sim_tx ?s = []"
    by (simp_all add: link_state_def attach_comm_def new_simulator_def sim_reset_def one_node_def)
  have "health_out (10 * second) 0 n \<noteq> []"
    using n by (simp add: health_out_def beats_def reports_def enrolls_def time_sub_def second_def)
  then have ne: "sim_tx ?s' \<noteq> []"
    using tick_result(1) [OF kd link, of "10 * second"] by (simp add: empty sent_def n(1))
  have "sim_step ?s ?s'" by (rule sim_step.step_tick)
  from only_live_nodes_speak [OF this] obtain fs where fs: "sim_tx ?s' = sim_tx ?s @ fs"
    "\<forall>(c, m, r) \<in> set fs. sim_comm ?s = Some c" by fastforce
  have "sim_tx ?s' = fs" using fs(1) by (simp only: empty append_Nil)
  moreover have "\<forall>(c, m, r) \<in> set fs. c = 7" using fs(2) by (auto simp: attach_comm_def)
  ultimately show ?thesis using ne by blast
qed

section \<open>What a tick sends\<close>

lemma time_sub_self [simp]: "time_sub t t = 0"
  by (simp add: time_sub_def)

lemma nothing_due:
  assumes hb: "0 < vn_heartbeat_interval n" and i: "0 < i"
  shows "\<not> enrolls now (after_route now i (after_health now t0 n)) \<and>
         \<not> beats now (after_route now i (after_health now t0 n)) \<and>
         \<not> routes_due now i (after_route now i (after_health now t0 n))"
proof -
  let ?h = "after_health now t0 n"
  have h: "\<not> enrolls now ?h" "\<not> beats now ?h"
  proof -
    consider "enrolls now n" | "\<not> enrolls now n" "beats now n" | "\<not> enrolls now n" "\<not> beats now n" by blast
    then have "\<not> enrolls now ?h \<and> \<not> beats now ?h"
    proof cases
      case 1
      then have "?h = n\<lparr> vn_last_enroll_attempt := now \<rparr>" and "\<not> vn_enrolled n"
        by (simp_all add: after_health_def enrolls_def)
      then show ?thesis by (simp add: enrolls_def beats_def reports_def enroll_interval_def second_def)
    next
      case 2
      then have "?h = n\<lparr> vn_last_heartbeat := now, vn_uptime := uptime_since now t0 \<rparr>" and "vn_enrolled n"
        by (simp_all add: after_health_def beats_def reports_def)
      then show ?thesis using hb by (simp add: enrolls_def beats_def)
    next
      case 3
      then show ?thesis by (simp add: after_health_def)
    qed
    then show "\<not> enrolls now ?h" "\<not> beats now ?h" by blast+
  qed
  have same: "enrolls now (after_route now i m) = enrolls now m" "beats now (after_route now i m) = beats now m" for m
    by (simp_all add: after_route_def enrolls_def beats_def reports_def)
  have "\<not> routes_due now i (after_route now i ?h)"
    using i by (cases "routes_due now i ?h") (simp_all add: after_route_def routes_due_def reports_def)
  then show ?thesis using h by (simp only: same simp_thms)
qed

text \<open>
  C23. On a link that accepts every write, a tick sends exactly the frames that are due, one
  per node and kind, whatever the order of the map: first the join request of every node that may
  ask and waited two seconds and the heartbeat of every reporting node whose interval is over, then
  the route report of every reporting node whose interval is over. Afterwards none of these is
  due any more.
\<close>
theorem tick_sends_what_is_due:
  assumes "sim_inv s" and "sim_comm s = Some c" and "0 \<le> now" and "0 < sim_route_interval s"
    and "\<forall>k n. map_of (sim_nodes s) k = Some n \<longrightarrow> 0 < vn_heartbeat_interval n"
  shows "let s' = sim_tick now accepts s
         in sim_tx s' = sim_tx s @ sent c (concat (map (\<lambda>(k, n). health_out now (sim_started_at s) n) (sim_nodes s)) @
              [route_report_msg n. (k, n) \<leftarrow> sim_nodes s, routes_due now (sim_route_interval s) n]) \<and>
            (\<forall>k n. map_of (sim_nodes s') k = Some n \<longrightarrow>
               \<not> enrolls now n \<and> \<not> beats now n \<and> \<not> routes_due now (sim_route_interval s) n)"
proof -
  let ?i = "sim_route_interval s" and ?t0 = "sim_started_at s" and ?s' = "sim_tick now accepts s"
  have kd: "keys_distinct (sim_nodes s)" using assms(1) by (simp add: sim_inv_def)
  have link: "link_state c ?t0 ?i s" using assms(2) by (simp add: link_state_def)
  note r = tick_result [OF kd link, of now]
  have due: "routes_due now ?i (after_health now ?t0 n) = routes_due now ?i n" for n
    by (simp add: routes_due_def after_health_def reports_def)
  have msg: "route_report_msg (after_health now ?t0 n) = route_report_msg n" for n
    by (simp add: after_health_def)
  have routes: "concat (map (\<lambda>(k, n). route_out now ?i (after_health now ?t0 n)) m) =
      [route_report_msg n. (k, n) \<leftarrow> m, routes_due now ?i n]" for m
    by (rule arg_cong [where f = concat]) (auto simp: route_out_def due msg)
  have settled: "\<not> enrolls now n \<and> \<not> beats now n \<and> \<not> routes_due now ?i n"
    if n: "map_of (sim_nodes ?s') k = Some n" for k n
  proof -
    from n obtain n0 where n0: "map_of (sim_nodes s) k = Some n0"
      and eq: "n = after_route now ?i (after_health now ?t0 n0)"
      unfolding r(2) by (auto simp: map_of_map)
    have "0 < vn_heartbeat_interval n0" using assms(5) n0 by blast
    then show ?thesis unfolding eq using nothing_due [OF _ assms(4)] by blast
  qed
  show ?thesis using r(1) settled by (simp add: routes Let_def)
qed

theorem tick_sends_what_is_due_witness:
  "let s = attach_comm 7 (new_simulator 0 (one_node ''02:00:00:00:00:0a'' ''pir'' []))
   in \<forall>k n. map_of (sim_nodes (sim_tick (10 * second) accepts s)) k = Some n \<longrightarrow> \<not> beats (10 * second) n"
proof -
  let ?s = "attach_comm 7 (new_simulator 0 (one_node ''02:00:00:00:00:0a'' ''pir'' []))"
  have inv: "sim_inv ?s" using new_simulator_inv by (simp add: attach_comm_def sim_inv_def)
  obtain n0 where n0: "sim_nodes ?s = [(''02:00:00:00:00:0a'', n0)]" "vn_heartbeat_interval n0 = 3 * second"
    by (rule one_node_state [of 0]) (simp add: attach_comm_def)
  have hb: "\<forall>k n. map_of (sim_nodes ?s) k = Some n \<longrightarrow> 0 < vn_heartbeat_interval n"
    by (simp add: n0 second_def)
  show ?thesis
    using tick_sends_what_is_due [OF inv _ _ _ hb, of 7 "10 * second"]
    by (simp add: attach_comm_def second_def new_simulator_def sim_reset_def one_node_def Let_def)
qed

section \<open>A node that can never enrol\<close>

text \<open>
  The handler of \<open>JOIN_ACK\<close> looks a node up by \<open>macKey\<close>, which prints lower case, but nodes are
  stored under the string they were created with, and \<open>ParseMAC\<close> accepts upper case.
\<close>

definition never_enrolled :: "string \<Rightarrow> simulator \<Rightarrow> bool" where
  "never_enrolled k s \<longleftrightarrow> (\<forall>n. map_of (sim_nodes s) k = Some n \<longrightarrow> \<not> vn_enrolled n)"

lemma never_enrolled_flags:
  assumes "truthful s s'" and "never_enrolled k s"
  shows "never_enrolled k s'"
proof -
  have "map_option flags (map_of (sim_nodes s') k) = map_option flags (map_of (sim_nodes s) k)"
    using assms(1) unfolding truthful_def by blast
  then show ?thesis using assms(2)
    by (cases "map_of (sim_nodes s) k") (auto simp: never_enrolled_def flags_def)
qed

lemma never_enrolled_frame:
  assumes k: "\<forall>m. mac_key m \<noteq> k" and ne: "never_enrolled k s"
  shows "never_enrolled k (handle_frame wr msg s)"
proof -
  have other: "k \<noteq> mac_key m" for m using k by metis
  have j: "never_enrolled k (handle_join_ack msg s)"
    using ne by (simp add: never_enrolled_def handle_join_ack_def lookup_adjust other)
  have "map_of (map (\<lambda>(k, n). (k, n\<lparr> vn_last_heartbeat := time_zero \<rparr>)) (sim_nodes s)) k =
      map_option (\<lambda>n. n\<lparr> vn_last_heartbeat := time_zero \<rparr>) (map_of (sim_nodes s) k)"
    by (simp add: map_of_map)
  then have o: "never_enrolled k (handle_serial_op msg s)"
    using ne by (auto simp: never_enrolled_def handle_serial_op_def lookup_adjust other Let_def)
  have a: "never_enrolled k (fold (ack_command wr dt tok) ks s)" for dt tok ks
    by (rule never_enrolled_flags [OF truthful_fold ne]) (rule truthful_ack)
  show ?thesis using j o a ne by (simp add: handle_frame_def)
qed

lemma seeded_keys: "map_of (seeded_nodes ncs) k = Some n \<Longrightarrow> k \<in> nc_mac ` set ncs"
proof -
  have "\<forall>k n. map_of (seeded_nodes ncs) k = Some n \<longrightarrow> k \<in> nc_mac ` set ncs"
    unfolding seeded_nodes_def
  proof (rule fold_invariant_step)
    fix nc :: node_config and m :: "(string, virtual_node) gomap"
    assume nc: "nc \<in> set ncs" and m: "\<forall>k n. map_of m k = Some n \<longrightarrow> k \<in> nc_mac ` set ncs"
    have "k = nc_mac nc" if "seed_entry nc = Some (k, n)" for k n
      using that new_seeded_node_wf [of nc n] by (auto simp: seed_entry_def node_wf_def split: sum.splits)
    then show "\<forall>k n. map_of (case seed_entry nc of None \<Rightarrow> m | Some (j, n') \<Rightarrow> AList.update j n' m) k = Some n \<longrightarrow>
        k \<in> nc_mac ` set ncs"
      using m nc by (auto simp: gm.lookup_put split: option.split if_splits)
  qed simp
  then show "map_of (seeded_nodes ncs) k = Some n \<Longrightarrow> k \<in> nc_mac ` set ncs" by blast
qed

lemma seeds_not_enrolled: "k \<notin> nc_mac ` set ncs \<Longrightarrow> map_of (seeded_nodes ncs) k = None"
  using seeded_keys [of ncs k] by (cases "map_of (seeded_nodes ncs) k") auto

lemma spawn_never_enrolled:
  "never_enrolled k s \<Longrightarrow> never_enrolled k (snd (spawn_node mac typ s))"
proof (cases "new_node mac typ")
  case (Inr n)
  assume "never_enrolled k s"
  then show ?thesis using new_node_state [OF Inr] Inr
    by (simp add: spawn_node_def new_enrolling_node_def never_enrolled_def gm.lookup_put)
qed (simp add: spawn_node_def new_enrolling_node_def)

lemma motion_truthful: "truthful s (snd (fire_motion wr mac s))"
  by (auto simp: fire_motion_def speaks_answer split: option.split intro!: truthful_say)

lemma never_enrolled_step:
  assumes "sim_step s s'" and k: "\<forall>m. mac_key m \<noteq> k" and seed: "k \<notin> nc_mac ` set (sc_nodes (sim_cfg s))"
    and ne: "never_enrolled k s"
  shows "never_enrolled k s'"
  using assms(1)
proof cases
  case (step_control wr body ep)
  obtain m t off where c: "snd (control_serve wr body ep s) \<in>
     {s, sim_reset s, snd (spawn_node m t s), snd (fire_motion wr m s), snd (set_offline m off s)}"
    using control_snd by blast
  have "never_enrolled k (sim_reset s)"
    using seeds_not_enrolled [OF seed] by (simp add: never_enrolled_def sim_reset_def)
  moreover have "never_enrolled k (snd (set_offline m off s))"
    using ne by (auto simp: never_enrolled_def set_offline_def gm.lookup_put split: option.split)
  moreover have "never_enrolled k (snd (spawn_node m t s))" by (rule spawn_never_enrolled [OF ne])
  moreover have "never_enrolled k (snd (fire_motion wr m s))"
    by (rule never_enrolled_flags [OF motion_truthful ne])
  ultimately show ?thesis using c ne by (auto simp: step_control)
next
  case (step_tick now wr)
  then show ?thesis using never_enrolled_flags [OF truthful_tick ne] by simp
next
  case (step_frame wr msg)
  then show ?thesis using never_enrolled_frame [OF k ne] by simp
qed (use ne in \<open>simp_all add: never_enrolled_def attach_comm_def read_failed_def\<close>)

lemma cfg_write [simp]: "sim_cfg (write_locked wr m s) = sim_cfg s"
  by (simp add: write_locked_def Let_def split: option.split)

lemma cfg_parts [simp]:
  "sim_cfg (tick_health now wr k s) = sim_cfg s" "sim_cfg (tick_route now wr k s) = sim_cfg s"
  "sim_cfg (ack_command wr dt tok k s) = sim_cfg s" "sim_cfg (handle_serial_op msg s) = sim_cfg s"
  "sim_cfg (handle_join_ack msg s) = sim_cfg s" "sim_cfg (sim_reset s) = sim_cfg s"
  "sim_cfg (snd (spawn_node mac typ s)) = sim_cfg s" "sim_cfg (snd (fire_motion wr mac s)) = sim_cfg s"
  "sim_cfg (snd (set_offline mac off s)) = sim_cfg s"
  by (simp_all add: tick_health_def tick_route_def ack_command_def handle_serial_op_def handle_join_ack_def
      sim_reset_def spawn_node_def fire_motion_def set_offline_def Let_def split: sum.split option.split)

lemma cfg_fold: "(\<And>k s. sim_cfg (f k s) = sim_cfg s) \<Longrightarrow> sim_cfg (fold f ks s) = sim_cfg s"
  by (induction ks arbitrary: s) auto

lemma cfg_step: "sim_step s s' \<Longrightarrow> sim_cfg s' = sim_cfg s"
proof (induction rule: sim_step.induct)
  case (step_control s wr body ep)
  obtain m t off where "snd (control_serve wr body ep s) \<in>
     {s, sim_reset s, snd (spawn_node m t s), snd (fire_motion wr m s), snd (set_offline m off s)}"
    using control_snd by blast
  then show ?case by auto
qed (simp_all add: sim_tick_def handle_frame_def attach_comm_def read_failed_def cfg_fold Let_def split: option.split)

text \<open>
  C40. A node whose MAC string is not one that \<open>macKey\<close> prints, for instance one in upper
  case, is accepted by \<open>POST /sim/nodes\<close> but stays unenrolled whatever frames arrive and
  whatever else happens to the simulator: no \<open>JOIN_ACK\<close> finds it.
\<close>
theorem misspelt_node_never_enrols:
  assumes "sim_step\<^sup>*\<^sup>* (new_simulator now cfg) s" and "\<forall>m. mac_key m \<noteq> k"
    and "k \<notin> nc_mac ` set (sc_nodes cfg)" and "map_of (sim_nodes s) k = Some n"
  shows "\<not> vn_enrolled n"
proof -
  have "never_enrolled k s \<and> sim_cfg s = cfg"
    using assms(1)
  proof (induction rule: rtranclp_induct)
    case base
    then show ?case using seeds_not_enrolled [OF assms(3)]
      by (simp add: never_enrolled_def new_simulator_def sim_reset_def)
  next
    case (step s s')
    then show ?case using never_enrolled_step [OF step.hyps(2) assms(2)] cfg_step assms(3) by simp
  qed
  then show ?thesis using assms(4) by (simp add: never_enrolled_def)
qed

lemma upper_case_not_printed: "mac_key m \<noteq> ''AA:00:00:00:00:01''"
proof
  assume eq: "mac_key m = ''AA:00:00:00:00:01''"
  then have len: "\<not> length m < 6" by (auto simp: mac_key_def)
  then obtain a as where "take 6 m = a # as" by (cases m) auto
  with eq len have "hd (hex_byte a) = CHR ''A''"
    by (cases as) (auto simp: mac_key_def hex_byte_def)
  then have "hex_digit (unat a div 16) = CHR ''A''" by (simp add: hex_byte_def)
  moreover have "hex_val CHR ''A'' = Some 10" by code_simp
  ultimately have "unat a div 16 = 10" using hex_val_digit [OF hex_nibbles(1) [of a]] by simp
  moreover have "hex_digit 10 \<noteq> CHR ''A''" by code_simp
  ultimately show False using \<open>hex_digit (unat a div 16) = CHR ''A''\<close> by simp
qed

theorem misspelt_node_never_enrols_witness:
  "let k = ''AA:00:00:00:00:01''; (r, s) = handle_spawn (Some (k, ''led'')) (new_simulator 0 (one_node ''x'' ''pir'' []));
       s' = handle_frame accepts (zero_message\<lparr> message_type := MessageTypeJoinAck, target_mac := [0xAA, 0, 0, 0, 0, 1],
              msg_public_key := replicate 32 7 \<rparr>) s
   in r = SimStatus 201 \<and> (\<exists>n. map_of (sim_nodes s') k = Some n \<and> \<not> vn_enrolled n)"
proof -
  let ?k = "''AA:00:00:00:00:01''" and ?init = "new_simulator 0 (one_node ''x'' ''pir'' [])"
  let ?m = "zero_message\<lparr> message_type := MessageTypeJoinAck, target_mac := [0xAA, 0, 0, 0, 0, 1],
              msg_public_key := replicate 32 7 \<rparr>"
  have p: "sim_parse_mac ?k = Inr [0xAA, 0, 0, 0, 0, 1]" "sim_parse_mac ''x'' = Inl (SimInvalidMac ''x'')"
    "sim_adapter_type ''led'' = Some 3" by code_simp+
  obtain n where n: "new_node ?k ''led'' = Inr n" using p by (simp add: new_node_def)
  have k: "vn_mac_string n = ?k" using new_node_wf [OF n] by (simp add: node_wf_def)
  have empty: "sim_nodes ?init = []"
    using p by (simp add: new_simulator_def sim_reset_def one_node_def seeded_nodes_def seed_entry_def
        new_seeded_node_def new_node_def)
  let ?s = "set_node ?k n ?init"
  have spawn: "handle_spawn (Some (?k, ''led'')) ?init = (SimStatus 201, ?s)"
    by (simp add: handle_spawn_def spawn_node_def new_enrolling_node_def n k empty)
  have "sim_step ?init (snd (control_serve accepts (Some (?k, ''led'')) CtlSpawn ?init))" by (rule sim_step.step_control)
  then have "sim_step ?init ?s" by (simp add: control_serve_def spawn)
  moreover have "sim_step ?s (handle_frame accepts ?m ?s)" by (rule sim_step.step_frame)
  ultimately have run: "sim_step\<^sup>*\<^sup>* ?init (handle_frame accepts ?m ?s)" by simp
  have "map_option node_core (map_of (sim_nodes (handle_frame accepts ?m ?s)) ?k) = Some (node_core n)"
    using map_of_cores [of "handle_frame accepts ?m ?s" ?k] map_of_cores [of ?s ?k] by (simp add: gm.lookup_put)
  then obtain n' where n': "map_of (sim_nodes (handle_frame accepts ?m ?s)) ?k = Some n'" by auto
  have "\<not> vn_enrolled n'"
    by (rule misspelt_node_never_enrols [OF run _ _ n']) (simp_all only: upper_case_not_printed one_node_def sim_config.simps node_config.simps, simp_all)
  then show ?thesis using n' by (simp add: spawn Let_def)
qed

end
