(* ===== verification/Sim_Hub.thy ===== *)
theory Sim_Hub
  imports Sim_Claims Server_Claims
begin

text \<open>
  The hub and the simulator together: what the hub writes is handed to the simulator's frame
  handler and the other way round. The bytes in between are the subject of \<open>Proto_Wire\<close>; here a
  frame arrives when the write that sent it succeeded.
\<close>

section \<open>Frames in flight\<close>

text \<open>The messages an operation of the hub put on a link, leaving out failed writes.\<close>

definition delivered :: "mesh_server \<Rightarrow> mesh_server \<Rightarrow> mesh_message list" where
  "delivered ms ms' = [m. (l, m, r) \<leftarrow> drop (length (ms_tx ms)) (ms_tx ms'), r = None]"

text \<open>The simulator handles them in order; the hub handles what the simulator sent.\<close>

definition to_sim :: "write_result \<Rightarrow> mesh_message list \<Rightarrow> simulator \<Rightarrow> simulator" where
  "to_sim wr msgs s = fold (handle_frame wr) msgs s"

definition to_hub :: "env \<Rightarrow> mesh_message list \<Rightarrow> mesh_server \<Rightarrow> mesh_server" where
  "to_hub env msgs ms = fold (\<lambda>m ms. snd (handle_message env m ms)) msgs ms"

text \<open>What the frames of a hub depend on.\<close>

definition radio :: "mesh_server \<Rightarrow> bool \<times> byte list \<times> byte list \<times> byte list \<times> byte list" where
  "radio ms = (ms_serial_comm ms, ms_master_public ms, ms_master_mac ms, ms_secondary_mac ms, ms_secondary_public ms)"

lemma radio_simps [simp]:
  "radio (ms\<lparr> ms_auth := a \<rparr>) = radio ms" "radio (ms\<lparr> ms_nodes := nr \<rparr>) = radio ms"
  "radio (publish_event env t d ms) = radio ms" "radio (snd (write_kafka env doc tp st ms)) = radio ms"
  "radio (snd (log_message_to_kafka env m dir ms)) = radio ms"
  "radio (snd (write_link env l m ms)) = radio ms" "radio (snd (write_active env m ms)) = radio ms"
  "radio (snd (persist_auth env ms)) = radio ms"
  "radio (publish_enrolled_event env r ty ms) = radio ms"
  by (simp_all add: radio_def publish_event_def publish_enrolled_event_def write_kafka_def log_message_to_kafka_def
      record_kafka_write_def write_link_def write_active_def persist_auth_def Let_def case_prod_beta
      split: option.split)

lemma frames_of_radio:
  "radio ms = radio ms' \<Longrightarrow> join_ack n ms = join_ack n ms' \<and> node_id_set mac i ms = node_id_set mac i ms' \<and>
     ms_serial_comm ms = ms_serial_comm ms'"
  by (simp add: radio_def join_ack_def join_ack_data_def node_id_set_def Let_def)

lemma tx_simps [simp]:
  "ms_tx (publish_event env t d ms) = ms_tx ms" "ms_tx (publish_enrolled_event env r ty ms) = ms_tx ms"
  "ms_tx (snd (persist_auth env ms)) = ms_tx ms" "ms_tx (snd (write_kafka env doc tp st ms)) = ms_tx ms"
  "ms_tx (snd (log_message_to_kafka env m dir ms)) = ms_tx ms"
  by (simp_all add: publish_event_def publish_enrolled_event_def persist_auth_def write_kafka_def
      record_kafka_write_def log_message_to_kafka_def Let_def case_prod_beta split: option.split)

lemma tx_write_link: "ms_tx (snd (write_link env l m ms)) = ms_tx ms @ [(l, m, en_frame_err env l m)]"
  by (simp add: write_link_def Let_def)

lemma tx_write_active:
  "\<exists>l. ms_tx (snd (write_active env m ms)) = ms_tx ms @ [(l, m, en_frame_err env l m)]"
  by (auto simp: write_active_def tx_write_link)

section \<open>Approval frames\<close>

definition approval_frames :: "node_auth \<Rightarrow> byte \<Rightarrow> i32 \<Rightarrow> mesh_server \<Rightarrow> mesh_message list" where
  "approval_frames node i inherited ms =
     [join_ack node ms] @ (if 0 < i then [node_id_set (na_mac node) i ms] else []) @
     (if inherited \<noteq> AdapterTypeUnknown
      then (case build_config_set_message (na_mac node) inherited of
              Inl e \<Rightarrow> [] | Inr m \<Rightarrow> [m\<lparr> origin_mac := ms_master_mac ms \<rparr>])
      else [])"

lemma sent_approval:
  assumes ok: "\<And>l m. en_frame_err env l m = None" and up: "ms_serial_comm ms"
  shows "\<exists>fs. ms_tx (send_approval_frames env node i a ms) = ms_tx ms @ fs \<and>
     [m. (l, m, r) \<leftarrow> fs, r = None] = approval_frames node i a ms"
proof -
  obtain l1 where l1: "ms_tx (snd (write_active env (join_ack node ms) ms)) = ms_tx ms @ [(l1, join_ack node ms, None)]"
    using tx_write_active [of env "join_ack node ms" ms] ok by auto
  let ?ms1 = "snd (write_active env (join_ack node ms) ms)"
  have id: "node_id_set (na_mac node) i ?ms1 = node_id_set (na_mac node) i ms"
    using frames_of_radio [of ?ms1 ms] by simp
  let ?ms2 = "if 0 < i then snd (write_active env (node_id_set (na_mac node) i ?ms1) ?ms1) else ?ms1"
  obtain fs2 where fs2: "ms_tx ?ms2 = ms_tx ms @ [(l1, join_ack node ms, None)] @ fs2"
    "[m. (l, m, r) \<leftarrow> fs2, r = None] = (if 0 < i then [node_id_set (na_mac node) i ms] else [])"
  proof (cases "0 < i")
    case True
    obtain l2 where "ms_tx (snd (write_active env (node_id_set (na_mac node) i ?ms1) ?ms1)) =
        ms_tx ?ms1 @ [(l2, node_id_set (na_mac node) i ?ms1, None)]"
      using tx_write_active [of env "node_id_set (na_mac node) i ?ms1" ?ms1] ok by auto
    then show thesis by (intro that [of "[(l2, node_id_set (na_mac node) i ms, None)]"]) (simp_all add: True l1 id)
  next
    case False
    then show thesis by (intro that [of "[]"]) (simp_all add: l1)
  qed
  have mac: "ms_master_mac ?ms2 = ms_master_mac ms"
    using radio_simps(7) [of env _ ms] radio_simps(7) [of env _ ?ms1] by (auto simp: radio_def)
  show ?thesis
    using up fs2 unfolding send_approval_frames_def approval_frames_def Let_def
    by (cases "build_config_set_message (na_mac node) a") (auto simp: tx_write_link ok mac)
qed

section \<open>What the simulator does with them\<close>

lemma addressed_slice: "length mac = 6 \<Longrightarrow> slice (Suc 0) 7 (op # mac @ x # rest) = mac"
  by (simp add: slice_def)

lemma sim_joins:
  assumes "mac_key (na_mac node) = k" and "map_of (sim_nodes s) k = Some n" and "length (ms_master_public ms) = 32"
  shows "map_of (sim_nodes (handle_frame wr (join_ack node ms) s)) k =
     Some (n\<lparr> vn_enrolled := True, vn_rejected := False, vn_last_heartbeat := time_zero,
              vn_last_route_report := time_zero \<rparr>)"
  using assms by (simp add: handle_frame_def join_ack_def handle_join_ack_def lookup_adjust)

lemma sim_takes_id:
  assumes "length mac = 6" and "mac_key mac = k" and "map_of (sim_nodes s) k = Some n"
  shows "map_of (sim_nodes (handle_frame wr (node_id_set mac i ms) s)) k = Some (n\<lparr> vn_node_id := i \<rparr>)"
  using assms by (simp add: handle_frame_def node_id_set_def addressed_payload handle_serial_op_def
      addressed_slice lookup_adjust nth_append Let_def) (simp add: wire_consts nth_append lookup_adjust)

lemma sim_takes_type:
  assumes "length mac = 6" and "mac_key mac = k" and "map_of (sim_nodes s) k = Some n"
    and "build_config_set_message mac at = Inr m"
  shows "map_of (sim_nodes (handle_frame wr (m\<lparr> origin_mac := om \<rparr>) s)) k =
     Some (n\<lparr> vn_adapter_type := ucast (ucast at :: byte) \<rparr>)"
proof -
  have m: "m = zero_message\<lparr>proto_version := 5, message_type := MessageTypeAdapterData,
       data_type := AdapterTypeSerial, target_mac := mac, msg_data := OpConfigSet # mac @ ucast at # replicate 56 0\<rparr>"
    using assms(4) by (simp add: build_config_set_payload [OF assms(1)])
  show ?thesis
    using assms(1-3) by (simp add: m handle_frame_def handle_serial_op_def addressed_slice lookup_adjust
        nth_append Let_def) (simp add: wire_consts nth_append lookup_adjust)
qed

lemma approval_reaches_sim:
  assumes len: "length (na_mac node) = 6" and k: "mac_key (na_mac node) = k"
    and n: "map_of (sim_nodes s) k = Some n" and pub: "length (ms_master_public ms) = 32"
  shows "\<exists>n'. map_of (sim_nodes (to_sim wr (approval_frames node i a ms) s)) k = Some n' \<and> vn_enrolled n' \<and>
     \<not> vn_rejected n' \<and> vn_node_id n' = (if 0 < i then i else vn_node_id n)"
proof -
  let ?s1 = "handle_frame wr (join_ack node ms) s"
  obtain n1 where n1: "map_of (sim_nodes ?s1) k = Some n1" "vn_enrolled n1" "\<not> vn_rejected n1" "vn_node_id n1 = vn_node_id n"
    using sim_joins [OF k n pub] by simp
  let ?s2 = "if 0 < i then handle_frame wr (node_id_set (na_mac node) i ms) ?s1 else ?s1"
  obtain n2 where n2: "map_of (sim_nodes ?s2) k = Some n2" "vn_enrolled n2" "\<not> vn_rejected n2"
    "vn_node_id n2 = (if 0 < i then i else vn_node_id n)"
    using sim_takes_id [OF len k n1(1), of wr i ms] n1 by (cases "0 < i") auto
  obtain m where m: "build_config_set_message (na_mac node) a = Inr m"
    using build_config_set_payload [OF len] by blast
  have "to_sim wr (approval_frames node i a ms) s =
      (if a \<noteq> AdapterTypeUnknown then handle_frame wr (m\<lparr> origin_mac := ms_master_mac ms \<rparr>) ?s2 else ?s2)"
    by (simp add: to_sim_def approval_frames_def m)
  then show ?thesis
    using n2 sim_takes_type [OF len k n2(1) m] by (cases "a = AdapterTypeUnknown") simp_all
qed

section \<open>Joining the mesh\<close>

lemma mac_key_codecs:
  "length mac = 6 \<Longrightarrow> auth_mac_to_string mac = mac_key mac \<and> mac_to_string mac = mac_key mac \<and>
     auth_key (mac_key mac) = mac_key mac"
  using auth_codec.normalise_show [of mac] by (simp add: mac_key_eq auth_mac_to_string_eq auth_key_def)

lemma offer_pends:
  assumes "auth_registry_inv r" and len: "length mac = 6" and "length pub = 32"
    and new: "get_approved_public_key mac r \<noteq> Some pub"
  shows "fst (add_pending now mac pub r) = None \<and>
     (\<exists>a. map_of (snd (add_pending now mac pub r)) (mac_key mac) = Some a \<and> na_mac a = mac \<and>
        na_public_key a = pub \<and> na_status a = TrustPending)"
proof -
  have key: "auth_mac_to_string mac = mac_key mac" using mac_key_codecs [OF len] by blast
  have "na_mac e = mac" if "map_of r (mac_key mac) = Some e" for e
    using table_invD [OF assms(1) that] len auth_codec.show_inj [of "na_mac e" mac]
    by (simp add: auth_ok_def flip: key)
  then show ?thesis
    using new by (auto simp: add_pending_def get_approved_public_key_def key Let_def gm.lookup_put split: option.splits)
qed

lemma hub_holds_offer:
  assumes inv: "auth_registry_inv (ms_auth ms)" and len: "length (vn_mac n) = 6" "length (vn_public_key n) = 32"
    and new: "get_approved_public_key (vn_mac n) (ms_auth ms) \<noteq> Some (vn_public_key n)"
  shows "let ms1 = snd (handle_message env (enrollment_msg n) ms)
     in ms_auth ms1 = snd (add_pending (en_now env) (vn_mac n) (vn_public_key n) (ms_auth ms)) \<and>
        radio ms1 = radio ms"
proof -
  let ?l = "snd (log_message_to_kafka env (enrollment_msg n) ''incoming'' ms)"
  have a: "ms_auth ?l = ms_auth ms" by (simp add: auth_frame)
  have none: "fst (add_pending (en_now env) (vn_mac n) (vn_public_key n) (ms_auth ms)) = None"
    using offer_pends [OF inv len new] by blast
  have "snd (handle_message env (enrollment_msg n) ms) = snd (handle_enrollment_request env (enrollment_msg n) ?l)"
    by (simp add: handle_message_def Let_def) (simp add: wire_consts)
  then show ?thesis
    using len none by (simp add: handle_enrollment_request_def case_prod_beta a auth_frame Let_def split: option.split)
qed

lemma assign_approved_id:
  assumes "length (na_mac node) = 6" and "hotswap (na_mac node) p nr = (old, p', inh)"
  shows "\<exists>r. get_node (na_mac node) (assign_approved node p' i old nr) = Some r \<and> ni_node_id r = i"
proof -
  have "mac \<noteq> na_mac node" if "old = Some mac" for mac
    using assms(2) that by (auto simp: hotswap_def split: if_splits option.splits)
  then show ?thesis
    by (auto simp: assign_approved_def get_node_def lookup_assign_node lookup_mark_replaced mac_to_string_inj Let_def
        split: option.split)
qed

lemma hub_approves:
  assumes a: "map_of (ms_auth ms) (mac_key mac) = Some a" "na_mac a = mac" and len: "length mac = 6"
    and ok: "\<And>l m. en_frame_err env l m = None" and up: "ms_serial_comm ms"
  shows "\<exists>i inh fs node ms'. let ms2 = snd (approve_enrollment env (mac_key mac) p ms)
     in ms_tx ms2 = ms_tx ms @ fs \<and> [m. (l, m, r) \<leftarrow> fs, r = None] = approval_frames node i inh ms' \<and>
        na_mac node = mac \<and> radio ms' = radio ms \<and>
        get_approved_public_key mac (ms_auth ms2) = Some (na_public_key a) \<and>
        (\<exists>r. get_node mac (ms_nodes ms2) = Some r \<and> ni_node_id r = i)"
proof -
  let ?node = "a\<lparr> na_status := TrustApproved, na_approved_at := en_now env \<rparr>"
  let ?auth = "AList.update (mac_key mac) ?node (ms_auth ms)"
  have key: "auth_mac_to_string mac = mac_key mac" "auth_key (mac_key mac) = mac_key mac"
    using mac_key_codecs [OF len] by blast+
  have ap: "approve (en_now env) (mac_key mac) (ms_auth ms) = (Inr ?node, ?auth)"
    using a by (simp add: approve_def key Let_def)
  let ?ms1 = "ms\<lparr> ms_auth := ?auth \<rparr>"
  let ?i = "if ap_node_id p = 0 then next_free_node_id (ms_nodes ?ms1) else ap_node_id p"
  obtain old p' inh where h: "hotswap mac p (ms_nodes ms) = (old, p', inh)" by (cases "hotswap mac p (ms_nodes ms)")
  let ?ms2 = "?ms1\<lparr> ms_nodes := assign_approved ?node p' ?i old (ms_nodes ms) \<rparr>"
  obtain r where r: "get_node mac (ms_nodes ?ms2) = Some r" "ni_node_id r = ?i"
    using assign_approved_id [of ?node p "ms_nodes ms" old p' inh ?i] len h a(2) by auto
  let ?ms3 = "publish_enrolled_event env r (if ap_adapter_type p' = [] then ''unknown'' else ap_adapter_type p') ?ms2"
  let ?ms4 = "send_approval_frames env ?node ?i inh ?ms3"
  have e: "snd (approve_enrollment env (mac_key mac) p ms) = snd (persist_auth env ?ms4)"
    using r(1) a(2) by (simp add: approve_enrollment_def ap h Let_def case_prod_beta)
  have rad: "radio ?ms3 = radio ms" by simp
  then have "ms_serial_comm ?ms3" using up by (simp add: radio_def)
  from sent_approval [OF ok this, of ?node ?i inh]
  obtain fs where fs3: "ms_tx ?ms4 = ms_tx ?ms3 @ fs"
    and frames: "[m. (l, m, r) \<leftarrow> fs, r = None] = approval_frames ?node ?i inh ?ms3" by blast
  have tx3: "ms_tx ?ms3 = ms_tx ms" by simp
  have fs: "ms_tx ?ms4 = ms_tx ms @ fs" unfolding fs3 tx3 by (rule refl)
  have c: "core (snd (persist_auth env ?ms4)) = core ?ms2" by (simp add: server_frame)
  have "ms_auth (snd (persist_auth env ?ms4)) = ?auth" "ms_nodes (snd (persist_auth env ?ms4)) = ms_nodes ?ms2"
    using c by (simp_all add: core_eq_iff)
  then show ?thesis
    using fs frames rad r a(2) unfolding e
    by (intro exI [of _ ?i] exI [of _ inh] exI [of _ fs] exI [of _ ?node] exI [of _ ?ms3])
      (simp add: get_approved_public_key_def key gm.lookup_put Let_def)
qed

text \<open>
  C3. A virtual node can join. When the hub holds no approval of its key, the node's join
  request leaves a pending request with that key; the administrator's approval then makes the key
  trusted, and the frames the approval puts on the air enrol the node in the simulator under the
  id the hub assigned to it (the id stays as it was when all 255 are taken).
\<close>
theorem enrolment_handshake:
  assumes hub: "server_inv ms" "ms_serial_comm ms" "length (ms_master_public ms) = 32"
    and air: "\<forall>l m. en_frame_err env2 l m = None"
    and node: "map_of (sim_nodes s) (mac_key (vn_mac n)) = Some n" "length (vn_mac n) = 6"
      "length (vn_public_key n) = 32"
    and new: "get_approved_public_key (vn_mac n) (ms_auth ms) \<noteq> Some (vn_public_key n)"
  shows "let ms1 = snd (handle_message env1 (enrollment_msg n) ms);
             ms2 = snd (approve_enrollment env2 (mac_key (vn_mac n)) p ms1);
             s' = to_sim wr (delivered ms1 ms2) s
         in (\<exists>a \<in> set (get_pending_enrollments ms1). na_mac a = vn_mac n \<and> na_public_key a = vn_public_key n) \<and>
            get_approved_public_key (vn_mac n) (ms_auth ms2) = Some (vn_public_key n) \<and>
            (\<exists>n' r. map_of (sim_nodes s') (mac_key (vn_mac n)) = Some n' \<and> vn_enrolled n' \<and> \<not> vn_rejected n' \<and>
               get_node (vn_mac n) (ms_nodes ms2) = Some r \<and>
               (ni_node_id r \<noteq> 0 \<longrightarrow> vn_node_id n' = ni_node_id r))"
proof -
  let ?ms1 = "snd (handle_message env1 (enrollment_msg n) ms)"
  have inv: "auth_registry_inv (ms_auth ms)" using hub(1) by (simp add: server_inv_def)
  note held = hub_holds_offer [OF inv node(2,3) new, of env1, unfolded Let_def]
  obtain a where a: "map_of (ms_auth ?ms1) (mac_key (vn_mac n)) = Some a" "na_mac a = vn_mac n"
    "na_public_key a = vn_public_key n" "na_status a = TrustPending"
    using offer_pends [OF inv node(2,3) new, of "en_now env1"] held by auto
  have pend: "a \<in> set (get_pending_enrollments ?ms1)"
    using map_of_SomeD [OF a(1)] a(4) by (force simp: get_pending_enrollments_def get_pending_def)
  have up: "ms_serial_comm ?ms1" and pub: "length (ms_master_public ?ms1) = 32"
    using held hub by (simp_all add: radio_def)
  obtain i inh fs nd ms' r where ap: "ms_tx (snd (approve_enrollment env2 (mac_key (vn_mac n)) p ?ms1)) = ms_tx ?ms1 @ fs"
    "[m. (l, m, r) \<leftarrow> fs, r = None] = approval_frames nd i inh ms'" "na_mac nd = vn_mac n" "radio ms' = radio ?ms1"
    "get_approved_public_key (vn_mac n) (ms_auth (snd (approve_enrollment env2 (mac_key (vn_mac n)) p ?ms1))) = Some (na_public_key a)"
    "get_node (vn_mac n) (ms_nodes (snd (approve_enrollment env2 (mac_key (vn_mac n)) p ?ms1))) = Some r" "ni_node_id r = i"
    using hub_approves [OF a(1,2) node(2) _ up, of env2 p] air by (auto simp: Let_def)
  have del: "delivered ?ms1 (snd (approve_enrollment env2 (mac_key (vn_mac n)) p ?ms1)) = approval_frames nd i inh ms'"
    by (simp add: delivered_def ap(1) ap(2))
  have "length (ms_master_public ms') = 32" using ap(4) pub by (simp add: radio_def)
  then obtain n' where "map_of (sim_nodes (to_sim wr (approval_frames nd i inh ms') s)) (mac_key (vn_mac n)) = Some n'"
    "vn_enrolled n'" "\<not> vn_rejected n'" "vn_node_id n' = (if 0 < i then i else vn_node_id n)"
    using approval_reaches_sim [of nd "mac_key (vn_mac n)" s n ms' wr i inh] ap(3) node by auto
  then show ?thesis using pend a ap(5-7) unfolding Let_def del by (auto simp: word_gt_0)
qed

text \<open>A hub with its serial link up and a simulator with one node, for the examples below.\<close>

lemma example_hub:
  obtains ms where "server_inv ms" and "ms_serial_comm ms" and "length (ms_master_public ms) = 32"
    and "ms_auth ms = []" and "ms_nodes ms = []" and "ms_commands ms = []" and "ms_running ms" and "ms_store ms = None"
    and "ms_online ms = []" and "ms_events ms = []"
proof -
  obtain ms0 where ms0: "new_mesh_server empty_config Missing Missing Missing no_key no_key = Ret ms0"
    using empty_hub by blast
  let ?ms = "ms0\<lparr> ms_serial_comm := True, ms_running := True, ms_master_public := replicate 32 9 \<rparr>"
  have e: "ms_auth ms0 = []" "ms_nodes ms0 = []" "ms_commands ms0 = []" "ms_store ms0 = None" "ms_online ms0 = []"
    "ms_events ms0 = []"
    using ms0 by (auto simp: new_mesh_server_def empty_config_def Let_def new_auth_registry_def new_node_registry_def
        new_command_store_def)
  have "server_inv ?ms" using new_server_inv [OF ms0] by (simp add: server_inv_def)
  then show thesis by (rule that) (simp_all add: e)
qed

lemma example_sim:
  obtains s n where "sim_inv s" and "map_of (sim_nodes s) (mac_key (vn_mac n)) = Some n"
    and "vn_mac n = [2, 0, 0, 0, 0, 10]" and "length (vn_public_key n) = 32" and "vn_enrolled n" and "\<not> vn_offline n"
    and "sim_comm s = Some 7" and "\<forall>r \<in> set (vn_route_path n). length r = 6" and "length (vn_mac n) = 6"
proof -
  let ?s = "attach_comm 7 (new_simulator 0 (one_node ''02:00:00:00:00:0a'' ''pir'' []))"
  have inv: "sim_inv ?s" using new_simulator_inv by (simp add: attach_comm_def sim_inv_def)
  obtain n where n: "sim_nodes ?s = [(''02:00:00:00:00:0a'', n)]" "vn_mac n = [2, 0, 0, 0, 0, 10]" "vn_enrolled n"
    "\<not> vn_offline n"
    by (rule one_node_state [of 0]) (simp add: attach_comm_def)
  have key: "mac_key [2, 0, 0, 0, 0, 10] = ''02:00:00:00:00:0a''" by code_simp
  have "node_wf ''02:00:00:00:00:0a'' n" using inv n(1) by (simp add: sim_inv_def)
  then show thesis by (intro that [of ?s n] inv) (use n in \<open>simp_all add: key node_wf_def attach_comm_def\<close>)
qed

theorem enrolment_handshake_witness:
  "\<exists>ms s n. ms_auth ms = [] \<and>
     get_approved_public_key (vn_mac n)
       (ms_auth (snd (approve_enrollment (quiet_env 6) (mac_key (vn_mac n)) no_params
          (snd (handle_message (quiet_env 5) (enrollment_msg n) ms))))) = Some (vn_public_key n)"
proof -
  obtain ms where ms: "server_inv ms" "ms_serial_comm ms" "length (ms_master_public ms) = 32" "ms_auth ms = []"
    by (rule example_hub)
  obtain s :: simulator and n :: virtual_node where n: "map_of (sim_nodes s) (mac_key (vn_mac n)) = Some n" "length (vn_mac n) = 6"
    "length (vn_public_key n) = 32"
    by (rule example_sim)
  have air: "\<forall>l m. en_frame_err (quiet_env 6) l m = None" by (simp add: quiet_env_def)
  have new: "get_approved_public_key (vn_mac n) (ms_auth ms) \<noteq> Some (vn_public_key n)"
    by (simp add: ms get_approved_public_key_def)
  from enrolment_handshake [OF ms(1-3) air n new, of "quiet_env 5" no_params accepts] ms(4)
  show ?thesis unfolding Let_def by blast
qed

section \<open>Reports\<close>

text \<open>The relay path in the header fields, written and read back.\<close>

lemma route_buffer:
  assumes "\<forall>r \<in> set path. length r = 6" and "length pre = i * 6" and "length post = length path * 6"
  shows "fold (\<lambda>(i, relay) buf. go_copy buf (i * 6) relay) (enumerate i path) (pre @ post) = pre @ concat path"
  using assms
proof (induction path arbitrary: i pre post)
  case Nil
  then show ?case by simp
next
  case (Cons r path)
  have r: "length r = 6" using Cons.prems by simp
  have "go_copy (pre @ post) (i * 6) r = (pre @ r) @ drop 6 post"
    using Cons.prems r by (simp add: go_copy_def)
  then show ?case
    using Cons.IH [of "pre @ r" "Suc i" "drop 6 post"] Cons.prems r by simp
qed

lemma length_concat_relays: "\<forall>r \<in> set path. length r = 6 \<Longrightarrow> length (concat path) = length path * 6"
  by (induction path) auto

lemma relay_at:
  "\<forall>r \<in> set path. length r = 6 \<Longrightarrow> i < length path \<Longrightarrow> slice (i * 6) (i * 6 + 6) (concat path) = path ! i"
proof (induction path arbitrary: i)
  case Nil
  then show ?case by simp
next
  case (Cons r path)
  then show ?case by (cases i) (auto simp: slice_def)
qed

lemma relay_macs_concat:
  assumes "\<forall>r \<in> set path. length r = 6"
  shows "relay_macs (concat path) (length path) = path"
proof (rule nth_equalityI)
  fix i assume "i < length (relay_macs (concat path) (length path))"
  then have i: "i < length path" by (simp add: relay_macs_def)
  then have "slice (i * 6) (i * 6 + 6) (concat path) = path ! i" by (rule relay_at [OF assms])
  moreover have "length (path ! i) = 6" using assms i by simp
  moreover have "6 \<le> length (concat path) - i * 6" using i by (simp add: length_concat_relays [OF assms])
  ultimately show "relay_macs (concat path) (length path) ! i = path ! i"
    using i by (simp add: relay_macs_def mac_address_length_def go_copy_def go_make_def add.commute)
qed (simp add: relay_macs_def)

lemma route_report_fields:
  assumes "\<forall>r \<in> set (vn_route_path n). length r = 6" and "length (vn_route_path n) < 2 ^ 32"
  shows "unat (get_route_len (route_report_msg n)) = length (vn_route_path n) \<and>
         get_route_path (route_report_msg n) = concat (vn_route_path n)"
proof -
  have "fold (\<lambda>(i, relay) buf. go_copy buf (i * 6) relay) (enumerate 0 (vn_route_path n))
      (go_make (length (vn_route_path n) * 6)) = concat (vn_route_path n)"
    using route_buffer [OF assms(1), of "[]" 0] by simp
  then show ?thesis
    using assms(2) by (simp add: route_report_msg_def get_route_len_def get_route_path_def envelope_def
        unat_of_nat Let_def)
qed

lemma health_report_parsed:
  assumes "length (vn_mac n) = 6"
  shows "parse_health_report (health_msg n) = Inr \<lparr> hr_mac = vn_mac n,
     hr_adapter_type = int8_to_int32 (ucast (vn_adapter_type n)), hr_uptime = vn_uptime n,
     hr_hop_count = of_nat (length (vn_route_path n) + 1), hr_origin_mac = vn_mac n \<rparr>"
proof -
  from assms obtain a b c d e f where m: "vn_mac n = [a, b, c, d, e, f]"
    by (auto simp: numeral_eq_Suc length_Suc_conv)
  obtain w x y z where u: "le32 (vn_uptime n) = [w, x, y, z]" by (simp add: le32_def)
  have d: "msg_data (health_msg n) = OpNodeHealth # ucast (vn_adapter_type n) # vn_mac n @ le32 (vn_uptime n)"
    by (simp add: health_msg_def go_make_def go_copy_def m u numeral_eq_Suc Let_def)
  have "of_le32 (slice 8 12 (msg_data (health_msg n))) = vn_uptime n"
    by (simp add: d m slice_def of_le32_le32)
  moreover have "slice 2 8 (msg_data (health_msg n)) = vn_mac n"
    by (simp add: d m slice_def numeral_eq_Suc)
  moreover have "data_type (health_msg n) = AdapterTypeSerial" "msg_hop_count (health_msg n) = of_nat (length (vn_route_path n) + 1)"
    by (simp_all add: health_msg_def envelope_def Let_def)
  ultimately show ?thesis
    by (simp add: parse_health_report_def d assms mac_address_length_def go_copy_def go_make_def)
qed

text \<open>How the hub takes each of the two reports in.\<close>

lemma log_core: "core (snd (log_message_to_kafka env msg dir ms)) = core ms"
  by (rule core_log)

lemma hub_takes_health:
  assumes len: "length (vn_mac n) = 6"
  shows "\<exists>r. ms_nodes (snd (handle_message env (health_msg n) ms)) =
       update_node (en_now env) (vn_mac n) (int8_to_int32 (ucast (vn_adapter_type n))) (vn_uptime n)
         (of_nat (length (vn_route_path n) + 1)) (ms_nodes ms) \<and>
     get_node (vn_mac n) (ms_nodes (snd (handle_message env (health_msg n) ms))) = Some r \<and>
     map_of (ms_online (snd (handle_message env (health_msg n) ms))) (ni_mac_string r) = Some True"
proof -
  let ?l = "snd (log_message_to_kafka env (health_msg n) ''incoming'' ms)"
  have l: "ms_nodes ?l = ms_nodes ms" using log_core [of env "health_msg n" "''incoming''" ms] by (simp add: core_eq_iff)
  have op: "msg_data (health_msg n) \<noteq> [] \<and> msg_data (health_msg n) ! 0 = OpNodeHealth"
    by (simp add: health_msg_def go_make_def numeral_eq_Suc Let_def go_copy_def nth_append)
  have "snd (handle_message env (health_msg n) ms) = snd (handle_health_report env (health_msg n) ?l)"
    using op by (simp add: handle_message_def handle_adapter_data_def handle_serial_data_def health_msg_def Let_def)
  moreover let ?nr = "update_node (en_now env) (vn_mac n) (int8_to_int32 (ucast (vn_adapter_type n))) (vn_uptime n)
         (of_nat (length (vn_route_path n) + 1)) (ms_nodes ms)"
  obtain r where r: "get_node (vn_mac n) ?nr = Some r" by (simp add: get_node_def lookup_update_node)
  moreover have "snd (handle_health_report env (health_msg n) ?l) = publish_health_event env r (?l\<lparr> ms_nodes := ?nr \<rparr>)"
    using r by (simp add: handle_health_report_def health_report_parsed [OF len] l)
  moreover have "ms_nodes (publish_health_event env r ms') = ms_nodes ms'"
    and "map_of (ms_online (publish_health_event env r ms')) (ni_mac_string r) = Some True" for ms'
    by (simp_all add: publish_health_event_def publish_event_def gm.lookup_put Let_def)
  ultimately show ?thesis by simp
qed

lemma hub_takes_route:
  assumes relays: "\<forall>r \<in> set (vn_route_path n). length r = 6" and short: "length (vn_route_path n) \<le> 10"
  shows "ms_nodes (snd (handle_message env (route_report_msg n) ms)) =
       update_node_route (vn_mac n) (vn_route_path n) (ms_nodes ms) \<and>
     ms_online (snd (handle_message env (route_report_msg n) ms)) = ms_online ms"
proof -
  let ?l = "snd (log_message_to_kafka env (route_report_msg n) ''incoming'' ms)"
  have l: "ms_nodes ?l = ms_nodes ms" "ms_online ?l = ms_online ms"
    using log_core [of env "route_report_msg n" "''incoming''" ms] by (simp_all add: core_eq_iff)
  have "length (vn_route_path n) < 2 ^ 32" using short by simp
  note f = route_report_fields [OF relays this]
  have "snd (handle_message env (route_report_msg n) ms) = snd (handle_route_report env (route_report_msg n) ?l)"
    by (simp add: handle_message_def Let_def) (simp add: wire_consts)
  then show ?thesis
    using f short by (simp add: handle_route_report_def l length_concat_relays [OF relays] relay_macs_concat [OF relays]
        mac_address_length_def publish_event_def Let_def split: option.split)
qed

lemma int8_small:
  assumes "unat (t :: i32) < 128"
  shows "int8_to_int32 (ucast t) = t"
proof -
  have "take_bit 7 t = t"
    using assms by (intro iffD2 [OF word_unat_eq_iff]) (simp add: unsigned_take_bit_eq take_bit_nat_eq_self)
  then have low: "m < 7" if "bit t m" for m using that by (metis bit_take_bit_iff)
  show ?thesis
  proof (rule bit_word_eqI)
    fix m assume "m < LENGTH(32)"
    then show "bit (int8_to_int32 (ucast t)) m = bit t m"
      using low [of m] low [of 7] by (cases "m < 7") (auto simp: int8_to_int32_def bit_simps min_def)
  qed
qed

text \<open>
  C12. What a virtual node reports is what the hub knows of it afterwards: after its heartbeat and
  its route report the registry holds its adapter type, uptime, hop count, the time of the
  report and its relay path, keeps the node id the node had, and counts the node as online.
\<close>
theorem reports_reach_the_hub:
  assumes inv: "server_inv ms" and len: "length (vn_mac n) = 6"
    and relays: "\<forall>r \<in> set (vn_route_path n). length r = 6" "length (vn_route_path n) \<le> 10"
    and type: "unat (vn_adapter_type n) < 128"
  shows "let ms1 = to_hub env [health_msg n, route_report_msg n] ms
     in \<exists>r. get_node (vn_mac n) (ms_nodes ms1) = Some r \<and> ni_adapter_type r = vn_adapter_type n \<and>
          ni_uptime r = vn_uptime n \<and> ni_hop_count r = of_nat (length (vn_route_path n) + 1) \<and>
          ni_last_seen r = en_now env \<and> ni_route_path r = map mac_key (vn_route_path n) \<and>
          ni_node_id r = (case get_node (vn_mac n) (ms_nodes ms) of None \<Rightarrow> 0 | Some n0 \<Rightarrow> ni_node_id n0) \<and>
          map_of (ms_online ms1) (mac_key (vn_mac n)) = Some True"
proof -
  let ?h = "snd (handle_message env (health_msg n) ms)"
  let ?ms1 = "snd (handle_message env (route_report_msg n) ?h)"
  let ?k = "mac_to_string (vn_mac n)"
  obtain r where r: "ms_nodes ?h =
       update_node (en_now env) (vn_mac n) (int8_to_int32 (ucast (vn_adapter_type n))) (vn_uptime n)
         (of_nat (length (vn_route_path n) + 1)) (ms_nodes ms)"
     "get_node (vn_mac n) (ms_nodes ?h) = Some r" "map_of (ms_online ?h) (ni_mac_string r) = Some True"
    using hub_takes_health [OF len, of env ms] by blast
  have "node_registry_inv (ms_nodes ?h)"
    unfolding r(1) using inv by (intro update_node_inv) (simp add: server_inv_def)
  then have k: "ni_mac_string r = ?k"
    using table_invD [of node_ok "ms_nodes ?h" ?k r] r(2) by (simp add: get_node_def node_ok_def)
  note t = hub_takes_route [OF relays, of env ?h]
  have paths: "map mac_to_string (vn_route_path n) = map mac_key (vn_route_path n)"
    using relays(1) by (simp add: mac_key_eq)
  obtain q where q: "map_of (ms_nodes ?ms1) ?k = Some q" "ni_adapter_type q = ni_adapter_type r"
    "ni_uptime q = ni_uptime r" "ni_hop_count q = ni_hop_count r" "ni_last_seen q = ni_last_seen r"
    "ni_node_id q = ni_node_id r" "ni_route_path q = map mac_key (vn_route_path n)"
  proof -
    have look: "map_of (ms_nodes ?h) ?k = Some r" using r(2) by (simp only: get_node_def)
    have q: "map_of (ms_nodes ?ms1) ?k = Some (r\<lparr> ni_route_path := map mac_key (vn_route_path n),
        ni_parent_id := parent_of (vn_route_path n) (upsert ?k (fresh_node (vn_mac n))
          (\<lambda>n'. n'\<lparr> ni_route_path := map mac_key (vn_route_path n) \<rparr>) (ms_nodes ?h)) \<rparr>)"
      by (simp only: t [THEN conjunct1] lookup_update_node_route(1) look option.case paths)
    show thesis by (rule that [OF q]) simp_all
  qed
  have f: "ni_adapter_type r = vn_adapter_type n" "ni_uptime r = vn_uptime n" "ni_last_seen r = en_now env"
    "ni_hop_count r = of_nat (length (vn_route_path n) + 1)"
    "ni_node_id r = (case get_node (vn_mac n) (ms_nodes ms) of None \<Rightarrow> 0 | Some n0 \<Rightarrow> ni_node_id n0)"
    using r(2) unfolding r(1)
    by (auto simp: get_node_def lookup_update_node int8_small [OF type] fresh_node_def split: option.split)
  have on: "map_of (ms_online ?ms1) (mac_key (vn_mac n)) = Some True"
    using r(3) t k by (simp add: mac_key_eq [OF len])
  show ?thesis using q f on by (simp add: to_hub_def get_node_def)
qed

theorem reports_reach_the_hub_witness:
  "\<exists>ms n. ms_nodes ms = [] \<and> (\<exists>r. get_node (vn_mac n) (ms_nodes (to_hub (quiet_env 9) [health_msg n, route_report_msg n] ms)) = Some r \<and>
     ni_route_path r = [mac_key (replicate 6 1)])"
proof -
  obtain ms :: mesh_server where ms: "server_inv ms" "ms_nodes ms = []" by (rule example_hub)
  obtain s :: simulator and n0 :: virtual_node where n0: "length (vn_mac n0) = 6" by (rule example_sim)
  let ?n = "n0\<lparr> vn_adapter_type := 2, vn_route_path := [replicate 6 1] \<rparr>"
  have "length (vn_mac ?n) = 6" "\<forall>r \<in> set (vn_route_path ?n). length r = 6" "length (vn_route_path ?n) \<le> 10"
    "unat (vn_adapter_type ?n) < 128" using n0 by simp_all
  from reports_reach_the_hub [OF ms(1) this, of "quiet_env 9"] ms(2) show ?thesis
    unfolding Let_def by (intro exI [of _ ms] exI [of _ ?n]) auto
qed

section \<open>Commands\<close>

definition acks :: "nat \<Rightarrow> simulator \<Rightarrow> simulator \<Rightarrow> mesh_message list" where
  "acks c s s' = [m. (d, m, r) \<leftarrow> drop (length (sim_tx s)) (sim_tx s'), r = None \<and> d = c]"

lemma ack_message:
  "data_type (ack_msg n tok) = AdapterTypeSerial" "msg_data (ack_msg n tok) = [OpCommandAck, fst tok, snd tok]"
  by (simp_all add: ack_msg_def)

lemma not_health_op: "OpCommandAck \<noteq> OpHealthReport" "OpCommandAck \<noteq> OpNodeHealth"
  by (simp_all add: wire_consts)

lemma ack_origin: "origin_mac (ack_msg n tok) = vn_mac n"
  by (simp add: ack_msg_def envelope_def)

text \<open>The hub takes an acknowledgement from any node; only the token counts.\<close>

lemma hub_takes_ack:
  "ms_commands (snd (handle_message env (ack_msg n tok) ms)) =
     snd (ack_by_token (en_uuid env) (en_now env) tok (ms_commands ms))"
proof -
  let ?l = "snd (log_message_to_kafka env (ack_msg n tok) ''incoming'' ms)"
  have l: "ms_commands ?l = ms_commands ms" using log_core [of env "ack_msg n tok" "''incoming''" ms] by (simp add: core_eq_iff)
  have "snd (handle_message env (ack_msg n tok) ms) = handle_command_ack env (ack_msg n tok) ?l"
    by (simp add: handle_message_def handle_adapter_data_def handle_serial_data_def ack_message not_health_op Let_def)
  then show ?thesis
    by (simp add: handle_command_ack_def ack_message l publish_event_def case_prod_beta Let_def split: option.split)
qed

lemma acks_acknowledge:
  assumes ok: "cmds_ok (ms_commands ms)" and c: "map_of (ms_commands ms) i = Some c" "cmd_status c = CommandStatusPending"
    and tok: "token_of (en_uuid env) i = Some tok"
    and only: "\<And>j d. map_of (ms_commands ms) j = Some d \<Longrightarrow> cmd_status d = CommandStatusPending \<Longrightarrow>
                token_of (en_uuid env) j = Some tok \<Longrightarrow> j = i"
  shows "cmd_get i (ms_commands (to_hub env (map (\<lambda>n. ack_msg n tok) ns) ms)) =
     Some (if ns = [] then c else acked (en_now env) c) \<and>
     (\<forall>j. j \<noteq> i \<longrightarrow> cmd_get j (ms_commands (to_hub env (map (\<lambda>n. ack_msg n tok) ns) ms)) = cmd_get j (ms_commands ms))"
proof (cases ns)
  case Nil
  then show ?thesis using c by (simp add: to_hub_def cmd_get_def)
next
  case (Cons n ns')
  let ?ack = "\<lambda>cs. snd (ack_by_token (en_uuid env) (en_now env) tok cs)"
  have u: "let (r, cs') = ack_by_token (en_uuid env) (en_now env) tok (ms_commands ms)
         in r = Some i \<and> cmd_get i cs' = Some (acked (en_now env) c) \<and>
            (\<forall>j. j \<noteq> i \<longrightarrow> cmd_get j cs' = cmd_get j (ms_commands ms)) \<and>
            ack_by_token (en_uuid env) (en_now env) tok cs' = (None, cs') \<and> cmds_ok cs'"
    by (rule ack_unique_token [OF ok c tok only])
  then have first: "cmd_get i (?ack (ms_commands ms)) = Some (acked (en_now env) c)"
    and again: "?ack (?ack (ms_commands ms)) = ?ack (ms_commands ms)"
    and others: "\<forall>j. j \<noteq> i \<longrightarrow> cmd_get j (?ack (ms_commands ms)) = cmd_get j (ms_commands ms)"
    by (auto simp: Let_def case_prod_beta)
  have rest: "ms_commands (to_hub env (map (\<lambda>n. ack_msg n tok) ks) m) = ms_commands m"
    if "?ack (ms_commands m) = ms_commands m" for ks m
    using that by (induction ks arbitrary: m) (simp_all add: to_hub_def hub_takes_ack)
  have "ms_commands (to_hub env (map (\<lambda>n. ack_msg n tok) ns) ms) = ?ack (ms_commands ms)"
    using rest [of "snd (handle_message env (ack_msg n tok) ms)" ns'] again
    by (simp add: Cons to_hub_def hub_takes_ack)
  then show ?thesis using first others Cons by simp
qed

text \<open>What an accepted command puts on the air.\<close>

lemma payload_length: "command_payload b = Payload p \<Longrightarrow> length p = MaxDataLength"
  by (auto simp: command_payload_def Let_def split: if_splits)

lemma command_frame:
  assumes r: "v1_node_command env is_output u id_str (Some b) ms = (Reply 202 doc msg, ms1)"
    and out: "\<And>t. is_output t \<Longrightarrow> t = AdapterTypeLED \<or> t = AdapterTypeRelay"
  shows "\<exists>m c nd i. parse_node_id id_str = Some i \<and> get_node_by_id i (ms_nodes ms) = Some nd \<and>
     delivered ms ms1 = [m] \<and> message_type m = MessageTypeSerialCmdBroadcast \<and> data_type m = ni_adapter_type nd \<and>
     (data_type m = AdapterTypeLED \<or> data_type m = AdapterTypeRelay) \<and> length (msg_data m) = MaxDataLength \<and>
     msg_data m ! 62 = uu_bytes u ! 14 \<and> msg_data m ! 63 = uu_bytes u ! 15 \<and>
     ms_commands ms1 = cmd_add c (ms_commands ms) \<and> cmd_id c = uu_string u \<and> cmd_node_id c = i \<and>
     cmd_status c = CommandStatusPending \<and> cmd_acked_at c = None"
proof -
  obtain i nd where i: "parse_node_id id_str = Some i" and nd: "get_node_by_id i (ms_nodes ms) = Some nd"
    using r by (auto simp: v1_node_command_def split: option.splits)
  have o: "is_output (ni_adapter_type nd)" and act: "cb_action b \<noteq> []"
    using r i nd by (auto simp: v1_node_command_def split: if_splits)
  obtain p where p: "command_payload b = Payload p"
    using r i nd o act by (cases "command_payload b") (simp_all add: v1_node_command_def)
  let ?c = "\<lparr> cmd_id = uu_string u, cmd_node_id = i, cmd_action = cb_action b, cmd_sent_at = en_now env,
              cmd_status = CommandStatusPending, cmd_acked_at = None \<rparr>"
  let ?p = "p[MaxDataLength - 2 := uu_bytes u ! 14, MaxDataLength - 1 := uu_bytes u ! 15]"
  let ?ms = "ms\<lparr> ms_commands := cmd_add ?c (ms_commands ms) \<rparr>"
  let ?m = "zero_message\<lparr> proto_version := 5, message_type := MessageTypeSerialCmdBroadcast,
              data_type := ni_adapter_type nd, msg_data := go_copy (go_make MaxDataLength) 0 ?p \<rparr>"
  have send: "fst (send_node_data env (ni_adapter_type nd) ?p ?ms) = None"
    and ms1: "ms1 = snd (send_node_data env (ni_adapter_type nd) ?p ?ms)"
    using r i nd o act p by (simp_all add: v1_node_command_def Let_def case_prod_beta split: if_splits)
  have up: "ms_serial_comm ?ms"
  proof (rule ccontr)
    assume "\<not> ms_serial_comm ?ms"
    then show False using send by (simp add: send_node_data_def)
  qed
  have w: "fst (write_active env ?m ?ms) = None" "ms1 = snd (write_active env ?m ?ms)"
    using send up ms1 by (simp_all add: send_node_data_def Let_def case_prod_beta)
  obtain l where tx: "ms_tx ms1 = ms_tx ms @ [(l, ?m, None)]"
    using w by (auto simp: write_active_def write_link_def Let_def)
  have len: "length p = 64" using payload_length [OF p] by (simp add: MaxDataLength_def)
  have data: "msg_data ?m = p[62 := uu_bytes u ! 14, 63 := uu_bytes u ! 15]"
    using len by (simp add: go_copy_def MaxDataLength_def)
  have "ms_commands ms1 = cmd_add ?c (ms_commands ms)"
    using w(2) core_write_active [of env ?m ?ms] by (simp add: core_eq_iff)
  moreover have "delivered ms ms1 = [?m]" by (simp add: delivered_def tx)
  moreover have "msg_data ?m ! 62 = uu_bytes u ! 14" "msg_data ?m ! 63 = uu_bytes u ! 15" "length (msg_data ?m) = MaxDataLength"
    unfolding data using len by (simp_all add: MaxDataLength_def)
  ultimately show ?thesis
    using i nd out [OF o] by (intro exI [of _ ?m] exI [of _ ?c] exI [of _ nd] exI [of _ i]) simp
qed

lemma sent_received: "[m. (d, m, r) \<leftarrow> sent c ms, r = None \<and> d = c] = ms"
  by (induction ms) simp_all

lemma ack_outs:
  "concat (map (\<lambda>(k, n). ack_out dt tok n) xs) = map (\<lambda>n. ack_msg n tok) [n. (k, n) \<leftarrow> xs, answers dt n]"
  by (induction xs) (auto simp: ack_out_def)

lemma sim_acks:
  assumes inv: "sim_inv s" and comm: "sim_comm s = Some c"
    and m: "message_type m = MessageTypeSerialCmdBroadcast" "data_type m = AdapterTypeLED \<or> data_type m = AdapterTypeRelay"
      "length (msg_data m) = MaxDataLength"
  shows "acks c s (to_sim accepts [m] s) =
     map (\<lambda>n. ack_msg n (msg_data m ! 62, msg_data m ! 63)) [n. (k, n) \<leftarrow> sim_nodes s, answers (data_type m) n]"
proof -
  have kd: "keys_distinct (sim_nodes s)" using inv by (simp add: sim_inv_def)
  have link: "link_state c (sim_started_at s) (sim_route_interval s) s" using comm by (simp add: link_state_def)
  let ?tok = "(msg_data m ! 62, msg_data m ! 63)"
  let ?out = "concat (map (\<lambda>(k, n). ack_out (data_type m) ?tok n) (sim_nodes s))"
  have "sim_tx (to_sim accepts [m] s) = sim_tx s @ sent c ?out"
    using command_result(1) [OF kd link _ m(2,3)] m(1) by (simp add: to_sim_def)
  then have "acks c s (to_sim accepts [m] s) = [m. (d, m, r) \<leftarrow> sent c ?out, r = None \<and> d = c]"
    by (simp add: acks_def)
  also have "\<dots> = ?out" by (rule sent_received)
  finally show ?thesis by (simp only: ack_outs)
qed

text \<open>
  C11. A command comes back: when the API accepts a command for a node (a 202 response), the
  frame it broadcasts makes every virtual node of that adapter type that is enrolled and powered
  on send one acknowledgement with the token of the command, and no other node sends anything.
  The acknowledgements mark this command as acknowledged and leave every other command in the store
  as it was. The addressed node need not be among them: the hub's status says that some node of the
  type answered. \<open>adapter.IsOutput\<close> holds for LED and relay nodes only, and \<open>uuid.Parse\<close> gives back
  the bytes of the new id; no other pending command has the same last two bytes.
\<close>

theorem command_roundtrip:
  assumes accepted: "v1_node_command env is_output u id_str (Some b) ms = (Reply 202 doc msg, ms1)"
    and out: "\<forall>t. is_output t \<longrightarrow> t = AdapterTypeLED \<or> t = AdapterTypeRelay"
    and cmds: "cmds_ok (ms_commands ms)" and uuid: "en_uuid env2 (uu_string u) = Some (uu_bytes u)"
    and only: "\<forall>j d. map_of (ms_commands ms) j = Some d \<and> cmd_status d = CommandStatusPending \<longrightarrow>
                token_of (en_uuid env2) j \<noteq> Some (uu_bytes u ! 14, uu_bytes u ! 15)"
    and sim: "sim_inv s" "sim_comm s = Some c"
  shows "\<exists>i nd cmd. parse_node_id id_str = Some i \<and> get_node_by_id i (ms_nodes ms) = Some nd \<and>
     (let live = [n. (k, n) \<leftarrow> sim_nodes s, vn_enrolled n \<and> \<not> vn_offline n \<and> vn_adapter_type n = ni_adapter_type nd];
          answer = acks c s (to_sim accepts (delivered ms ms1) s);
          store = ms_commands (to_hub env2 answer ms1)
      in map (\<lambda>m. (origin_mac m, msg_data m)) answer =
           map (\<lambda>n. (vn_mac n, [OpCommandAck, uu_bytes u ! 14, uu_bytes u ! 15])) live \<and>
         cmd_get (uu_string u) store = Some cmd \<and> cmd_node_id cmd = i \<and>
         (if live \<noteq> [] then cmd_status cmd = CommandStatusAcked \<and> cmd_acked_at cmd = Some (en_now env2)
          else cmd_status cmd = CommandStatusPending) \<and>
         (\<forall>j. j \<noteq> uu_string u \<longrightarrow> cmd_get j store = cmd_get j (ms_commands ms)))"
proof -
  obtain m cmd nd i where f: "parse_node_id id_str = Some i" "get_node_by_id i (ms_nodes ms) = Some nd"
    "delivered ms ms1 = [m]" "message_type m = MessageTypeSerialCmdBroadcast" "data_type m = ni_adapter_type nd"
    "data_type m = AdapterTypeLED \<or> data_type m = AdapterTypeRelay" "length (msg_data m) = MaxDataLength"
    "msg_data m ! 62 = uu_bytes u ! 14" "msg_data m ! 63 = uu_bytes u ! 15"
    "ms_commands ms1 = cmd_add cmd (ms_commands ms)" "cmd_id cmd = uu_string u" "cmd_node_id cmd = i"
    "cmd_status cmd = CommandStatusPending" "cmd_acked_at cmd = None"
    using command_frame [OF accepted] out by blast
  let ?tok = "(uu_bytes u ! 14, uu_bytes u ! 15)"
  define ns where "ns = [n. (k, n) \<leftarrow> sim_nodes s, vn_enrolled n \<and> \<not> vn_offline n \<and> vn_adapter_type n = ni_adapter_type nd]"
  have a: "acks c s (to_sim accepts (delivered ms ms1) s) = map (\<lambda>n. ack_msg n ?tok) ns"
    using sim_acks [OF sim f(4,6,7)] by (simp only: f ns_def answers_def)
  have "cmd_get (uu_string u) (ms_commands (to_hub env2 (map (\<lambda>n. ack_msg n ?tok) ns) ms1)) =
      Some (if ns = [] then cmd else acked (en_now env2) cmd) \<and>
    (\<forall>j. j \<noteq> uu_string u \<longrightarrow> cmd_get j (ms_commands (to_hub env2 (map (\<lambda>n. ack_msg n ?tok) ns) ms1)) =
       cmd_get j (ms_commands ms1))"
  proof (rule acks_acknowledge)
    show "cmds_ok (ms_commands ms1)" unfolding f(10) by (rule cmds_ok_add [OF cmds]) (simp add: f)
    show "map_of (ms_commands ms1) (uu_string u) = Some cmd" by (simp add: f(10,11) cmd_add_def gm.lookup_put)
    show "token_of (en_uuid env2) (uu_string u) = Some ?tok" by (simp add: token_of_def uuid)
    fix j d
    assume "map_of (ms_commands ms1) j = Some d" "cmd_status d = CommandStatusPending"
      "token_of (en_uuid env2) j = Some ?tok"
    then show "j = uu_string u"
      using only by (auto simp: f(10,11) cmd_add_def gm.lookup_put split: if_splits)
  qed (rule f(13))
  moreover have "cmd_get j (ms_commands ms1) = cmd_get j (ms_commands ms)" if "j \<noteq> uu_string u" for j
    using that by (simp add: cmd_get_def f(10,11) cmd_add_def gm.lookup_put)
  moreover have "map (\<lambda>m. (origin_mac m, msg_data m)) (map (\<lambda>n. ack_msg n ?tok) ns) =
      map (\<lambda>n. (vn_mac n, [OpCommandAck, uu_bytes u ! 14, uu_bytes u ! 15])) ns"
    by (simp add: ack_message ack_origin)
  ultimately show ?thesis using f(1,2,12,13)
    unfolding a Let_def
    by (intro exI [of _ i] exI [of _ nd] exI [of _ "if ns = [] then cmd else acked (en_now env2) cmd"], fold ns_def)
      (simp add: acked_def)
qed

theorem command_roundtrip_witness:
  "\<exists>ms ms1 s cmd. cmd_get ''u'' (ms_commands (to_hub ((quiet_env 9)\<lparr> en_uuid := \<lambda>i. Some (replicate 14 0 @ [7, 9]) \<rparr>)
        (acks 7 s (to_sim accepts (delivered ms ms1) s)) ms1)) = Some cmd \<and>
     cmd_get ''u'' (ms_commands ms) = None \<and> cmd_status cmd = CommandStatusAcked"
proof -
  obtain ms0 :: mesh_server where ms0: "ms_serial_comm ms0" "ms_nodes ms0 = []" "ms_commands ms0 = []"
    by (rule example_hub)
  obtain s0 :: simulator and n0 :: virtual_node where s0: "sim_inv s0" "sim_comm s0 = Some 7"
    "map_of (sim_nodes s0) (mac_key (vn_mac n0)) = Some n0" "vn_enrolled n0" "\<not> vn_offline n0" by (rule example_sim)
  let ?n = "n0\<lparr> vn_adapter_type := AdapterTypeLED \<rparr>"
  let ?s = "set_node (mac_key (vn_mac n0)) ?n s0"
  let ?nd = "(fresh_node (replicate 6 1))\<lparr> ni_adapter_type := AdapterTypeLED, ni_node_id := 5 \<rparr>"
  let ?ms = "ms0\<lparr> ms_nodes := [(''k'', ?nd)] \<rparr>"
  let ?u = "\<lparr> uu_string = ''u'', uu_bytes = replicate 14 0 @ [7, 9] \<rparr>"
  let ?b = "\<lparr> cb_action = ''led_off'', cb_colour = [] \<rparr>"
  let ?out = "\<lambda>t. t = AdapterTypeLED \<or> t = AdapterTypeRelay"
  let ?env2 = "(quiet_env 9)\<lparr> en_uuid := \<lambda>i. Some (replicate 14 0 @ [7, 9]) \<rparr>"
  have id: "parse_node_id ''5'' = Some 5" by code_simp
  have nd': "get_node_by_id 5 [(''k'', ?nd)] = Some ?nd" by (simp add: get_node_by_id_def fresh_node_def)
  then have nd: "get_node_by_id 5 (ms_nodes ?ms) = Some ?nd" by simp
  have p: "command_payload ?b = Payload ((go_make MaxDataLength)[0 := OpLEDOff])" by (simp add: command_payload_def Let_def)
  have accepted: "\<exists>ms1. v1_node_command (quiet_env 8) ?out ?u ''5'' (Some ?b) ?ms =
      (Reply 202 (JObj [(''commandId'', JStr ''u'')]) [], ms1)"
    by (simp add: v1_node_command_def id nd' p send_node_data_def write_active_def write_link_def quiet_env_def
        ms0 Let_def)
  then obtain ms1 where ms1: "v1_node_command (quiet_env 8) ?out ?u ''5'' (Some ?b) ?ms =
      (Reply 202 (JObj [(''commandId'', JStr ''u'')]) [], ms1)" by blast
  have cmds: "cmds_ok (ms_commands ?ms)" by (simp add: ms0 cmds_ok_def)
  have inv: "sim_inv ?s"
    using s0(1) by (rule sim_inv_cores [rotated]) (simp add: cores_set_node [OF s0(3)])
  have "vn_enrolled ?n \<and> \<not> vn_offline ?n \<and> map_of (sim_nodes ?s) (mac_key (vn_mac n0)) = Some ?n"
    using s0 by (simp add: gm.lookup_put)
  then have live: "\<exists>k n. map_of (sim_nodes ?s) k = Some n \<and> vn_enrolled n \<and> \<not> vn_offline n \<and> vn_adapter_type n = ni_adapter_type ?nd"
    by (intro exI [of _ "mac_key (vn_mac n0)"] exI [of _ ?n]) simp
  let ?live = "\<lambda>t. [n. (k, n) \<leftarrow> sim_nodes ?s, vn_enrolled n \<and> \<not> vn_offline n \<and> vn_adapter_type n = t]"
  obtain i nd cmd where r: "get_node_by_id i (ms_nodes ?ms) = Some nd" "parse_node_id ''5'' = Some i"
    "cmd_get ''u'' (ms_commands (to_hub ?env2 (acks 7 ?s (to_sim accepts (delivered ?ms ms1) ?s)) ms1)) = Some cmd"
    "?live (ni_adapter_type nd) \<noteq> [] \<longrightarrow> cmd_status cmd = CommandStatusAcked"
    using command_roundtrip [OF ms1 _ cmds _ _ inv, of ?env2 7] s0(2) unfolding Let_def by (auto simp: ms0 split: if_splits)
  have "i = 5" using r(2) id by simp
  then have "nd = ?nd" using r(1) nd by simp
  moreover have "?live (ni_adapter_type ?nd) \<noteq> []" using live by (fastforce dest: map_of_SomeD)
  ultimately have "cmd_status cmd = CommandStatusAcked" using r(4) by blast
  then show ?thesis
    by (intro exI [of _ ?ms] exI [of _ ms1] exI [of _ ?s] exI [of _ cmd] conjI r(3)) (simp_all add: ms0 cmd_get_def)
qed

end
