(* ===== verification/Api_Claims.thy ===== *)
theory Api_Claims
  imports Mesh_Api
begin

text \<open>
  Properties of the HTTP API's front: which requests reach which handler with which key.
\<close>

section \<open>Authorisation\<close>

definition admin_endpoints :: "endpoint list" where
  "admin_endpoints = [V1Approve, V1Reject, V1DeleteNode, V1DeleteZone]"

definition public_endpoints :: "endpoint list" where
  "public_endpoints = [Preflight, Metrics, Health, V1GetNodes, V1GetNode, V1Status, V1Events]"

lemma bearer_ok_iff: "bearer_ok key header \<longleftrightarrow> header = ''Bearer '' @ key"
  by (auto simp: bearer_ok_def trim_prefix_def has_prefix_iff)

text \<open>Each endpoint has one tier, whatever the path it is reached by.\<close>

definition tier_of :: "endpoint \<Rightarrow> tier" where
  "tier_of ep = (if ep \<in> set public_endpoints then PublicTier
                 else if ep \<in> set admin_endpoints then AdminTier else ApiTier)"

lemma route_tiers: "list_all (\<lambda>(m, t, ep, ti). ti = tier_of ep) routes"
  by code_simp

lemma route_of_tier: "route_of method path = Some (ep, t) \<Longrightarrow> t = tier_of ep"
proof -
  assume r: "route_of method path = Some (ep, t)"
  show ?thesis
  proof (cases "method = ''OPTIONS''")
    case True
    then show ?thesis using r by (simp add: route_of_def tier_of_def public_endpoints_def)
  next
    case False
    with r obtain m p where
      "find (\<lambda>(m, t, ep, ti). (m = [] \<or> m = method) \<and> path_matches t path) routes = Some (m, p, ep, t)"
      by (auto simp: route_of_def split: option.splits)
    then have "(m, p, ep, t) \<in> set routes" by (rule find_member)
    then show ?thesis using route_tiers by (auto simp: list_all_iff)
  qed
qed

lemma dispatch_serves:
  "dispatch api_key admin_key method path header = Serve ep \<longleftrightarrow>
     (\<exists>t. route_of method path = Some (ep, t) \<and> tier_allows api_key admin_key (tier_of ep) header)"
  by (auto simp: dispatch_def dest: route_of_tier split: option.splits if_splits)

text \<open>
  C13. Authorisation. With both keys configured, an endpoint is served to a request that routes to
  it exactly when it is one of the seven public ones, or the \<open>Authorization\<close> header is \<open>Bearer\<close>
  and the key of its tier: the admin key for approving, rejecting and deleting under \<open>/api/v1\<close>,
  the API key for everything else; neither key opens the other tier. Without an admin key the
  admin endpoints fall back to the API key.
\<close>

theorem endpoints_need_their_key:
  assumes route: "route_of method path = Some (ep, t)"
  shows "(api_key \<noteq> [] \<and> admin_key \<noteq> [] \<longrightarrow>
            (dispatch api_key admin_key method path header = Serve ep \<longleftrightarrow>
               ep \<in> set public_endpoints \<or>
               header = ''Bearer '' @ (if ep \<in> set admin_endpoints then admin_key else api_key)) \<and>
            (dispatch api_key admin_key method path header \<noteq> Serve ep \<longrightarrow>
               dispatch api_key admin_key method path header = Unauthorized)) \<and>
         (api_key \<noteq> [] \<and> admin_key = [] \<longrightarrow>
            (dispatch api_key admin_key method path header = Serve ep \<longleftrightarrow>
               ep \<in> set public_endpoints \<or> header = ''Bearer '' @ api_key))"
proof -
  have t: "t = tier_of ep" by (rule route_of_tier [OF route])
  have disjoint: "ep \<in> set admin_endpoints \<Longrightarrow> ep \<notin> set public_endpoints"
    by (auto simp: admin_endpoints_def public_endpoints_def)
  have serve: "dispatch api_key admin_key method path header = Serve ep \<longleftrightarrow>
      tier_allows api_key admin_key (tier_of ep) header"
    by (simp add: dispatch_serves route t)
  have else_no: "\<not> tier_allows api_key admin_key (tier_of ep) header \<Longrightarrow>
      dispatch api_key admin_key method path header = Unauthorized"
    by (simp add: dispatch_def route t)
  show ?thesis
    unfolding serve using else_no disjoint by (auto simp: tier_allows_def tier_of_def bearer_ok_iff)
qed

theorem endpoints_need_their_key_witness:
  "dispatch ''k'' ''a'' ''DELETE'' [''api'', ''v1'', ''nodes'', ''7''] ''Bearer k'' = Unauthorized \<and>
   dispatch ''k'' ''a'' ''DELETE'' [''api'', ''v1'', ''nodes'', ''7''] ''Bearer a'' = Serve V1DeleteNode"
proof -
  have "route_of ''DELETE'' [''api'', ''v1'', ''nodes'', ''7''] = Some (V1DeleteNode, AdminTier)" by code_simp
  from endpoints_need_their_key [OF this, of "''k''" "''a''"] show ?thesis
    by (simp add: public_endpoints_def admin_endpoints_def)
qed

text \<open>
  Around it, the whole server: a handler runs exactly when the route is served and is not the
  preflight; a preflight is answered whatever the key; and an answer allows an origin only when
  that origin is configured.
\<close>

lemma served_handlers:
  "snd (serve_http (new_api_server k a os) method path header origin) = Handled ep \<longleftrightarrow>
     dispatch k a method path header = Serve ep \<and> ep \<noteq> Preflight \<and> (os \<noteq> [] \<longrightarrow> method \<noteq> ''OPTIONS'')"
  by (auto simp: serve_http_def new_api_server_def matched_def cors_def Let_def split: routing.splits)

lemma preflights_need_no_key:
  "snd (serve_http (new_api_server k a os) ''OPTIONS'' path header origin) = Answered 204"
  by (simp add: serve_http_def new_api_server_def matched_def cors_def Let_def dispatch_def route_of_def
      tier_allows_def)

lemma origins_are_listed:
  assumes "(''Access-Control-Allow-Origin'', o') \<in>
     set (fst (serve_http (new_api_server k a os) method path header origin))"
  shows "o' = origin \<and> origin \<in> set os"
  using assms by (auto simp: serve_http_def new_api_server_def cors_def Let_def split: if_splits)

text \<open>
  The older enrollment routes decide trust too, and are in the tier of the API key: a client
  without the admin key can approve a node there.
\<close>

lemma legacy_approval_needs_no_admin_key:
  "dispatch ''k'' ''a'' ''POST'' [''api'', ''enrollments'', mac, ''approve''] ''Bearer k'' =
     (if mac = [] then Unrouted else Serve ApproveLegacy)"
  by (cases "mac = []") (simp_all add: dispatch_def route_of_def routes_def is_variable_def tier_allows_def
      bearer_ok_def trim_prefix_def)

end
