(* ===== verification/Event_Stream.thy ===== *)
theory Event_Stream
  imports Mesh_Api
begin

text \<open>
  The live event stream of \<open>GET /api/v1/events\<close> (\<open>mesh/api_v1_events.go\<close>) on the HTTP server that
  \<open>StartAPIServer\<close> configures (\<open>mesh/api.go\<close>): what the handler writes, what a client that reads the
  event-stream format makes of it, and what the server's write timeout cuts off. \<open>json.Marshal\<close> is
  the parameter \<open>render\<close>; that it writes no line break and is never empty is its documented form.
\<close>

section \<open>The HTTP server\<close>

record http_server =
  hs_port :: int
  hs_read_timeout :: duration
  hs_write_timeout :: duration
  hs_idle_timeout :: duration

definition api_http_server :: "int \<Rightarrow> http_server" where
  "api_http_server port = \<lparr> hs_port = port, hs_read_timeout = 15 * second, hs_write_timeout = 15 * second,
     hs_idle_timeout = 60 * second \<rparr>"

text \<open>\<open>ListenAndServe\<close> in its goroutine: it goes on, or it fails after some time.\<close>

datatype listening = Listens | ListenFails duration go_error

definition start_api_server :: "listening \<Rightarrow> go_error option" where
  "start_api_server l =
     (case l of Listens \<Rightarrow> None
              | ListenFails after e \<Rightarrow> if after < 100 * millisecond then Some e else None)"

text \<open>A failure that takes longer than the wait is only left in the channel: the hub runs without its API.\<close>

lemma late_listen_failure: "100 * millisecond \<le> after \<Longrightarrow> start_api_server (ListenFails after e) = None"
  by (simp add: start_api_server_def)

section \<open>The handler\<close>

text \<open>
  What the \<open>select\<close> of the loop meets, with the time: an event from the subscribed channel, the
  channel closed, or the request's context done. After the write deadline of the connection
  (\<open>net/http\<close>: the arrival of the request plus the write timeout) every write fails, which the
  handler does not look at.
\<close>

datatype sse_turn = Delivered time event | ChannelClosed | ClientGone

definition line_break :: char where
  "line_break = CHR 0x0A"

definition sse_text :: "(json \<Rightarrow> string) \<Rightarrow> event \<Rightarrow> string" where
  "sse_text render e =
     ''event: '' @ fst (sse_frame e) @ line_break # ''data: '' @ render (snd (sse_frame e)) @ [line_break, line_break]"

fun sse_loop :: "(json \<Rightarrow> string) \<Rightarrow> time \<Rightarrow> sse_turn list \<Rightarrow> string" where
  "sse_loop render deadline [] = []"
| "sse_loop render deadline (Delivered t e # turns) =
     (if t \<le> deadline then sse_text render e else []) @ sse_loop render deadline turns"
| "sse_loop render deadline (ChannelClosed # turns) = []"
| "sse_loop render deadline (ClientGone # turns) = []"

text \<open>\<open>flusher\<close>: whether the response writer can stream; \<open>now\<close> is the arrival of the request.\<close>

definition v1_events :: "bool \<Rightarrow> (json \<Rightarrow> string) \<Rightarrow> time \<Rightarrow> http_server \<Rightarrow> sse_turn list \<Rightarrow> nat \<times> string" where
  "v1_events flusher render now srv turns =
     (if \<not> flusher then (500, ''streaming not supported'' @ [line_break])
      else (200, sse_loop render (now + hs_write_timeout srv) turns))"

section \<open>A client\<close>

text \<open>
  The event-stream format, as far as the two kinds of line the handler writes need it: an empty
  line dispatches the event collected so far, unless its data is empty.
\<close>

fun dispatch_lines :: "string \<Rightarrow> string \<Rightarrow> string list \<Rightarrow> (string \<times> string) list" where
  "dispatch_lines ev dat [] = []"
| "dispatch_lines ev dat (l # ls) =
     (if l = [] then (if dat = [] then [] else [(ev, dat)]) @ dispatch_lines [] [] ls
      else if has_prefix l ''event: '' then dispatch_lines (trim_prefix l ''event: '') dat ls
      else if has_prefix l ''data: ''
        then dispatch_lines ev (dat @ (if dat = [] then [] else [line_break]) @ trim_prefix l ''data: '') ls
      else dispatch_lines ev dat ls)"

definition sse_client :: "string \<Rightarrow> (string \<times> string) list" where
  "sse_client body = dispatch_lines [] [] (split_char line_break body)"

definition seen_as :: "(json \<Rightarrow> string) \<Rightarrow> event \<Rightarrow> string \<times> string" where
  "seen_as render e = (fst (sse_frame e), render (snd (sse_frame e)))"

lemma event_name_line: "line_break \<notin> set (event_type_name t)"
  by (cases t) (simp_all add: line_break_def)

lemma client_reads_frame:
  assumes "line_break \<notin> set (render (snd (sse_frame e)))" and "render (snd (sse_frame e)) \<noteq> []"
  shows "sse_client (sse_text render e @ rest) = seen_as render e # sse_client rest"
proof -
  let ?n = "fst (sse_frame e)" and ?d = "render (snd (sse_frame e))"
  have "line_break \<notin> set ?n" by (simp add: sse_frame_def event_name_line)
  then have n: "line_break \<notin> set (''event: '' @ ?n)" by (simp add: line_break_def)
  have d: "line_break \<notin> set (''data: '' @ ?d)" using assms(1) by (simp add: line_break_def)
  have "split_char line_break (sse_text render e @ rest) =
      split_char line_break ((''event: '' @ ?n) @ line_break # (''data: '' @ ?d) @ line_break # [] @ line_break # rest)"
    by (simp add: sse_text_def)
  also have "\<dots> = (''event: '' @ ?n) # (''data: '' @ ?d) # [] # split_char line_break rest"
    unfolding split_char_append [OF n] split_char_append [OF d] by simp
  finally show ?thesis
    using assms(2) by (simp add: sse_client_def seen_as_def trim_prefix_def)
qed

lemma client_reads_stream:
  assumes "\<And>d. line_break \<notin> set (render d) \<and> render d \<noteq> []"
  shows "sse_client (sse_loop render deadline (map (\<lambda>(t, e). Delivered t e) tes @ [ClientGone])) =
     map (seen_as render) [e. (t, e) \<leftarrow> tes, t \<le> deadline]"
proof (induction tes)
  case Nil
  then show ?case by (simp add: sse_client_def)
next
  case (Cons te tes)
  obtain t e where te: "te = (t, e)" by (cases te)
  show ?case using Cons client_reads_frame [OF assms [THEN conjunct1] assms [THEN conjunct2]]
    by (cases "t \<le> deadline") (simp_all add: te)
qed

section \<open>Property\<close>

text \<open>
  C19. What a subscriber of the event stream sees. The events its handler took from the channel
  arrive at the client one by one, in order, with their names and data, whatever strings the data
  contains, as a subsequence of what was published since it subscribed (all of it as long as no more
  than 32 events were published); but only those of the first 15 seconds after the request: later
  events are taken from the channel and lost.
\<close>

theorem event_stream_delivers:
  assumes reach: "bus_reach s" and ch: "map_of (eb_heap (bus_broker s)) ch = Some c"
    and turns: "map snd tes = bus_received s ch"
    and render: "\<And>d. line_break \<notin> set (render d) \<and> render d \<noteq> []"
  shows "fst (v1_events True render now (api_http_server port) (map (\<lambda>(t, e). Delivered t e) tes @ [ClientGone])) = 200 \<and>
     sse_client (snd (v1_events True render now (api_http_server port) (map (\<lambda>(t, e). Delivered t e) tes @ [ClientGone]))) =
       map (seen_as render) [e. (t, e) \<leftarrow> tes, t \<le> now + 15 * second] \<and>
     subseq [e. (t, e) \<leftarrow> tes, t \<le> now + 15 * second] (bus_published s ch) \<and>
     ((\<forall>(t, e) \<in> set tes. t \<le> now + 15 * second) \<and> length (bus_published s ch) \<le> 32 \<longrightarrow>
        sse_client (snd (v1_events True render now (api_http_server port) (map (\<lambda>(t, e). Delivered t e) tes @ [ClientGone]))) @
          map (seen_as render) (ch_buf c) = map (seen_as render) (bus_published s ch))"
proof -
  have ok: "chan_ok (bus_published s ch) (bus_received s ch) c"
    using bus_reach_inv [OF reach] ch by (simp add: bus_inv_def)
  have body: "sse_client (snd (v1_events True render now (api_http_server port)
      (map (\<lambda>(t, e). Delivered t e) tes @ [ClientGone]))) =
       map (seen_as render) [e. (t, e) \<leftarrow> tes, t \<le> now + 15 * second]"
    using client_reads_stream [OF render] by (simp add: v1_events_def api_http_server_def)
  have early: "[e. (t, e) \<leftarrow> tes, t \<le> now + 15 * second] = map snd (filter (\<lambda>(t, e). t \<le> now + 15 * second) tes)"
    by (induction tes) auto
  have "subseq (map snd (filter (\<lambda>(t, e). t \<le> now + 15 * second) tes)) (bus_received s ch)"
    unfolding turns [symmetric] by (intro subseq_map subseq_filter_left)
  also have "subseq (bus_received s ch) (bus_received s ch @ ch_buf c)" by (intro prefix_imp_subseq) simp
  also have "subseq (bus_received s ch @ ch_buf c) (bus_published s ch)" using ok by (simp add: chan_ok_def)
  finally have "subseq [e. (t, e) \<leftarrow> tes, t \<le> now + 15 * second] (bus_published s ch)" unfolding early .
  moreover have "bus_received s ch @ ch_buf c = bus_published s ch" if "length (bus_published s ch) \<le> 32"
    using ok that by (simp add: chan_ok_def event_buffer_size_def)
  moreover have "[e. (t, e) \<leftarrow> tes, t \<le> now + 15 * second] = bus_received s ch"
    if "\<forall>(t, e) \<in> set tes. t \<le> now + 15 * second"
    using that unfolding early turns [symmetric] by (simp add: filter_id_conv)
  ultimately show ?thesis unfolding body by (auto simp: v1_events_def simp flip: map_append)
qed

text \<open>A run with one subscriber that has received a motion event, twenty seconds after its request.\<close>

definition late_event :: event where
  "late_event = \<lparr> ev_type = EventMotion, ev_data = JNull, ev_timestamp = 0 \<rparr>"

definition one_event_bus :: bus where
  "one_event_bus = bus_init
     \<lparr> bus_broker := \<lparr> eb_heap = [(0, \<lparr> ch_buf = [], ch_closed = False \<rparr>)], eb_clients = [0], eb_next = 1 \<rparr>,
       bus_published := (\<lambda>ch. if ch = 0 then [late_event] else []),
       bus_received := (\<lambda>ch. if ch = 0 then [late_event] else []) \<rparr>"

lemma one_event_reachable: "bus_reach one_event_bus"
proof -
  let ?s1 = "bus_init\<lparr> bus_broker := snd (subscribe new_event_broker) \<rparr>"
  let ?b2 = "\<lparr> eb_heap = [(0, \<lparr> ch_buf = [late_event], ch_closed = False \<rparr>)], eb_clients = [0], eb_next = 1 \<rparr>"
  let ?s2 = "?s1\<lparr> bus_broker := ?b2, bus_published := (\<lambda>ch. if ch \<in> set (eb_clients (bus_broker ?s1))
       then bus_published ?s1 ch @ [late_event] else bus_published ?s1 ch) \<rparr>"
  let ?b3 = "\<lparr> eb_heap = [(0, \<lparr> ch_buf = [], ch_closed = False \<rparr>)], eb_clients = [0], eb_next = 1 \<rparr>"
  have step1: "bus_step ?s1 ?s2"
    by (rule bus_publish) (simp add: publish_def subscribe_def new_event_broker_def try_send_def
        event_buffer_size_def Let_def)
  have step2: "bus_step ?s2 (?s2\<lparr> bus_broker := ?b3, bus_received := (bus_received ?s2)(0 := bus_received ?s2 0 @ [late_event]) \<rparr>)"
    by (rule bus_receive) (simp add: receive_def)
  have final: "?s2\<lparr> bus_broker := ?b3, bus_received := (bus_received ?s2)(0 := bus_received ?s2 0 @ [late_event]) \<rparr> = one_event_bus"
    by (simp add: one_event_bus_def bus_init_def subscribe_def new_event_broker_def fun_upd_def Let_def cong: if_cong)
  show ?thesis
    using bus_reach_step [OF bus_reach_step [OF bus_reach_one step1] step2] unfolding final .
qed

theorem event_stream_delivers_witness:
  "sse_client (snd (v1_events True (\<lambda>d. ''null'') 0 (api_http_server 8080) [Delivered (10 * second) late_event, ClientGone])) =
     [(''motion'', ''null'')] \<and>
   sse_client (snd (v1_events True (\<lambda>d. ''null'') 0 (api_http_server 8080) [Delivered (20 * second) late_event, ClientGone])) = []"
proof -
  have ch: "map_of (eb_heap (bus_broker one_event_bus)) 0 = Some \<lparr> ch_buf = [], ch_closed = False \<rparr>"
    by (simp add: one_event_bus_def)
  have turns: "map snd [(t, late_event)] = bus_received one_event_bus 0" for t :: time
    by (simp add: one_event_bus_def)
  have render: "\<And>d. line_break \<notin> set ''null'' \<and> ''null'' \<noteq> []" by (simp add: line_break_def)
  note th = event_stream_delivers [OF one_event_reachable ch turns, of "\<lambda>d. ''null''" 0 8080, OF render]
  show ?thesis
    using th [of "10 * second"] th [of "20 * second"]
    by (simp add: second_def seen_as_def sse_frame_def late_event_def)
qed

end
