(* ===== verification/Http_Metrics.thy ===== *)
theory Http_Metrics
  imports Mesh_Api
begin

text \<open>
  The instrumentation of \<open>mesh/metrics.go\<close>: the response writer that remembers the status, the
  wrapper that counts requests, and the serial gauge. A handler is the sequence of calls it makes on
  its response writer, or a panic; the Prometheus collectors are the list of increments and
  observations made on them, and the clock readings before and after the handler are arguments.
\<close>

section \<open>The response writer\<close>

datatype writer_call = WriteHeader nat | WriteBody json | FlushBody

record status_writer =
  rw_status :: nat
  rw_underlying :: "writer_call list"

definition new_status_writer :: status_writer where
  "new_status_writer = \<lparr> rw_status = 200, rw_underlying = [] \<rparr>"

definition rw_write_header :: "nat \<Rightarrow> status_writer \<Rightarrow> status_writer" where
  "rw_write_header code rw = rw\<lparr> rw_status := code, rw_underlying := rw_underlying rw @ [WriteHeader code] \<rparr>"

text \<open>\<open>Write\<close> is the embedded writer's; \<open>Flush\<close> is passed on when the underlying writer has it.\<close>

definition rw_flush :: "bool \<Rightarrow> status_writer \<Rightarrow> status_writer" where
  "rw_flush flusher rw = (if flusher then rw\<lparr> rw_underlying := rw_underlying rw @ [FlushBody] \<rparr> else rw)"

fun rw_call :: "bool \<Rightarrow> writer_call \<Rightarrow> status_writer \<Rightarrow> status_writer" where
  "rw_call flusher (WriteHeader code) rw = rw_write_header code rw"
| "rw_call flusher (WriteBody b) rw = rw\<lparr> rw_underlying := rw_underlying rw @ [WriteBody b] \<rparr>"
| "rw_call flusher FlushBody rw = rw_flush flusher rw"

section \<open>The collectors\<close>

record http_metrics =
  hm_requests :: "(string \<times> string \<times> string) list"
  hm_durations :: "(string \<times> string \<times> duration) list"

definition instrument_handler ::
    "string \<Rightarrow> string \<Rightarrow> bool \<Rightarrow> time \<Rightarrow> time \<Rightarrow> writer_call list outcome \<Rightarrow> http_metrics
       \<Rightarrow> writer_call list outcome \<times> http_metrics" where
  "instrument_handler endpoint method flusher began now handler hm =
     (case handler of
        Panic p \<Rightarrow> (Panic p, hm)
      | Ret calls \<Rightarrow>
          (let rw = fold (rw_call flusher) calls new_status_writer
           in (Ret (rw_underlying rw),
               hm\<lparr> hm_requests := hm_requests hm @ [(endpoint, method, dec_str (rw_status rw))],
                   hm_durations := hm_durations hm @ [(endpoint, method, since now began)] \<rparr>)))"

definition set_serial_connected :: "bool \<Rightarrow> nat" where
  "set_serial_connected connected = (if connected then 1 else 0)"

section \<open>What the client sees\<close>

text \<open>
  The status that \<open>net/http\<close> sends: the first \<open>WriteHeader\<close>, unless the body was started before it,
  which implies 200.
\<close>

fun sent_status :: "writer_call list \<Rightarrow> nat" where
  "sent_status [] = 200"
| "sent_status (WriteHeader code # cs) = code"
| "sent_status (c # cs) = 200"

text \<open>\<open>writeJSON\<close> and \<open>writeError\<close>: one header, then the body; and the messages of an event stream.\<close>

fun response_calls :: "response \<Rightarrow> writer_call list outcome" where
  "response_calls (Reply status d m) = Ret [WriteHeader status, WriteBody d]"
| "response_calls (Failure status e) = Ret [WriteHeader status, WriteBody (JStr e)]"
| "response_calls (Crash p) = Panic p"

definition stream_calls :: "(string \<times> json) list \<Rightarrow> writer_call list" where
  "stream_calls frames = concat (map (\<lambda>(name, d). [WriteBody d, FlushBody]) frames)"

lemma fold_no_header:
  "\<forall>c \<in> set cs. \<forall>code. c \<noteq> WriteHeader code \<Longrightarrow>
     rw_status (fold (rw_call f) cs rw) = rw_status rw \<and>
     rw_underlying (fold (rw_call True) cs rw) = rw_underlying rw @ cs"
proof (induction cs arbitrary: rw)
  case (Cons c cs)
  then show ?case by (cases c) (auto simp: rw_flush_def)
qed simp

text \<open>Handlers that set the status before anything else, if at all.\<close>

fun header_first :: "writer_call list \<Rightarrow> bool" where
  "header_first (WriteHeader code # cs) = (\<forall>c \<in> set cs. \<forall>k. c \<noteq> WriteHeader k)"
| "header_first cs = (\<forall>c \<in> set cs. \<forall>k. c \<noteq> WriteHeader k)"

lemma header_first_status:
  assumes "header_first cs"
  shows "rw_status (fold (rw_call f) cs new_status_writer) = sent_status cs \<and>
         rw_underlying (fold (rw_call True) cs new_status_writer) = cs"
proof (cases cs)
  case (Cons c rest)
  show ?thesis
  proof (cases c)
    case (WriteHeader code)
    with Cons assms fold_no_header [of rest f "rw_write_header code new_status_writer"] show ?thesis
      by (simp add: rw_write_header_def new_status_writer_def)
  qed (use Cons assms fold_no_header [of cs f new_status_writer] in \<open>simp_all add: new_status_writer_def\<close>)
qed (simp add: new_status_writer_def)

text \<open>
  The request counters tell what clients saw. For every response a handler of the API gives,
  and for an event stream of any length, the wrapper passes all output on unchanged, with flushes,
  and adds exactly one to the counter of the endpoint, the method and the status that is sent, and
  one observation of the duration. A request whose handler panics is in no counter.
\<close>

theorem requests_are_counted:
  "(case response_calls r of
      Panic p \<Rightarrow> instrument_handler ep m fl t now (response_calls r) hm = (Panic p, hm)
    | Ret calls \<Rightarrow>
        (let (out, hm') = instrument_handler ep m fl t now (Ret calls) hm
         in out = Ret calls \<and> hm_requests hm' = hm_requests hm @ [(ep, m, dec_str (sent_status calls))] \<and>
            hm_durations hm' = hm_durations hm @ [(ep, m, since now t)])) \<and>
   (let (out, hm') = instrument_handler ep m True t now (Ret (stream_calls frames)) hm
    in out = Ret (stream_calls frames) \<and> hm_requests hm' = hm_requests hm @ [(ep, m, ''200'')] \<and>
       hm_durations hm' = hm_durations hm @ [(ep, m, since now t)])"
proof -
  have first: "header_first (stream_calls frames)" and ok: "sent_status (stream_calls frames) = 200"
    by (cases frames; auto simp: stream_calls_def)+
  have "dec_str 200 = ''200''" by (simp add: dec_str.simps) code_simp
  then have stream: "let (out, hm') = instrument_handler ep m True t now (Ret (stream_calls frames)) hm
    in out = Ret (stream_calls frames) \<and> hm_requests hm' = hm_requests hm @ [(ep, m, ''200'')] \<and>
       hm_durations hm' = hm_durations hm @ [(ep, m, since now t)]"
    using header_first_status [OF first, of True] ok by (simp add: instrument_handler_def Let_def)
  then show ?thesis
    by (cases r) (simp_all add: instrument_handler_def Let_def rw_write_header_def new_status_writer_def)
qed

end
