(* ===== verification/Hub_Main.thy ===== *)
theory Hub_Main
  imports Server_Props
begin

text \<open>
  The hub's main program, \<open>main.go\<close> and \<open>envconfig.go\<close>: reading the environment and the flags,
  the connection to Kafka with its retries, the master identities, building and starting the
  mesh server, and the shutdown. \<open>os.Getenv\<close> is a function that is empty on unset variables; a
  flag is \<open>None\<close> when the command line does not give it; the files, the random source, the
  broker, the serial ports and the HTTP listener answer through the record \<open>hub_world\<close>.
\<close>

section \<open>The environment\<close>

type_synonym getenv = "string \<Rightarrow> string"

definition env_or_default :: "getenv \<Rightarrow> string \<Rightarrow> string \<Rightarrow> string" where
  "env_or_default getenv key def = (if getenv key \<noteq> [] then getenv key else def)"

definition env_or_default_int :: "getenv \<Rightarrow> string \<Rightarrow> int \<Rightarrow> int" where
  "env_or_default_int getenv key def =
     (let v = getenv key
      in if v = [] then def else case atoi v of None \<Rightarrow> def | Some n \<Rightarrow> n)"

definition env_mac :: "getenv \<Rightarrow> string \<Rightarrow> byte list" where
  "env_mac getenv key =
     (let v = getenv key
      in if v = [] then zero_bytes 6
         else case env_parse_mac v of Inl e \<Rightarrow> zero_bytes 6 | Inr mac \<Rightarrow> mac)"

definition load_master_identity :: "getenv \<Rightarrow> string \<times> byte list" where
  "load_master_identity getenv =
     (env_or_default getenv ''MASTER_KEY_PATH'' ''data/masterkey.json'', env_mac getenv ''MASTER_MAC'')"

definition load_secondary_master_identity :: "getenv \<Rightarrow> string \<times> byte list" where
  "load_secondary_master_identity getenv =
     (let path = env_or_default getenv ''SECONDARY_MASTER_KEY_PATH'' ''data/masterkey-secondary.json''
      in if getenv ''SECONDARY_MASTER_MAC'' = [] then ([], zero_bytes 6)
         else (path, env_mac getenv ''SECONDARY_MASTER_MAC''))"

datatype slog_level = LevelDebug | LevelInfo | LevelWarn | LevelError

definition slog_level_of :: "string \<Rightarrow> slog_level" where
  "slog_level_of s =
     (if s = ''DEBUG'' then LevelDebug
      else if s = ''WARN'' then LevelWarn
      else if s = ''ERROR'' then LevelError
      else LevelInfo)"

definition allowed_origins :: "getenv \<Rightarrow> string list" where
  "allowed_origins getenv = filter (\<lambda>part. part \<noteq> []) (split_char CHR '','' (getenv ''ALLOWED_ORIGINS''))"

text \<open>The multiplication by a second is an int64 product.\<close>

definition health_timeout_of :: "getenv \<Rightarrow> duration" where
  "health_timeout_of getenv =
     (let secs = env_or_default_int getenv ''HEALTH_TIMEOUT_SECONDS'' 75
      in if 0 < secs then wrap64 (secs * second) else 75 * second)"

definition dual_master_enabled :: "getenv \<Rightarrow> bool" where
  "dual_master_enabled getenv \<longleftrightarrow> getenv ''DUAL_MASTER_ENABLED'' = ''true''"

definition secondary_port_of :: "getenv \<Rightarrow> string" where
  "secondary_port_of getenv =
     (let port = env_or_default getenv ''SERIAL_PORT_SECONDARY'' []
      in if dual_master_enabled getenv \<and> port \<noteq> [] then port else [])"

section \<open>The flags\<close>

record hub_flags =
  fl_serial :: "string option"
  fl_baud :: "int option"
  fl_port :: "int option"
  fl_auth_registry :: "string option"
  fl_node_registry :: "string option"
  fl_tx_power :: "u64 option"

definition flag_or :: "'a option \<Rightarrow> 'a \<Rightarrow> 'a" where
  "flag_or v def = (case v of None \<Rightarrow> def | Some x \<Rightarrow> x)"

definition tx_power_of :: "hub_flags \<Rightarrow> u64" where
  "tx_power_of fl = flag_or (fl_tx_power fl) 2"

section \<open>Connecting to Kafka\<close>

datatype hub_log =
    KafkaConnected nat
  | KafkaAttemptFailed nat go_error
  | KafkaRetrying
  | WithoutKafka
  | MeshDisabled go_error
  | MeshStarted
  | TxPowerFailed send_error
  | ApiWithoutAuthentication
  | AdminWithoutAuthentication

record kafka_attempt =
  ka_dial :: "go_error option"
  ka_time :: time
  ka_topics :: create_response

definition max_retries :: nat where
  "max_retries = 3"

text \<open>The loop from attempt \<open>i\<close> on; the store is the variable \<open>eventStore\<close>.\<close>

function kafka_loop ::
    "string \<Rightarrow> string \<Rightarrow> (nat \<Rightarrow> kafka_attempt) \<Rightarrow> nat \<Rightarrow> kafka_store option
       \<Rightarrow> kafka_store option \<times> hub_log list" where
  "kafka_loop broker group_id att i store =
     (if i < max_retries then
        let (err, s) = store_connect (ka_dial (att i)) (ka_time (att i)) (ka_topics (att i)) (new_store broker group_id)
        in case err of
             None \<Rightarrow> (Some s, [KafkaConnected (i + 1)])
           | Some e \<Rightarrow>
               (let last = \<not> i < max_retries - 1;
                    (res, log) = kafka_loop broker group_id att (i + 1) (if last then Some s else None)
                in (res, KafkaAttemptFailed (i + 1) e # (if last then [] else [KafkaRetrying]) @ log))
      else (store, []))"
  by pat_completeness auto
termination
  by (relation "measure (\<lambda>(b, g, a, i, s). max_retries - i)") auto

declare kafka_loop.simps [simp del]

definition connect_kafka ::
    "getenv \<Rightarrow> (nat \<Rightarrow> kafka_attempt) \<Rightarrow> kafka_store option \<times> hub_log list" where
  "connect_kafka getenv att =
     (let (store, log) = kafka_loop (env_or_default getenv ''KAFKA_BROKER'' ''kafka:9092'')
                           (env_or_default getenv ''KAFKA_GROUP_ID'' ''1'') att 0 None
      in (store, log @ (if store = None then [WithoutKafka] else [])))"

section \<open>The server's configuration\<close>

definition secondary_identity :: "getenv \<Rightarrow> string \<times> byte list" where
  "secondary_identity getenv =
     (if dual_master_enabled getenv then load_secondary_master_identity getenv else ([], zero_bytes 6))"

definition hub_config :: "getenv \<Rightarrow> hub_flags \<Rightarrow> kafka_store option \<Rightarrow> server_config" where
  "hub_config getenv fl store =
     \<lparr> cf_serial_port = flag_or (fl_serial fl) (env_or_default getenv ''SERIAL_PORT'' ''/dev/ttyUSB0''),
       cf_secondary_port = secondary_port_of getenv,
       cf_baud_rate = flag_or (fl_baud fl) (env_or_default_int getenv ''BAUD_RATE'' 115200),
       cf_health_timeout = health_timeout_of getenv,
       cf_store = store,
       cf_auth_path = flag_or (fl_auth_registry fl) (env_or_default getenv ''AUTH_REGISTRY_PATH'' ''data/nodeauth.json''),
       cf_node_path = flag_or (fl_node_registry fl) (env_or_default getenv ''NODE_REGISTRY_PATH'' ''data/nodes.json''),
       cf_zone_path = env_or_default getenv ''ZONE_REGISTRY_PATH'' ''data/zones.json'',
       cf_master_key_path = fst (load_master_identity getenv),
       cf_master_mac = snd (load_master_identity getenv),
       cf_secondary_key_path = fst (secondary_identity getenv),
       cf_secondary_mac = snd (secondary_identity getenv) \<rparr>"

section \<open>Starting\<close>

record hub_world =
  hw_kafka :: "nat \<Rightarrow> kafka_attempt"
  hw_auth_file :: "string \<Rightarrow> persisted_entry disk_file"
  hw_node_file :: "string \<Rightarrow> persisted_node disk_file"
  hw_zone_file :: "string \<Rightarrow> zone_v1 option disk_file"
  hw_key_file :: "string \<Rightarrow> key_file"
  hw_curve :: "byte list \<Rightarrow> byte list"
  hw_random :: "link \<Rightarrow> go_error + byte list"
  hw_key_write :: "link \<Rightarrow> key_write"
  hw_env :: env
  hw_open :: "link \<Rightarrow> go_error option"
  hw_listen :: "go_error option"

text \<open>
  \<open>NewMeshServer\<close> on the disk: the key files are read and written one after the other, so that
  two equal paths share one key. Without a path no key is asked for, and the result is not used.
\<close>

definition load_keys ::
    "hub_world \<Rightarrow> server_config
       \<Rightarrow> (key_error + master_keypair) \<times> (key_error + master_keypair) \<times> (string \<Rightarrow> key_file)" where
  "load_keys w cf =
     (let load = (\<lambda>l path files.
            if path \<noteq> [] then
              let (r, f) = load_or_generate (hw_curve w) (hw_random w l) (hw_key_write w l) (files path)
              in (r, files(path := f))
            else (Inl CorruptedKeyFile, files));
          (key, files1) = load Primary (cf_master_key_path cf) (hw_key_file w);
          (secondary_key, files2) = load Secondary (cf_secondary_key_path cf) files1
      in (key, secondary_key, files2))"

definition build_server :: "hub_world \<Rightarrow> server_config \<Rightarrow> mesh_server outcome" where
  "build_server w cf =
     (let (key, secondary_key, files) = load_keys w cf
      in new_mesh_server cf (hw_auth_file w (cf_auth_path cf)) (hw_node_file w (cf_node_path cf))
           (hw_zone_file w (cf_zone_path cf)) key secondary_key)"

text \<open>
  \<open>Start\<close>, then the initial preset, a \<open>uint\<close> converted to a byte. The result says whether the
  health request two seconds later is scheduled.
\<close>

definition start_mesh :: "hub_world \<Rightarrow> hub_flags \<Rightarrow> mesh_server \<Rightarrow> mesh_server \<times> bool \<times> hub_log list" where
  "start_mesh w fl ms =
     (let (err, ms1) = start (hw_env w) (hw_open w Primary) (hw_open w Secondary) ms
      in case err of
           Some e \<Rightarrow> (ms1, False, [MeshDisabled e])
         | None \<Rightarrow>
             (let (terr, ms2) = set_tx_power_preset (hw_env w) (ucast (tx_power_of fl)) ms1
              in (ms2, True, MeshStarted # (case terr of None \<Rightarrow> [] | Some e \<Rightarrow> [TxPowerFailed e]))))"

definition initial_health_request :: "env \<Rightarrow> mesh_server \<Rightarrow> mesh_server" where
  "initial_health_request env ms = snd (request_health_reports env ms)"

record api_setup =
  as_port :: int
  as_api_key :: string
  as_admin_key :: string
  as_origins :: "string list"

definition hub_api :: "getenv \<Rightarrow> hub_flags \<Rightarrow> api_setup" where
  "hub_api getenv fl =
     \<lparr> as_port = flag_or (fl_port fl) (env_or_default_int getenv ''API_PORT'' 8080),
       as_api_key = getenv ''API_KEY'', as_admin_key = getenv ''ADMIN_KEY'',
       as_origins = allowed_origins getenv \<rparr>"

record hub =
  hub_server :: mesh_server
  hub_health_scheduled :: bool
  hub_api_setup :: api_setup
  hub_level :: slog_level
  hub_messages :: "hub_log list"

datatype hub_start = HubRuns hub | HubExits nat | HubPanics string

definition hub_main :: "getenv \<Rightarrow> hub_flags \<Rightarrow> hub_world \<Rightarrow> hub_start" where
  "hub_main getenv fl w =
     (let (store, log1) = connect_kafka getenv (hw_kafka w)
      in case build_server w (hub_config getenv fl store) of
           Panic p \<Rightarrow> HubPanics p
         | Ret ms \<Rightarrow>
             (let (ms1, scheduled, log2) = start_mesh w fl ms;
                  api = hub_api getenv fl;
                  log3 = (if as_api_key api = [] then [ApiWithoutAuthentication] else []) @
                         (if as_admin_key api = [] then [AdminWithoutAuthentication] else [])
              in if hw_listen w \<noteq> None then HubExits 1
                 else HubRuns \<lparr> hub_server = ms1, hub_health_scheduled = scheduled, hub_api_setup = api,
                        hub_level = slog_level_of (env_or_default getenv ''LOG_LEVEL'' ''INFO''),
                        hub_messages = log1 @ log2 @ log3 \<rparr>))"

section \<open>Shutting down\<close>

text \<open>
  After a signal, and after the API server has drained: stop a running mesh server, then close
  the event store, which is the object the server writes to.
\<close>

definition close_store :: "go_error option \<Rightarrow> mesh_server \<Rightarrow> mesh_server" where
  "close_store close_err ms =
     ms\<lparr> ms_store := map_option (\<lambda>st. snd (store_close close_err st)) (ms_store ms) \<rparr>"

definition hub_shutdown ::
    "env \<Rightarrow> zone_v1 option write_outcome \<Rightarrow> go_error option \<Rightarrow> mesh_server \<Rightarrow> mesh_server outcome" where
  "hub_shutdown env zone_out close_err ms =
     (case (if ms_running ms then stop env zone_out ms else (Ret None, ms)) of
        (Panic p, ms1) \<Rightarrow> Panic p
      | (Ret err, ms1) \<Rightarrow> Ret (close_store close_err ms1))"


section \<open>Kafka at startup\<close>

lemma store_connect_fails: "store_connect (Some e) now res s = (Some (''kafka broker unreachable at '' @ ks_broker s @ '': '' @ e), s)"
  by (simp add: store_connect_def)

lemma store_connect_works:
  "store_connect None now res s = (None, snd (store_connect None now res s))"
  by (simp add: store_connect_def Let_def case_prod_beta)

lemma kafka_loop_fails:
  assumes "i < max_retries" and "ka_dial (att i) = Some e"
  shows "\<exists>err. kafka_loop b g att i store =
     (let (res, log) = kafka_loop b g att (i + 1) (if i < max_retries - 1 then None else Some (new_store b g))
      in (res, KafkaAttemptFailed (i + 1) err # (if i < max_retries - 1 then [KafkaRetrying] else []) @ log))"
  using assms by (subst kafka_loop.simps) (auto simp: store_connect_fails Let_def)

definition connected_store :: "string \<Rightarrow> string \<Rightarrow> kafka_attempt \<Rightarrow> kafka_store" where
  "connected_store b g a = snd (store_connect None (ka_time a) (ka_topics a) (new_store b g))"

lemma kafka_loop_works:
  assumes "i < max_retries" and "ka_dial (att i) = None"
  shows "kafka_loop b g att i store = (Some (connected_store b g (att i)), [KafkaConnected (i + 1)])"
proof -
  obtain s where "store_connect None (ka_time (att i)) (ka_topics (att i)) (new_store b g) = (None, s)"
    using store_connect_works by blast
  with assms show ?thesis by (subst kafka_loop.simps) (simp add: connected_store_def)
qed

lemma kafka_loop_ends: "kafka_loop b g att 3 store = (store, [])"
  by (subst kafka_loop.simps) (simp add: max_retries_def)

lemma kafka_loop_spec:
  fixes att :: "nat \<Rightarrow> kafka_attempt"
  assumes "i \<le> 3"
  defines "first \<equiv> \<lambda>i. find (\<lambda>j. ka_dial (att j) = None) [i..<3]"
  shows "fst (kafka_loop b g att i store) =
           (case first i of Some j \<Rightarrow> Some (connected_store b g (att j))
                          | None \<Rightarrow> if i < 3 then Some (new_store b g) else store) \<and>
         count_list (snd (kafka_loop b g att i store)) KafkaRetrying =
           (case first i of None \<Rightarrow> 2 - i | Some j \<Rightarrow> j - i) \<and>
         (case first i of None \<Rightarrow> True
            | Some j \<Rightarrow> snd (kafka_loop b g att i store) \<noteq> [] \<and> i \<le> j \<and>
                last (snd (kafka_loop b g att i store)) = KafkaConnected (j + 1)) \<and>
         WithoutKafka \<notin> set (snd (kafka_loop b g att i store))"
  using assms(1)
proof (induction "3 - i" arbitrary: i store)
  case 0
  then have "i = 3" by simp
  then show ?case by (simp add: first_def kafka_loop_ends)
next
  case (Suc n)
  then have i: "i < 3" "Suc i \<le> 3" "n = 3 - Suc i" by simp_all
  have upt: "[i..<3] = i # [Suc i..<3]" using i(1) by (rule upt_conv_Cons)
  show ?case
  proof (cases "ka_dial (att i)")
    case None
    then have "first i = Some i" by (simp add: first_def upt)
    then show ?thesis using kafka_loop_works [of i att b g store] None i(1) by (simp add: max_retries_def)
  next
    case (Some e)
    then have f: "first i = first (Suc i)" by (simp add: first_def upt)
    obtain err where l: "kafka_loop b g att i store =
        (let (res, log) = kafka_loop b g att (Suc i) (if i < 2 then None else Some (new_store b g))
         in (res, KafkaAttemptFailed (i + 1) err # (if i < 2 then [KafkaRetrying] else []) @ log))"
      using kafka_loop_fails [of i att e b g store] Some i(1) by (auto simp: max_retries_def)
    define rest where "rest = kafka_loop b g att (Suc i) (if i < 2 then None else Some (new_store b g))"
    have two: "i = 2 \<or> i < 2" using i(1) by linarith
    note IH = Suc.hyps(1) [OF i(3) i(2), of "if i < 2 then None else Some (new_store b g)", folded rest_def]
    have done3: "first 3 = None" by (simp add: first_def)
    show ?thesis
      unfolding f l rest_def [symmetric] using IH two by (auto simp: case_prod_beta done3 split: option.splits)
  qed
qed

text \<open>
  Connecting to Kafka. At most three attempts are made, with a pause after each failed one
  but the last; the store handed to the mesh server is that of the first attempt whose dial
  succeeded, topics created. When all three fail the loop still leaves the last store, which has
  no writer: the server runs with a store that counts every write as failed, and the message
  about continuing without Kafka is never logged.
\<close>

theorem kafka_startup_keeps_store:
  "let b = env_or_default getenv ''KAFKA_BROKER'' ''kafka:9092'';
       g = env_or_default getenv ''KAFKA_GROUP_ID'' ''1'';
       first = find (\<lambda>i. ka_dial (att i) = None) [0, 1, 2];
       (store, log) = connect_kafka getenv att
   in store = Some (case first of None \<Rightarrow> new_store b g
        | Some i \<Rightarrow> snd (store_connect None (ka_time (att i)) (ka_topics (att i)) (new_store b g))) \<and>
      count_list log KafkaRetrying = (case first of None \<Rightarrow> 2 | Some i \<Rightarrow> i) \<and>
      (case first of None \<Rightarrow> True | Some i \<Rightarrow> last log = KafkaConnected (i + 1)) \<and>
      WithoutKafka \<notin> set log"
proof -
  let ?b = "env_or_default getenv ''KAFKA_BROKER'' ''kafka:9092''"
    and ?g = "env_or_default getenv ''KAFKA_GROUP_ID'' ''1''"
  have upt: "[0..<3] = [0, 1, 2 :: nat]" by code_simp
  obtain store log where l: "kafka_loop ?b ?g att 0 None = (store, log)" by fastforce
  show ?thesis
    using kafka_loop_spec [where i = 0 and att = att and b = ?b and g = ?g and store = None]
    by (auto simp: connect_kafka_def l upt connected_store_def Let_def simp del: find.simps split: option.splits)
qed

section \<open>The health timeout\<close>

text \<open>
  The offline threshold read from \<open>HEALTH_TIMEOUT_SECONDS\<close>: up to 9223372036 seconds it is
  the value given, or 75 seconds when the value is absent, not a number, zero or negative, so it
  is positive. A larger positive value passes the check and wraps around in the conversion to
  nanoseconds: with 10000000000 every node is offline however recently it reported.
\<close>

theorem health_timeout_range:
  assumes "env_or_default_int getenv ''HEALTH_TIMEOUT_SECONDS'' 75 = secs"
  shows "(secs \<le> 9223372036 \<longrightarrow>
            health_timeout_of getenv = (if 0 < secs then secs else 75) * second \<and> 0 < health_timeout_of getenv) \<and>
         (secs = 10000000000 \<longrightarrow> health_timeout_of getenv = - 8446744073709551616)"
proof -
  have "0 < secs \<Longrightarrow> secs \<le> 9223372036 \<Longrightarrow> wrap64 (secs * second) = secs * second"
    by (rule wrap64_id) (auto simp: second_def)
  then show ?thesis
    using assms by (auto simp: health_timeout_of_def Let_def second_def wrap64_def)
qed

lemma health_timeout_range_witness:
  "health_timeout_of (\<lambda>k. ''5'') = 5 * second \<and>
   health_timeout_of (\<lambda>k. ''10000000000'') = - 8446744073709551616"
proof -
  have "env_or_default_int (\<lambda>k. ''5'') ''HEALTH_TIMEOUT_SECONDS'' 75 = 5"
    and "env_or_default_int (\<lambda>k. ''10000000000'') ''HEALTH_TIMEOUT_SECONDS'' 75 = 10000000000"
    by (simp_all add: env_or_default_int_def atoi_def dec_val_def)
  from this [THEN health_timeout_range] show ?thesis by simp
qed


text \<open>
  The preset is cut to a byte before it is checked: the flag 256 is applied as preset 0.
\<close>

lemma tx_power_wraps:
  "fl_tx_power fl = Some 256 \<Longrightarrow> start_mesh w fl ms = start_mesh w (fl\<lparr> fl_tx_power := Some 0 \<rparr>) ms"
proof -
  assume "fl_tx_power fl = Some 256"
  moreover have "ucast (256 :: u64) = (0 :: byte)" by code_simp
  ultimately have "ucast (tx_power_of fl) = (ucast (tx_power_of (fl\<lparr> fl_tx_power := Some 0 \<rparr>)) :: byte)"
    by (simp add: tx_power_of_def flag_or_def)
  then show ?thesis unfolding start_mesh_def by (simp only:)
qed

end
