(* ===== verification/Hub_Claims.thy ===== *)
theory Hub_Claims
  imports Hub_Main Server_Frames Sim_Hub
begin

text \<open>
  The properties of the hub's main program: the identity that the environment and the key files
  give to every \<open>JOIN_ACK\<close>, and what survives a shutdown and a restart.
\<close>

section \<open>The identity of a started hub\<close>

lemma env_or_default_nonempty: "def \<noteq> [] \<Longrightarrow> env_or_default getenv key def \<noteq> []"
  by (simp add: env_or_default_def)

lemma length_env_mac: "length (env_mac getenv key) = 6"
  by (auto simp: env_mac_def Let_def zero_bytes_def dest: env_codec.parse_length split: sum.split)

lemma write_active_identity: "identity (snd (write_active env m ms)) = identity ms"
  by (simp add: write_active_def write_link_def identity_def Let_def)

lemma start_identity: "identity (snd (start env o1 o2 ms)) = identity ms"
  by (simp add: start_def identity_def record_frame_def Let_def split: option.split)

lemma set_tx_identity: "identity (snd (set_tx_power_preset env p ms)) = identity ms"
  using write_active_identity [of env _ ms]
  by (auto simp: set_tx_power_preset_def Let_def case_prod_beta identity_def split: option.split)

lemma start_mesh_identity: "identity (fst (start_mesh w fl ms)) = identity ms"
  by (auto simp: start_mesh_def Let_def case_prod_beta start_identity set_tx_identity split: option.split)

lemma new_server_identity:
  assumes "new_mesh_server cf af nf zf key key2 = Ret ms"
  shows "identity ms = (mk_public (keys_of (cf_master_key_path cf) key), cf_master_mac cf,
           mk_public (keys_of (cf_secondary_key_path cf) key2), cf_secondary_mac cf)"
  using assms by (auto simp: new_mesh_server_def Let_def identity_def split: outcome.splits if_splits)

text \<open>The identity does not depend on the event store that was connected.\<close>

lemma config_store:
  "load_keys w (hub_config getenv fl store) = load_keys w (hub_config getenv fl None)"
  "cf_master_key_path (hub_config getenv fl store) = cf_master_key_path (hub_config getenv fl None)"
  "cf_master_mac (hub_config getenv fl store) = cf_master_mac (hub_config getenv fl None)"
  "cf_secondary_key_path (hub_config getenv fl store) = cf_secondary_key_path (hub_config getenv fl None)"
  "cf_secondary_mac (hub_config getenv fl store) = cf_secondary_mac (hub_config getenv fl None)"
  by (simp_all add: load_keys_def hub_config_def)

lemma hub_main_identity:
  assumes "hub_main getenv fl w = HubRuns h" and keys: "load_keys w (hub_config getenv fl None) = (key, key2, files)"
  shows "let cf = hub_config getenv fl None
     in identity (hub_server h) =
          (mk_public (keys_of (cf_master_key_path cf) key), cf_master_mac cf,
           mk_public (keys_of (cf_secondary_key_path cf) key2), cf_secondary_mac cf)"
proof -
  obtain store log where k: "connect_kafka getenv (hw_kafka w) = (store, log)" by fastforce
  let ?cf = "hub_config getenv fl store"
  have l: "load_keys w ?cf = (key, key2, files)" using keys by (simp add: config_store [where store = store])
  obtain ms where b: "build_server w ?cf = Ret ms" and h: "hub_server h = fst (start_mesh w fl ms)"
    using assms(1) k by (auto simp: hub_main_def Let_def case_prod_beta split: outcome.splits if_splits)
  have "identity ms = (mk_public (keys_of (cf_master_key_path ?cf) key), cf_master_mac ?cf,
           mk_public (keys_of (cf_secondary_key_path ?cf) key2), cf_secondary_mac ?cf)"
    using b l by (intro new_server_identity) (auto simp: build_server_def)
  then show ?thesis
    by (simp add: h start_mesh_identity Let_def config_store [where store = store])
qed


definition curve_ok :: "hub_world \<Rightarrow> bool" where
  "curve_ok w \<longleftrightarrow> (\<forall>p. length p = 32 \<longrightarrow> length (hw_curve w p) = 32) \<and>
     (\<forall>l bytes. hw_random w l = Inr bytes \<longrightarrow> length bytes = 32)"

lemma load_keys_lengths:
  assumes "curve_ok w" and "load_keys w cf = (key, key2, files)"
  shows "length (mk_public (keys_of (cf_master_key_path cf) key)) = 32 \<and>
         length (mk_public (keys_of (cf_secondary_key_path cf) key2)) = 32"
proof -
  have gen: "fst (load_or_generate (hw_curve w) (hw_random w l) out f) = Inr kp \<Longrightarrow> key_lengths kp" for l out f kp
    using assms(1) by (auto simp: curve_ok_def intro: load_or_generate_lengths)
  have "\<forall>kp. (key = Inr kp \<longrightarrow> key_lengths kp) \<and> (key2 = Inr kp \<longrightarrow> key_lengths kp)"
    using assms(2) gen by (auto simp: load_keys_def Let_def case_prod_beta split: if_splits)
  then show ?thesis
    by (auto simp: keys_of_def key_lengths_def zero_keypair_def split: sum.split)
qed

lemma join_ack_fields:
  assumes "length (ms_secondary_mac ms) = 6" and "length (ms_secondary_public ms) = 32"
  shows "length (msg_data (join_ack node ms)) = 64 \<and>
         (if ms_secondary_mac ms \<noteq> zero_bytes 6
          then slice 4 10 (msg_data (join_ack node ms)) = ms_secondary_mac ms \<and>
               slice 10 42 (msg_data (join_ack node ms)) = ms_secondary_public ms
          else drop 4 (msg_data (join_ack node ms)) = zero_bytes 60)"
    and "length (na_public_key node) = 32 \<Longrightarrow>
         take 4 (msg_data (join_ack node ms)) = take 4 (na_public_key node)"
proof -
  define f where "f = take 4 (na_public_key node)"
  have f: "length f \<le> 4" "length (na_public_key node) = 32 \<Longrightarrow> length f = 4" by (simp_all add: f_def)
  have data: "msg_data (join_ack node ms) =
      (let d = f @ replicate (64 - length f) 0
       in if ms_secondary_mac ms \<noteq> zero_bytes 6
          then take 4 d @ ms_secondary_mac ms @ ms_secondary_public ms @ drop 42 d else d)"
    using assms f(1)
    by (simp add: join_ack_def join_ack_data_def f_def [symmetric] go_copy_fits go_make_def MaxDataLength_def Let_def
        drop_Cons')
  show "length (msg_data (join_ack node ms)) = 64 \<and>
         (if ms_secondary_mac ms \<noteq> zero_bytes 6
          then slice 4 10 (msg_data (join_ack node ms)) = ms_secondary_mac ms \<and>
               slice 10 42 (msg_data (join_ack node ms)) = ms_secondary_public ms
          else drop 4 (msg_data (join_ack node ms)) = zero_bytes 60)"
    using assms f(1) unfolding data by (simp add: slice_def zero_bytes_def Let_def)
  show "length (na_public_key node) = 32 \<Longrightarrow>
         take 4 (msg_data (join_ack node ms)) = take 4 (na_public_key node)"
    using assms f(2) unfolding data by (simp add: f_def [symmetric] Let_def)
qed

text \<open>A server that has just been built has sent nothing, and starting it sends no acknowledgement.\<close>

lemma hub_main_acks:
  assumes "hub_main getenv fl w = HubRuns h"
  shows "\<forall>f \<in> set (ms_tx (hub_server h)). ack_ok (hub_server h) f"
proof -
  obtain store log where k: "connect_kafka getenv (hw_kafka w) = (store, log)" by fastforce
  obtain ms where b: "build_server w (hub_config getenv fl store) = Ret ms" and h: "hub_server h = fst (start_mesh w fl ms)"
    using assms k by (auto simp: hub_main_def Let_def case_prod_beta split: outcome.splits if_splits)
  have none: "ms_tx ms = []"
    using b by (auto simp: build_server_def new_mesh_server_def Let_def case_prod_beta split: outcome.splits if_splits)
  let ?ms1 = "snd (start (hw_env w) (hw_open w Primary) (hw_open w Secondary) ms)"
  have "acks_only ms ?ms1"
    by (rule quiet_acks [OF start_identity])
      (simp add: start_def record_frame_def Let_def split: option.split)
  moreover have "acks_only ?ms1 (snd (set_tx_power_preset (hw_env w) p ?ms1))" for p
    by (rule emits_acks [OF emits_config(6)])
  ultimately have only: "acks_only ms (hub_server h)"
    unfolding h start_mesh_def by (auto simp: case_prod_beta Let_def intro: acks_trans split: option.split)
  then have "ack_ok (hub_server h) = ack_ok ms" by (intro ack_ok_cong) (simp add: acks_only_def)
  then show ?thesis using only none by (simp add: acks_only_def)
qed

lemma hub_identity:
  assumes run: "hub_main getenv fl w = HubRuns h" and curve: "curve_ok w"
    and keys: "load_keys w (hub_config getenv fl None) = (key, key2, files)"
  defines "pub \<equiv> \<lambda>r :: key_error + master_keypair. case r of Inl e \<Rightarrow> zero_bytes 32 | Inr kp \<Rightarrow> mk_public kp"
    and "mac2 \<equiv> env_mac getenv ''SECONDARY_MASTER_MAC''" and "ms \<equiv> hub_server h"
  shows "ms_master_mac ms = env_mac getenv ''MASTER_MAC''" and "ms_master_public ms = pub key"
    and "ms_secondary_mac ms = (if dual_master_enabled getenv then mac2 else zero_bytes 6)"
    and "dual_master_enabled getenv \<Longrightarrow> mac2 \<noteq> zero_bytes 6 \<Longrightarrow> ms_secondary_public ms = pub key2"
    and "length (ms_secondary_mac ms) = 6" and "length (ms_secondary_public ms) = 32"
proof -
  let ?cf = "hub_config getenv fl None"
  have id: "identity ms = (mk_public (keys_of (cf_master_key_path ?cf) key), cf_master_mac ?cf,
           mk_public (keys_of (cf_secondary_key_path ?cf) key2), cf_secondary_mac ?cf)"
    using hub_main_identity [OF run keys] by (simp add: Let_def ms_def)
  show "length (ms_secondary_public ms) = 32"
    using load_keys_lengths [OF curve keys] id by (simp add: identity_def)
  show second: "ms_secondary_mac ms = (if dual_master_enabled getenv then mac2 else zero_bytes 6)"
    using id by (auto simp: identity_def hub_config_def secondary_identity_def load_secondary_master_identity_def
        Let_def env_mac_def mac2_def)
  then show "length (ms_secondary_mac ms) = 6" by (simp add: length_env_mac zero_bytes_def mac2_def)
  have path1: "cf_master_key_path ?cf \<noteq> []"
    by (simp add: hub_config_def load_master_identity_def env_or_default_nonempty)
  have path2: "dual_master_enabled getenv \<Longrightarrow> mac2 \<noteq> zero_bytes 6 \<Longrightarrow> cf_secondary_key_path ?cf \<noteq> []"
    by (auto simp: hub_config_def secondary_identity_def load_secondary_master_identity_def env_or_default_nonempty
        env_mac_def mac2_def Let_def split: if_splits)
  show "ms_master_public ms = pub key"
    using id path1 by (auto simp: identity_def keys_of_def zero_keypair_def zero_bytes_def pub_def split: sum.split)
  show "dual_master_enabled getenv \<Longrightarrow> mac2 \<noteq> zero_bytes 6 \<Longrightarrow> ms_secondary_public ms = pub key2"
    using id path2 by (auto simp: identity_def keys_of_def zero_keypair_def zero_bytes_def pub_def split: sum.split)
  show "ms_master_mac ms = env_mac getenv ''MASTER_MAC''"
    using id by (simp add: identity_def hub_config_def load_master_identity_def)
qed

text \<open>
  C22. The identity a hub gives out. In every run of a started hub, approvals interleaved call by call
  and all other operations included, each JOIN_ACK that was sent carries as its origin the address in
  \<open>MASTER_MAC\<close> (zeros when it is absent or malformed), and it is one of two kinds. A rejection has neither
  key nor payload. An approval has as its key the public key in the master key file (zeros when the pair
  could not be loaded or generated) and 64 bytes of payload, with the address and the key of the secondary
  master exactly when dual mode is on and \<open>SECONDARY_MASTER_MAC\<close> is a non-zero address (its key is zeros when
  that pair could not be had), and zeros after the fingerprint otherwise. The frame
  that the hub builds to approve a node, at any point of the run, begins its payload with the first four
  bytes of that node's key.
\<close>

theorem join_acks_carry_identity:
  assumes run: "hub_main getenv fl w = HubRuns h" and curve: "curve_ok w"
    and keys: "load_keys w (hub_config getenv fl None) = (key, key2, files)"
    and steps: "pool_step\<^sup>*\<^sup>* ([], hub_server h) (ts, ms)"
    and sent: "(l, ack, r) \<in> set (ms_tx ms)" "message_type ack = MessageTypeJoinAck"
  shows "let pub = (\<lambda>r. case r of Inl e \<Rightarrow> zero_bytes 32 | Inr kp \<Rightarrow> mk_public kp);
             mac2 = env_mac getenv ''SECONDARY_MASTER_MAC''
         in origin_mac ack = env_mac getenv ''MASTER_MAC'' \<and>
            (msg_public_key ack = [] \<and> msg_data ack = [] \<or>
             msg_public_key ack = pub key \<and> length (msg_data ack) = 64 \<and>
             (if dual_master_enabled getenv \<and> mac2 \<noteq> zero_bytes 6
              then slice 4 10 (msg_data ack) = mac2 \<and> slice 10 42 (msg_data ack) = pub key2
              else drop 4 (msg_data ack) = zero_bytes 60)) \<and>
            (\<forall>node. length (na_public_key node) = 32 \<longrightarrow>
               take 4 (msg_data (join_ack node ms)) = take 4 (na_public_key node))"
proof -
  note id = hub_identity [OF run curve keys]
  note fields = join_ack_fields [OF id(5,6)]
  have only: "acks_only (hub_server h) ms" by (rule pool_run_acks [OF steps])
  then have "ack_ok (hub_server h) (l, ack, r)" using sent(1) hub_main_acks [OF run] by (auto simp: acks_only_def)
  then have kind: "(\<exists>node. ack = join_ack node (hub_server h)) \<or> (\<exists>mac. ack = reject_frame mac (hub_server h))"
    using sent(2) by (simp add: ack_ok_def)
  have finger: "take 4 (msg_data (join_ack node ms)) = take 4 (na_public_key node)" if "length (na_public_key node) = 32" for node
  proof -
    have "identity ms = identity (hub_server h)" using only by (simp add: acks_only_def)
    then show ?thesis using join_ack_fields(2) [of ms node] id(5,6) that by (simp add: identity_def)
  qed
  consider (approval) node where "ack = join_ack node (hub_server h)" | (rejection) mac where "ack = reject_frame mac (hub_server h)"
    using kind by blast
  then show ?thesis
  proof cases
    case approval
    have "origin_mac ack = ms_master_mac (hub_server h) \<and> msg_public_key ack = ms_master_public (hub_server h)"
      by (simp add: approval join_ack_def)
    then show ?thesis
      using fields(1) [of node] id(1-4) finger unfolding approval [symmetric] Let_def by (auto split: if_splits)
  next
    case rejection
    then show ?thesis using id(1) finger by (simp add: reject_frame_def zero_message_def Let_def)
  qed
qed

definition example_getenv :: getenv where
  "example_getenv k = (if k = ''MASTER_MAC'' then ''aa:bb:cc:dd:ee:ff'' else [])"

definition example_world :: hub_world where
  "example_world = \<lparr> hw_kafka = (\<lambda>i. \<lparr> ka_dial = Some ''refused'', ka_time = 0, ka_topics = Inr [] \<rparr>),
     hw_auth_file = (\<lambda>p. Missing), hw_node_file = (\<lambda>p. Missing), hw_zone_file = (\<lambda>p. Missing),
     hw_key_file = (\<lambda>p. KeyMissing), hw_curve = rev, hw_random = (\<lambda>l. Inr (replicate 32 255)),
     hw_key_write = (\<lambda>l. KeyWritten), hw_env = quiet_env 0, hw_open = (\<lambda>l. None), hw_listen = None \<rparr>"

definition no_flags :: hub_flags where
  "no_flags = \<lparr> fl_serial = None, fl_baud = None, fl_port = None, fl_auth_registry = None,
     fl_node_registry = None, fl_tx_power = None \<rparr>"

lemma fresh_server:
  assumes "new_mesh_server cf Missing nf zf k k2 = Ret ms"
  shows "ms_auth ms = [] \<and> \<not> ms_running ms \<and> \<not> ms_cancelled ms"
  using assms
  by (auto simp: new_mesh_server_def Let_def auth_load_def read_entries_def load_table_def new_auth_registry_def
      split: outcome.splits if_splits)

lemma fresh_start:
  assumes "\<not> ms_running ms" and "hw_open w Primary = None"
  shows "ms_serial_comm (fst (start_mesh w fl ms)) \<and> ms_auth (fst (start_mesh w fl ms)) = ms_auth ms \<and>
     ms_cancelled (fst (start_mesh w fl ms)) = ms_cancelled ms"
proof -
  let ?ms1 = "snd (start (hw_env w) None (hw_open w Secondary) ms)"
  have one: "fst (start (hw_env w) None (hw_open w Secondary) ms) = None" "ms_serial_comm ?ms1"
    "ms_auth ?ms1 = ms_auth ms" "ms_cancelled ?ms1 = ms_cancelled ms"
    using assms(1) by (simp_all add: start_def record_frame_def Let_def split: option.split)
  have "ms_serial_comm (snd (set_tx_power_preset env p m)) = ms_serial_comm m \<and>
      ms_auth (snd (set_tx_power_preset env p m)) = ms_auth m \<and>
      ms_cancelled (snd (set_tx_power_preset env p m)) = ms_cancelled m" for env p m
    by (simp add: set_tx_power_preset_def write_active_def write_link_def case_prod_beta Let_def split: option.split)
  then show ?thesis using one by (simp add: start_mesh_def assms(2) case_prod_beta Let_def)
qed

lemma example_start: "\<exists>h. hub_main example_getenv no_flags example_world = HubRuns h \<and>
    ms_auth (hub_server h) = [] \<and> ms_serial_comm (hub_server h) \<and> \<not> ms_cancelled (hub_server h)"
proof -
  let ?w = example_world and ?cf = "hub_config example_getenv no_flags (fst (connect_kafka example_getenv (hw_kafka example_world)))"
  obtain key key2 files where keys: "load_keys ?w ?cf = (key, key2, files)" by (cases "load_keys ?w ?cf") auto
  obtain ms where ms: "new_mesh_server ?cf Missing Missing Missing key key2 = Ret ms"
    by (cases "new_mesh_server ?cf Missing Missing Missing key key2")
      (auto simp: new_mesh_server_def Let_def zones_load_def read_entries_def split: if_splits)
  have "build_server ?w ?cf = Ret ms" using ms keys by (simp add: build_server_def example_world_def)
  then obtain h where h: "hub_main example_getenv no_flags ?w = HubRuns h" "hub_server h = fst (start_mesh ?w no_flags ms)"
    by (simp add: hub_main_def case_prod_beta Let_def) (simp add: example_world_def)
  have "hw_open ?w Primary = None" by (simp add: example_world_def)
  from fresh_start [OF _ this, of ms no_flags] fresh_server [OF ms] h show ?thesis by auto
qed

lemma example_mac: "env_mac example_getenv ''MASTER_MAC'' = [0xaa, 0xbb, 0xcc, 0xdd, 0xee, 0xff]"
  by code_simp

lemma join_ack_sent: "join_ack nd ms \<in> set (approval_frames nd i inh ms)"
  unfolding approval_frames_def append_Cons by (rule list.set_intros(1))

theorem join_acks_carry_identity_witness:
  "\<exists>h ts ms l ack r. hub_main example_getenv no_flags example_world = HubRuns h \<and>
     pool_step\<^sup>*\<^sup>* ([], hub_server h) (ts, ms) \<and> (l, ack, r) \<in> set (ms_tx ms) \<and>
     message_type ack = MessageTypeJoinAck \<and> origin_mac ack = [0xaa, 0xbb, 0xcc, 0xdd, 0xee, 0xff]"
proof -
  obtain h where run: "hub_main example_getenv no_flags example_world = HubRuns h"
    and h: "ms_auth (hub_server h) = []" "ms_serial_comm (hub_server h)" "\<not> ms_cancelled (hub_server h)"
    using example_start by blast
  have curve: "curve_ok example_world" by (auto simp: curve_ok_def example_world_def)
  obtain key key2 files where keys: "load_keys example_world (hub_config example_getenv no_flags None) = (key, key2, files)"
    by (cases "load_keys example_world (hub_config example_getenv no_flags None)") auto
  obtain s :: simulator and n :: virtual_node where n: "length (vn_mac n) = 6" "length (vn_public_key n) = 32"
    by (rule example_sim)
  let ?ms0 = "record_frame 5 Primary (hub_server h)"
  let ?ms1 = "snd (handle_message (quiet_env 5) (enrollment_msg n) ?ms0)"
  let ?ms2 = "snd (approve_enrollment (quiet_env 6) (mac_key (vn_mac n)) no_params ?ms1)"
  have auth: "auth_registry_inv (ms_auth ?ms0)" "get_approved_public_key (vn_mac n) (ms_auth ?ms0) \<noteq> Some (vn_public_key n)"
    using h(1) by (simp_all add: record_frame_def get_approved_public_key_def)
  have held: "ms_auth ?ms1 = snd (add_pending 5 (vn_mac n) (vn_public_key n) (ms_auth ?ms0))" "radio ?ms1 = radio ?ms0"
    using hub_holds_offer [OF auth(1) n auth(2), of "quiet_env 5"] by (simp_all add: Let_def quiet_env_def)
  obtain a where a: "map_of (ms_auth ?ms1) (mac_key (vn_mac n)) = Some a" "na_mac a = vn_mac n"
    using offer_pends [OF auth(1) n auth(2), of 5] held(1) by auto
  have up: "ms_serial_comm ?ms1" using held(2) h(2) by (simp add: radio_def record_frame_def)
  obtain i inh fs nd ms' where fs: "ms_tx ?ms2 = ms_tx ?ms1 @ fs"
    "[m. (l, m, r) \<leftarrow> fs, r = None] = approval_frames nd i inh ms'"
    using hub_approves [OF a n(1) _ up, of "quiet_env 6" no_params] by (auto simp: Let_def quiet_env_def)
  have "join_ack nd ms' \<in> set (approval_frames nd i inh ms')" by (rule join_ack_sent)
  then have "join_ack nd ms' \<in> set [m. (l, m, r) \<leftarrow> fs, r = None]" unfolding fs(2) .
  then obtain l r where sent: "(l, join_ack nd ms', r) \<in> set (ms_tx ?ms2)" by (auto simp: fs(1) split: if_splits)
  have "server_step (hub_server h) ?ms1"
    using sv_read [OF h(3), of "quiet_env 5" Primary "Inr (enrollment_msg n)" 0] by (simp add: process_read_def quiet_env_def)
  moreover have "server_step ?ms1 ?ms2"
    using sv_approve_legacy [of ?ms1 "quiet_env 6" "mac_key (vn_mac n)" no_params]
    by (simp add: approve_legacy_def case_prod_beta Let_def split: option.splits)
  ultimately have steps: "pool_step\<^sup>*\<^sup>* ([], hub_server h) ([], ?ms2)"
    by (meson converse_rtranclp_into_rtranclp r_into_rtranclp pool_step.other)
  have type: "message_type (join_ack nd ms') = MessageTypeJoinAck" by (simp add: join_ack_def)
  have "origin_mac (join_ack nd ms') = [0xaa, 0xbb, 0xcc, 0xdd, 0xee, 0xff]"
    using join_acks_carry_identity [OF run curve keys steps sent type] by (simp add: Let_def example_mac)
  then show ?thesis using run steps sent type by blast
qed

section \<open>Shutting down and starting again\<close>

lemma finish_loops_fields:
  "ms_running (finish_loops env ms) = ms_running ms" "ms_store (finish_loops env ms) = ms_store ms"
  "ms_zone_file (finish_loops env ms) = ms_zone_file ms"
  "ms_auth_path ms \<noteq> [] \<Longrightarrow>
     ms_auth_file (finish_loops env ms) = snd (auth_persist (en_auth_write env) (ms_auth ms) (ms_auth_file ms))"
  "ms_node_path ms \<noteq> [] \<Longrightarrow> ms_node_file (finish_loops env ms) =
     snd (nodes_persist (en_node_mkdir env) (en_node_write env) (ms_nodes ms) (ms_node_file ms))"
  by (simp_all add: finish_loops_def save_auth_def save_nodes_def Let_def)

lemma close_links_save_fields:
  fixes z :: "zone_v1 option write_outcome" and ms :: mesh_server
  defines "m \<equiv> close_links (save_zones z ms)"
  shows "ms_running m = ms_running ms" "ms_store m = ms_store ms" "ms_auth_path m = ms_auth_path ms"
    "ms_node_path m = ms_node_path ms" "ms_auth m = ms_auth ms" "ms_nodes m = ms_nodes ms"
    "ms_auth_file m = ms_auth_file ms" "ms_node_file m = ms_node_file ms"
    "ms_zone_path ms \<noteq> [] \<Longrightarrow> ms_zone_file m = snd (zones_persist z (ms_zones ms) (ms_zone_file ms))"
  by (simp_all add: m_def close_links_def save_zones_def Let_def)

lemma stop_running:
  assumes "ms_running ms" and "\<not> ms_stop_persist_closed ms" and "\<not> ms_stop_node_closed ms" and "ms_auth_path ms \<noteq> []"
    and "ms_node_path ms \<noteq> []" and "ms_zone_path ms \<noteq> []"
  obtains ms1 where "stop env zone_out ms = (Ret None, ms1)" and "\<not> ms_running ms1" and "ms_store ms1 = ms_store ms"
    and "ms_auth_file ms1 = snd (auth_persist (en_auth_write env) (ms_auth ms) (ms_auth_file ms))"
    and "ms_node_file ms1 =
       snd (nodes_persist (en_node_mkdir env) (en_node_write env) (ms_nodes ms) (ms_node_file ms))"
    and "ms_zone_file ms1 = snd (zones_persist zone_out (ms_zones ms) (ms_zone_file ms))"
proof -
  let ?m = "(cancel_server ms)\<lparr> ms_stop_persist_closed := True, ms_stop_node_closed := True \<rparr>"
  have "stop env zone_out ms = (Ret None, finish_loops env (close_links (save_zones zone_out ?m)))"
    using assms(1-3,5) by (simp add: stop_def cancel_server_def Let_def)
  then show thesis
    by (rule that) (use assms in \<open>simp_all add: finish_loops_fields close_links_save_fields cancel_server_def\<close>)
qed

lemma new_server_registries:
  assumes "new_mesh_server cf af nf zf key key2 = Ret ms" and "cf_auth_path cf \<noteq> []" and "cf_node_path cf \<noteq> []"
    and "cf_zone_path cf \<noteq> []" and "zones_load zf new_zone_registry = Ret (e, zr)"
  shows "ms_auth ms = snd (auth_load af new_auth_registry) \<and> ms_nodes ms = snd (nodes_load nf new_node_registry) \<and>
         ms_zones ms = zr"
  using assms by (auto simp: new_mesh_server_def Let_def)

lemma new_server_starts:
  assumes "cf_zone_path cf \<noteq> []" and "zones_load zf new_zone_registry = Ret (e, zr)"
  obtains ms where "new_mesh_server cf af nf zf key key2 = Ret ms"
  using assms by (cases "new_mesh_server cf af nf zf key key2") (simp_all add: new_mesh_server_def Let_def)

lemma close_store_fields:
  "ms_running (close_store ce ms) = ms_running ms" "ms_auth_file (close_store ce ms) = ms_auth_file ms"
  "ms_node_file (close_store ce ms) = ms_node_file ms" "ms_zone_file (close_store ce ms) = ms_zone_file ms"
  "\<not> st_connected (kafka_stats (close_store ce ms))"
  by (simp_all add: close_store_def kafka_stats_def store_close_def store_stats_def disconnected_stats_def
      set_connected_def Let_def split: option.split)

text \<open>
  C7. Nothing is lost over a shutdown. When a running hub that was not stopped before shuts down
  and its final writes succeed, it ends stopped with the event store disconnected, and a hub
  started on the same files has the same trust decisions for every address, the same nodes and
  the same zones, and satisfies the server invariant again. Nodes need addresses of six bytes and
  times that JSON can carry.
\<close>

theorem shutdown_keeps_registries:
  assumes run: "ms_running ms" "\<not> ms_stop_persist_closed ms" "\<not> ms_stop_node_closed ms" and inv: "server_inv ms"
    and paths: "ms_auth_path ms \<noteq> []" "ms_node_path ms \<noteq> []" "ms_zone_path ms \<noteq> []"
    and writes: "en_auth_write env = Written" "en_node_mkdir env = None" "en_node_write env = Written"
    and saved: "\<forall>k n. map_of (ms_nodes ms) k = Some n \<longrightarrow> length (ni_mac n) = 6 \<and> json_time_ok (ni_last_seen n)"
    and paths2: "cf_auth_path cf \<noteq> []" "cf_node_path cf \<noteq> []" "cf_zone_path cf \<noteq> []"
  shows "\<exists>ms1 ms2. hub_shutdown env Written close_err ms = Ret ms1 \<and> \<not> ms_running ms1 \<and>
           \<not> st_connected (kafka_stats ms1) \<and>
           new_mesh_server cf (ms_auth_file ms1) (ms_node_file ms1) (ms_zone_file ms1) key key2 = Ret ms2 \<and>
           server_inv ms2 \<and>
           (\<forall>mac. get_approved_public_key mac (ms_auth ms2) = get_approved_public_key mac (ms_auth ms)) \<and>
           map_of (ms_nodes ms2) = map_of (ms_nodes ms) \<and>
           (\<forall>i. zone_get i (ms_zones ms2) = zone_get i (ms_zones ms))"
proof -
  obtain ms1 where st: "stop env Written ms = (Ret None, ms1)" "\<not> ms_running ms1"
    and files: "ms_auth_file ms1 = snd (auth_persist Written (ms_auth ms) (ms_auth_file ms))"
      "ms_node_file ms1 = snd (nodes_persist None Written (ms_nodes ms) (ms_node_file ms))"
      "ms_zone_file ms1 = snd (zones_persist Written (ms_zones ms) (ms_zone_file ms))"
    using stop_running [OF run paths, of env Written] writes by metis
  have invs: "auth_registry_inv (ms_auth ms)" "node_registry_inv (ms_nodes ms)" "zone_registry_inv (ms_zones ms)"
    and uniq: "ids_unique (ms_nodes ms)"
    using inv by (simp_all add: server_inv_def)
  obtain zr where z: "zones_load (ms_zone_file ms1) new_zone_registry = Ret (None, zr)"
      "map_of zr = map_of (ms_zones ms)" "zone_registry_inv zr"
    using zones_restored [OF invs(3)] files(3) by metis
  obtain ms2 where new: "new_mesh_server cf (ms_auth_file ms1) (ms_node_file ms1) (ms_zone_file ms1) key key2 = Ret ms2"
    using new_server_starts [OF paths2(3) z(1)] by blast
  note regs = new_server_registries [OF new paths2 z(1)]
  have nodes: "map_of (ms_nodes ms2) = map_of (ms_nodes ms)" "node_registry_inv (ms_nodes ms2)"
    using regs nodes_restored [OF invs(2) saved] files(2) by (simp_all add: new_node_registry_def)
  have auth: "map_of (ms_auth ms2) = map_option auth_norm \<circ> map_of (ms_auth ms)" "auth_registry_inv (ms_auth ms2)"
    using regs restarted_lookup [OF invs(1)] restarted_inv [OF invs(1)] files(1) by simp_all
  have "ids_unique (ms_nodes ms2)"
    using uniq table_inv_distinct [OF nodes(2)] unfolding ids_unique_def nodes(1) by blast
  moreover have "cmds_ok (ms_commands ms2)"
    using new by (auto simp: new_mesh_server_def Let_def new_command_store_def cmds_ok_def split: outcome.splits if_splits)
  ultimately have inv2: "server_inv ms2" using nodes(2) auth(2) z(3) regs by (simp add: server_inv_def)
  have trust: "get_approved_public_key mac (ms_auth ms2) = get_approved_public_key mac (ms_auth ms)" for mac
    by (simp add: get_approved_public_key_def auth(1) auth_norm_trust split: option.split)
  have down: "hub_shutdown env Written close_err ms = Ret (close_store close_err ms1)"
    using st run by (simp add: hub_shutdown_def)
  have zones: "zone_get i (ms_zones ms2) = zone_get i (ms_zones ms)" for i
    using z(2) regs by (simp add: zone_get_def)
  show ?thesis
    by (rule exI [of _ "close_store close_err ms1"], rule exI [of _ ms2], unfold close_store_fields,
        intro conjI allI down st(2) new inv2 trust nodes(1) zones) (rule close_store_fields(5) TrueI)+
qed


lemma example_trust:
  "\<exists>r. auth_registry_inv r \<and> get_approved_public_key [0,0,0,0,0,1] r = Some (replicate 32 7)"
proof -
  let ?p = "snd (add_pending 8 [0,0,0,0,0,1] (replicate 32 7) [])"
  have "auth_registry_inv ?p" by (rule add_pending_inv) simp_all
  then have "auth_registry_inv (snd (approve 9 (auth_mac_to_string [0,0,0,0,0,1]) ?p))" by (rule approve_inv)
  moreover have "get_approved_public_key [0,0,0,0,0,1] (snd (approve 9 (auth_mac_to_string [0,0,0,0,0,1]) ?p)) =
      Some (replicate 32 7)"
    by code_simp
  ultimately show ?thesis by blast
qed

theorem shutdown_keeps_registries_witness:
  "\<exists>ms ms1 ms2. ms_running ms \<and> hub_shutdown (quiet_env 0) Written None ms = Ret ms1 \<and>
     new_mesh_server (hub_config example_getenv no_flags None) (ms_auth_file ms1) (ms_node_file ms1)
       (ms_zone_file ms1) no_key no_key = Ret ms2 \<and>
     get_approved_public_key [0,0,0,0,0,1] (ms_auth ms2) = Some (replicate 32 7)"
proof -
  let ?cf = "hub_config example_getenv no_flags None"
  have paths: "cf_auth_path ?cf \<noteq> []" "cf_node_path ?cf \<noteq> []" "cf_zone_path ?cf \<noteq> []"
    by (simp_all add: hub_config_def no_flags_def flag_or_def env_or_default_nonempty)
  obtain r where r: "auth_registry_inv r" "get_approved_public_key [0,0,0,0,0,1] r = Some (replicate 32 7)"
    using example_trust by blast
  obtain ms0 where new: "new_mesh_server ?cf Missing Missing Missing no_key no_key = Ret ms0"
    by (rule new_server_starts [OF paths(3), of Missing None new_zone_registry])
      (simp_all add: zones_load_def read_entries_def)
  have f: "ms_nodes ms0 = []" "ms_auth_path ms0 \<noteq> []" "ms_node_path ms0 \<noteq> []" "ms_zone_path ms0 \<noteq> []"
    "\<not> ms_stop_persist_closed ms0" "\<not> ms_stop_node_closed ms0"
    using new paths by (auto simp: new_mesh_server_def Let_def nodes_load_def read_entries_def load_table_def
        new_node_registry_def split: outcome.splits)
  let ?ms = "ms0\<lparr> ms_running := True, ms_auth := r \<rparr>"
  have inv: "server_inv ?ms" using new_server_inv [OF new] r(1) by (simp add: server_inv_def)
  obtain ms1 ms2 where "hub_shutdown (quiet_env 0) Written None ?ms = Ret ms1"
    and "new_mesh_server ?cf (ms_auth_file ms1) (ms_node_file ms1) (ms_zone_file ms1) no_key no_key = Ret ms2"
    and "\<forall>mac. get_approved_public_key mac (ms_auth ms2) = get_approved_public_key mac (ms_auth ?ms)"
    using shutdown_keeps_registries [OF _ _ _ inv _ _ _ _ _ _ _ paths, of "quiet_env 0" None no_key no_key] f
    by (auto simp: quiet_env_def)
  then show ?thesis using r(2) by (intro exI [of _ ?ms] exI [of _ ms1] exI [of _ ms2]) simp
qed

end
