(* ===== verification/Sidecar.thy ===== *)
theory Sidecar
  imports Complex_Main Go_Strings Hub_Prelude
begin

text \<open>
  The sidecar, \<open>server/sidecar/\<close>: the admin key check, the container, Kafka and health handlers and
  the router with its CORS wrapper. The Docker and Kafka clients and the HTTP probes are
  third-party code: what they answer is an argument of the handler. Strings are ASCII, and the
  one floating-point number of the program, the CPU percentage, is an exact rational.
\<close>

section \<open>Responses\<close>

datatype sidecar_reply =
    SJson nat json
  | SError nat string
  | SText string
  | SStats rat "64 word" "64 word"
  | SNoContent
  | SCrash string

definition text_json :: "string \<Rightarrow> string \<Rightarrow> string \<times> json" where
  "text_json k v = (k, JStr v)"

text \<open>A nil slice is printed as \<open>null\<close>, and a slice that is filled by \<open>append\<close> is nil when it is empty.\<close>

definition nil_array :: "json list \<Rightarrow> json" where
  "nil_array js = (if js = [] then JNull else JArr js)"

section \<open>Authorisation\<close>

definition sidecar_authorised :: "string \<Rightarrow> string \<Rightarrow> bool" where
  "sidecar_authorised admin_key bearer \<longleftrightarrow> trim_prefix bearer ''Bearer '' = admin_key"

section \<open>Containers\<close>

record container_summary =
  cs_id :: string
  cs_names :: "string list option"
  cs_image :: string
  cs_status :: string
  cs_state :: string

definition short_id :: "string \<Rightarrow> string" where
  "short_id i = (if 12 < length i then take 12 i else i)"

text \<open>
  Each handler is given the Docker client's operation as a function of what it asks for: the label
  filter and whether stopped containers are listed, the name and the stop timeout in seconds, the
  name and the number of lines.
\<close>

definition list_containers ::
    "string \<Rightarrow> (string \<Rightarrow> bool \<Rightarrow> go_error + container_summary list) \<Rightarrow> sidecar_reply" where
  "list_containers project docker_list =
     (case docker_list (''com.docker.compose.project='' @ project) True of
        Inl e \<Rightarrow> SError 503 ''docker unavailable''
      | Inr cs \<Rightarrow> SJson 200 (JObj [(''containers'', JArr [JObj
          [text_json ''id'' (short_id (cs_id c)), (''names'', case cs_names c of None \<Rightarrow> JNull | Some ns \<Rightarrow> JArr (map JStr ns)),
           text_json ''image'' (cs_image c), text_json ''status'' (cs_status c),
           text_json ''state'' (cs_state c)]. c \<leftarrow> cs])]))"

definition restart_container :: "string \<Rightarrow> (string \<Rightarrow> nat \<Rightarrow> go_error option) \<Rightarrow> sidecar_reply" where
  "restart_container name docker_restart =
     (case docker_restart name 10 of
        Some e \<Rightarrow> SError 500 ''restart failed''
      | None \<Rightarrow> SJson 200 (JObj [text_json ''status'' ''restarting'', text_json ''container'' name]))"

text \<open>The number of log lines asked for, as the text that is sent on to Docker.\<close>

definition logs_tail :: "string \<Rightarrow> string" where
  "logs_tail q =
     (let tail = (if q = [] then ''100'' else q)
      in case atoi tail of
           None \<Rightarrow> ''100''
         | Some n \<Rightarrow> if n < 1 \<or> 1000 < n then ''100'' else tail)"

definition get_logs :: "string \<Rightarrow> string \<Rightarrow> (string \<Rightarrow> string \<Rightarrow> go_error + string) \<Rightarrow> sidecar_reply" where
  "get_logs name q docker_logs =
     (case docker_logs name (logs_tail q) of
        Inl e \<Rightarrow> SError 503 ''logs unavailable''
      | Inr logs \<Rightarrow> SText logs)"

section \<open>Statistics\<close>

record docker_stats =
  ds_total_usage :: u64
  ds_percpu_usage :: "u64 list"
  ds_system_usage :: u64
  ds_online_cpus :: u32
  ds_pre_total_usage :: u64
  ds_pre_system_usage :: u64
  ds_memory_usage :: u64
  ds_memory_limit :: u64
  ds_memory_stats :: "(string, u64) gomap"

text \<open>The difference of two counters converted to \<open>int64\<close>, a wrapping subtraction, cut at zero.\<close>

definition counter_delta :: "u64 \<Rightarrow> u64 \<Rightarrow> int" where
  "counter_delta now before = (let d = sint (now - before) in if d < 0 then 0 else d)"

definition cpu_percent :: "docker_stats \<Rightarrow> rat" where
  "cpu_percent s =
     (let cpu = counter_delta (ds_total_usage s) (ds_pre_total_usage s);
          sys = counter_delta (ds_system_usage s) (ds_pre_system_usage s);
          cpus = (if ds_online_cpus s = 0 then length (ds_percpu_usage s) else unat (ds_online_cpus s))
      in if 0 < sys \<and> 0 < cpus then (of_int cpu / of_int sys) * of_nat cpus * 100 else 0)"

definition memory_used :: "docker_stats \<Rightarrow> u64" where
  "memory_used s =
     (let cache = (case map_of (ds_memory_stats s) ''cache'' of None \<Rightarrow> 0 | Some c \<Rightarrow> c);
          used = ds_memory_usage s
      in if cache < used then used - cache else used)"

text \<open>The inner option is \<open>None\<close> when the body does not decode.\<close>

definition get_stats :: "string \<Rightarrow> (string \<Rightarrow> go_error + docker_stats option) \<Rightarrow> sidecar_reply" where
  "get_stats name docker_stats =
     (case docker_stats name of
        Inl e \<Rightarrow> SError 503 ''stats unavailable''
      | Inr None \<Rightarrow> SError 500 ''failed to decode stats''
      | Inr (Some s) \<Rightarrow> SStats (cpu_percent s) (memory_used s) (ds_memory_limit s))"

section \<open>Inspection and redaction\<close>

definition sensitive_key_fragments :: "string list" where
  "sensitive_key_fragments = [''KEY'', ''SECRET'', ''TOKEN'', ''PASSWORD'', ''PASS'', ''PWD'']"

definition is_secret_env_key :: "string \<Rightarrow> bool" where
  "is_secret_env_key key = list_ex (contains_str (to_upper key)) sensitive_key_fragments"

text \<open>\<open>strings.SplitN(e, "=", 2)\<close>: the text before the first \<open>=\<close> and, if there is one, the rest.\<close>

fun cut_at :: "char \<Rightarrow> string \<Rightarrow> string \<times> string option" where
  "cut_at a [] = ([], None)"
| "cut_at a (c # cs) = (if c = a then ([], Some cs) else (let (p, r) = cut_at a cs in (c # p, r)))"

definition show_env :: "string \<Rightarrow> string \<times> string" where
  "show_env e =
     (let (key, rest) = cut_at CHR ''='' e;
          val = (case rest of None \<Rightarrow> [] | Some v \<Rightarrow> v)
      in (key, if is_secret_env_key key then ''[redacted]'' else val))"

record docker_config =
  dc_image :: string
  dc_env :: "string list"

record docker_mount =
  dm_source :: string
  dm_destination :: string
  dm_mode :: string
  dm_rw :: bool

text \<open>The pointers of Docker's answer are options; \<open>di_ports\<close> is the map of \<open>NetworkSettings\<close>.\<close>

record docker_inspect =
  di_id :: string
  di_name :: string
  di_created :: string
  di_config :: "docker_config option"
  di_state :: "(string \<times> string option) option"
  di_restart_policy :: "string option"
  di_ports :: "(string, (string \<times> string) list) gomap option"
  di_mounts :: "docker_mount list"

datatype docker_error = ContainerNotFound | DockerFailure go_error

definition ports_json :: "(string, (string \<times> string) list) gomap \<Rightarrow> json" where
  "ports_json ports = JObj [(p, nil_array [JObj [text_json ''hostIP'' ip, text_json ''hostPort'' port].
     (ip, port) \<leftarrow> bs]). (p, bs) \<leftarrow> ports]"

definition mounts_json :: "docker_mount list \<Rightarrow> json" where
  "mounts_json ms = nil_array [JObj [text_json ''source'' (dm_source m), text_json ''destination'' (dm_destination m),
     text_json ''mode'' (dm_mode m), (''rw'', JBool (dm_rw m))]. m \<leftarrow> ms]"

definition env_json :: "string list \<Rightarrow> json" where
  "env_json es = nil_array [JObj [text_json ''key'' k, text_json ''value'' v]. (k, v) \<leftarrow> map show_env es]"

definition nil_pointer :: sidecar_reply where
  "nil_pointer = SCrash ''nil pointer dereference''"

definition inspect_container :: "string \<Rightarrow> (string \<Rightarrow> docker_error + docker_inspect) \<Rightarrow> sidecar_reply" where
  "inspect_container name docker_inspect =
     (case docker_inspect name of
        Inl ContainerNotFound \<Rightarrow> SError 404 ''container not found''
      | Inl (DockerFailure e) \<Rightarrow> SError 503 ''docker unavailable''
      | Inr i \<Rightarrow>
          (case (di_ports i, di_config i, di_state i) of
             (Some ports, Some cfg, Some (status, health)) \<Rightarrow>
               SJson 200 (JObj
                 [text_json ''id'' (short_id (di_id i)), text_json ''name'' (trim_prefix (di_name i) ''/''),
                  text_json ''image'' (dc_image cfg), text_json ''created'' (di_created i),
                  text_json ''dockerState'' status,
                  text_json ''dockerHealth'' (case health of None \<Rightarrow> ''none'' | Some h \<Rightarrow> h),
                  text_json ''restartPolicy'' (case di_restart_policy i of None \<Rightarrow> [] | Some p \<Rightarrow> p),
                  (''ports'', ports_json ports), (''mounts'', mounts_json (di_mounts i)),
                  (''envVars'', env_json (dc_env cfg))])
           | _ \<Rightarrow> nil_pointer))"


section \<open>Service health\<close>

record service_spec =
  sp_name :: string
  sp_url :: string

definition service_specs :: "service_spec list" where
  "service_specs =
     [\<lparr> sp_name = ''orchestrator'', sp_url = ''http://orchestrator:8080/health'' \<rparr>,
      \<lparr> sp_name = ''kafka'', sp_url = [] \<rparr>,
      \<lparr> sp_name = ''dashboard'', sp_url = ''http://dashboard:3000/'' \<rparr>,
      \<lparr> sp_name = ''artist-portal'', sp_url = ''http://artist-portal:3001/'' \<rparr>,
      \<lparr> sp_name = ''sidecar'', sp_url = [] \<rparr>]"

record service_health =
  sh_name :: string
  sh_docker_state :: string
  sh_docker_health :: string
  sh_http_status :: "int option"
  sh_latency_ms :: "int option"
  sh_detail :: json
  sh_checked_at :: time

text \<open>
  What an HTTP probe meets: the request cannot be built, the request fails, or a response with its
  status, content type and body (\<open>None\<close> when it is not JSON); each with the time taken.
\<close>

datatype http_outcome = BadRequest go_error | RequestFails go_error int | Response int string "json option" int

definition probe_http :: "http_outcome \<Rightarrow> int \<times> int \<times> json" where
  "probe_http r =
     (case r of
        BadRequest e \<Rightarrow> (0, 0, JObj [text_json ''error'' e])
      | RequestFails e ms \<Rightarrow> (0, ms, JObj [text_json ''error'' e])
      | Response status content_type body ms \<Rightarrow>
          (status, ms,
           if content_type = ''application/json'' then case body of None \<Rightarrow> JObj [] | Some b \<Rightarrow> b else JObj []))"

text \<open>Dialling the broker, then its partitions, given by the topic of each.\<close>

datatype kafka_outcome = DialFails go_error | PartitionsFail go_error | Partitions "string list"

definition probe_kafka :: "string \<Rightarrow> kafka_outcome \<Rightarrow> json" where
  "probe_kafka broker r =
     (case r of
        DialFails e \<Rightarrow> JObj [(''reachable'', JBool False), text_json ''error'' e]
      | PartitionsFail e \<Rightarrow> JObj [(''reachable'', JBool True), text_json ''broker'' broker,
          text_json ''error'' (''partitions: '' @ e)]
      | Partitions ts \<Rightarrow> JObj [(''reachable'', JBool True), text_json ''broker'' broker,
          (''partitions'', JInt (int (length ts))),
          (''topicCount'', JObj [(t, JInt (int (count_list ts t))). t \<leftarrow> remdups ts])])"

text \<open>The outside of one probe: Docker's answer (state and health), the broker's and the HTTP one.\<close>

record probe_world =
  pw_now :: time
  pw_docker :: "string \<Rightarrow> go_error + (string \<times> string option) option"
  pw_kafka :: kafka_outcome
  pw_http :: "string \<Rightarrow> http_outcome"

definition docker_part :: "go_error + (string \<times> string option) option \<Rightarrow> (string \<times> string) outcome" where
  "docker_part r =
     (case r of
        Inl e \<Rightarrow> Ret (''unknown'', ''unknown'')
      | Inr None \<Rightarrow> Panic ''nil pointer dereference''
      | Inr (Some (state, health)) \<Rightarrow> Ret (state, case health of None \<Rightarrow> ''none'' | Some h \<Rightarrow> h))"

definition probe_service :: "string \<Rightarrow> probe_world \<Rightarrow> service_spec \<Rightarrow> service_health outcome" where
  "probe_service broker w spec =
     (case docker_part (pw_docker w (sp_name spec)) of
        Panic p \<Rightarrow> Panic p
      | Ret (state, health) \<Rightarrow>
          (let svc = \<lparr> sh_name = sp_name spec, sh_docker_state = state, sh_docker_health = health,
                       sh_http_status = None, sh_latency_ms = None, sh_detail = JObj [],
                       sh_checked_at = pw_now w \<rparr>
           in if sp_name spec = ''kafka'' then Ret (svc\<lparr> sh_detail := probe_kafka broker (pw_kafka w) \<rparr>)
              else if sp_name spec = ''sidecar'' then Ret svc
              else if sp_url spec \<noteq> [] then
                (let (status, latency, detail) = probe_http (pw_http w (sp_url spec))
                 in Ret (svc\<lparr> sh_http_status := Some status, sh_latency_ms := Some latency, sh_detail := detail \<rparr>))
              else Ret svc))"

text \<open>
  The five probes run concurrently and each writes its own slot of the result; \<open>order\<close> is the order
  in which they finish. A panic in a probe ends the process. Every probe has its own view of the
  outside.
\<close>

definition zero_health :: service_health where
  "zero_health = \<lparr> sh_name = [], sh_docker_state = [], sh_docker_health = [], sh_http_status = None,
     sh_latency_ms = None, sh_detail = JNull, sh_checked_at = time_zero \<rparr>"

fun finish_probes ::
    "(nat \<Rightarrow> service_health outcome) \<Rightarrow> nat list \<Rightarrow> service_health list \<Rightarrow> service_health list outcome" where
  "finish_probes probe [] results = Ret results"
| "finish_probes probe (i # order) results =
     (case probe i of Panic p \<Rightarrow> Panic p | Ret h \<Rightarrow> finish_probes probe order (results[i := h]))"

definition services :: "string \<Rightarrow> (nat \<Rightarrow> probe_world) \<Rightarrow> nat list \<Rightarrow> service_health list outcome" where
  "services broker w order =
     finish_probes (\<lambda>i. probe_service broker (w i) (service_specs ! i)) order
       (replicate (length service_specs) zero_health)"

text \<open>The response of the endpoint; the two probe figures are left out when there was no probe.\<close>

definition service_json :: "service_health \<Rightarrow> json" where
  "service_json h = JObj ([text_json ''name'' (sh_name h), text_json ''dockerState'' (sh_docker_state h),
       text_json ''dockerHealth'' (sh_docker_health h)] @
     (case sh_http_status h of None \<Rightarrow> [] | Some s \<Rightarrow> [(''httpStatus'', JInt s)]) @
     (case sh_latency_ms h of None \<Rightarrow> [] | Some l \<Rightarrow> [(''latencyMs'', JInt l)]) @
     [(''detail'', sh_detail h), (''checkedAt'', JTime (sh_checked_at h))])"

definition services_reply :: "string \<Rightarrow> (nat \<Rightarrow> probe_world) \<Rightarrow> nat list \<Rightarrow> sidecar_reply" where
  "services_reply broker w order =
     (case services broker w order of
        Panic p \<Rightarrow> SCrash p
      | Ret hs \<Rightarrow> SJson 200 (JObj [(''services'', JArr (map service_json hs))]))"

section \<open>Kafka\<close>

definition kafka_status :: "string \<Rightarrow> time \<Rightarrow> kafka_outcome \<Rightarrow> sidecar_reply" where
  "kafka_status broker now r =
     (case r of
        DialFails e \<Rightarrow> SJson 200 (JObj [(''reachable'', JBool False), text_json ''error'' e])
      | PartitionsFail e \<Rightarrow> SJson 200 (JObj [(''reachable'', JBool True),
          (''topics'', JObj [text_json ''motion-trigger'' ''error reading partitions''])])
      | Partitions ts \<Rightarrow> SJson 200 (JObj [(''reachable'', JBool True), text_json ''broker'' broker,
          (''partitions'', JInt (int (length ts))), (''checkedAt'', JInt (to_unix now))]))"

record kafka_message =
  km_offset :: int
  km_time :: time
  km_value :: string

definition recent_limit :: "string \<Rightarrow> int" where
  "recent_limit q =
     (if q = [] then 50
      else case atoi q of
             None \<Rightarrow> 50
           | Some n \<Rightarrow> if 0 < n \<and> n \<le> 500 then n else 50)"

text \<open>The read loop: at most \<open>n\<close> messages, until the first error.\<close>

fun read_messages :: "nat \<Rightarrow> (nat \<Rightarrow> go_error + kafka_message) \<Rightarrow> nat \<Rightarrow> kafka_message list" where
  "read_messages 0 reader i = []"
| "read_messages (Suc n) reader i =
     (case reader i of Inl e \<Rightarrow> [] | Inr m \<Rightarrow> m # read_messages n reader (i + 1))"

definition message_json :: "kafka_message \<Rightarrow> json" where
  "message_json m = JObj [(''offset'', JInt (km_offset m)), (''timestamp'', JInt (to_unix (km_time m))),
     text_json ''value'' (km_value m)]"

definition events_json :: "kafka_message list \<Rightarrow> json" where
  "events_json ms = JObj [text_json ''topic'' ''motion-trigger'', (''events'', JArr (map message_json ms)),
     (''count'', JInt (int (length ms)))]"

record reader_config =
  rc_brokers :: "string list"
  rc_topic :: string
  rc_partition :: int
  rc_max_bytes :: int
  rc_max_wait :: duration

definition recent_events_reader_config :: "string \<Rightarrow> reader_config" where
  "recent_events_reader_config broker = \<lparr> rc_brokers = [broker], rc_topic = ''motion-trigger'',
     rc_partition = 0, rc_max_bytes = 1024 * 1024, rc_max_wait = 500 * millisecond \<rparr>"

text \<open>
  \<open>RecentEvents\<close>: the answers are the dial's, the last offset's, the seek's to an offset, and those
  of a reader of the given configuration, from an offset on.
\<close>

definition recent_events ::
    "string \<Rightarrow> string \<Rightarrow> go_error option \<Rightarrow> go_error + int \<Rightarrow> (int \<Rightarrow> go_error option)
       \<Rightarrow> (reader_config \<Rightarrow> int \<Rightarrow> nat \<Rightarrow> go_error + kafka_message) \<Rightarrow> sidecar_reply" where
  "recent_events broker q dial last_offset seek reader =
     (if dial \<noteq> None then SJson 200 (events_json [])
      else case last_offset of
        Inl e \<Rightarrow> SJson 200 (events_json [])
      | Inr newest \<Rightarrow>
          if newest = 0 then SJson 200 (events_json [])
          else
            let start = (if newest - recent_limit q < 0 then 0 else newest - recent_limit q);
                to_read = newest - start
            in if seek start \<noteq> None then SJson 500 (JObj [text_json ''error'' ''failed to seek''])
               else SJson 200 (events_json (read_messages (nat to_read) (reader (recent_events_reader_config broker) start) 0)))"

section \<open>The server\<close>

datatype sidecar_endpoint =
    ListContainers | RestartContainer | GetLogs | GetStats | InspectContainer | KafkaStatus | RecentEvents | Services

definition sidecar_routes :: "(string \<times> string list \<times> sidecar_endpoint) list" where
  "sidecar_routes =
     [(''GET'', [''sidecar'', ''containers''], ListContainers),
      (''POST'', [''sidecar'', ''containers'', ''{name}'', ''restart''], RestartContainer),
      (''GET'', [''sidecar'', ''containers'', ''{name}'', ''logs''], GetLogs),
      (''GET'', [''sidecar'', ''containers'', ''{name}'', ''stats''], GetStats),
      (''GET'', [''sidecar'', ''containers'', ''{name}'', ''inspect''], InspectContainer),
      (''GET'', [''sidecar'', ''kafka'', ''status''], KafkaStatus),
      (''GET'', [''sidecar'', ''kafka'', ''events'', ''recent''], RecentEvents),
      (''GET'', [''sidecar'', ''services'', ''health''], Services)]"

datatype sidecar_routing = SNotFound | SMethodNotAllowed | SUnauthorized | SPreflight | SServe sidecar_endpoint

text \<open>The CORS wrapper is outside the router and answers every \<open>OPTIONS\<close> request itself.\<close>

definition sidecar_route :: "string \<Rightarrow> string list \<Rightarrow> sidecar_endpoint option" where
  "sidecar_route method path =
     map_option (\<lambda>(m, t, ep). ep) (find (\<lambda>(m, t, ep). m = method \<and> path_matches t path) sidecar_routes)"

definition sidecar_dispatch :: "string \<Rightarrow> string \<Rightarrow> string list \<Rightarrow> string \<Rightarrow> sidecar_routing" where
  "sidecar_dispatch admin_key method path bearer =
     (if method = ''OPTIONS'' then SPreflight
      else case sidecar_route method path of
             None \<Rightarrow> if \<exists>(m, t, ep) \<in> set sidecar_routes. path_matches t path then SMethodNotAllowed else SNotFound
           | Some ep \<Rightarrow> if sidecar_authorised admin_key bearer then SServe ep else SUnauthorized)"

definition sidecar_env_or_default :: "(string \<Rightarrow> string) \<Rightarrow> string \<Rightarrow> string \<Rightarrow> string" where
  "sidecar_env_or_default getenv key def = (if getenv key \<noteq> [] then getenv key else def)"

record sidecar =
  sc_admin_key :: string
  sc_broker :: string
  sc_project :: string

text \<open>\<open>main\<close> up to serving on port 9000; \<open>log.Fatal\<close> exits with status 1.\<close>

definition sidecar_main :: "(string \<Rightarrow> string) \<Rightarrow> go_error option \<Rightarrow> nat + sidecar" where
  "sidecar_main getenv docker =
     (if getenv ''ADMIN_KEY'' = [] then Inl 1
      else if docker \<noteq> None then Inl 1
      else Inr \<lparr> sc_admin_key = getenv ''ADMIN_KEY'',
                 sc_broker = sidecar_env_or_default getenv ''KAFKA_BROKER'' ''kafka:9092'',
                 sc_project = sidecar_env_or_default getenv ''COMPOSE_PROJECT'' ''server'' \<rparr>)"

end
