(* ===== verification/Sidecar_Claims.thy ===== *)
theory Sidecar_Claims
  imports Sidecar "HOL-Library.Multiset"
begin

text \<open>
  The properties of the sidecar: who is served, what an inspection reveals, what the recent-events
  endpoint returns, and that the concurrent health probes do not interfere.
\<close>

section \<open>Authorisation\<close>

lemma sidecar_authorised_iff:
  "sidecar_authorised key bearer \<longleftrightarrow>
     bearer = ''Bearer '' @ key \<or> (bearer = key \<and> \<not> has_prefix key ''Bearer '')"
  by (auto simp: sidecar_authorised_def trim_prefix_def has_prefix_iff)

text \<open>
  C33. Every request that a started sidecar serves, other than a CORS preflight, carries the admin
  key: its \<open>Authorization\<close> header is the key with \<open>Bearer\<close> before it, or, which the other
  components do not accept, the bare key. A request without the key reaches no handler whatever its
  method and path, and the sidecar does not start without a key.
\<close>

theorem sidecar_serves_key_holders:
  assumes start: "sidecar_main getenv docker = Inr sc"
  defines "key \<equiv> getenv ''ADMIN_KEY''"
  shows "key \<noteq> [] \<and>
         (sidecar_dispatch (sc_admin_key sc) method path bearer = SServe ep \<longleftrightarrow>
            method \<noteq> ''OPTIONS'' \<and> sidecar_route method path = Some ep \<and>
            (bearer = ''Bearer '' @ key \<or> (bearer = key \<and> \<not> has_prefix key ''Bearer '')))"
proof -
  have k: "sc_admin_key sc = key" and ne: "key \<noteq> []"
    using start by (auto simp: sidecar_main_def key_def split: if_splits)
  show ?thesis
    unfolding k sidecar_dispatch_def sidecar_authorised_iff using ne by (auto split: option.split)
qed

theorem sidecar_serves_key_holders_witness:
  "sidecar_dispatch ''k'' ''POST'' [''sidecar'', ''containers'', ''kafka'', ''restart''] ''Bearer k'' = SServe RestartContainer"
proof -
  have "sidecar_main (\<lambda>v. ''k'') None = Inr \<lparr> sc_admin_key = ''k'', sc_broker = ''k'', sc_project = ''k'' \<rparr>"
    by (simp add: sidecar_main_def sidecar_env_or_default_def)
  moreover have "sidecar_route ''POST'' [''sidecar'', ''containers'', ''kafka'', ''restart''] = Some RestartContainer"
    by code_simp
  ultimately show ?thesis
    using sidecar_serves_key_holders [of "\<lambda>v. ''k''" None _ "''POST''" "[''sidecar'', ''containers'', ''kafka'', ''restart'']"
        "''Bearer k''" RestartContainer] by simp
qed

section \<open>Redaction\<close>

lemma cut_at_key: "fst (cut_at a e) = takeWhile (\<lambda>c. c \<noteq> a) e"
  by (induction e) (auto simp: Let_def case_prod_beta)

lemma cut_at_join: "e = fst (cut_at a e) @ (case snd (cut_at a e) of None \<Rightarrow> [] | Some r \<Rightarrow> a # r)"
  by (induction e) (auto simp: Let_def case_prod_beta split: option.splits)

lemma to_upper_twice: "to_upper (to_upper s) = to_upper s"
proof -
  have "(let n = of_char c :: nat in if 97 \<le> n \<and> n \<le> 122 then char_of (n - 32) else c) = d \<Longrightarrow>
      (let n = of_char d :: nat in if 97 \<le> n \<and> n \<le> 122 then char_of (n - 32) else d) = d" for c d :: char
    by (auto simp: Let_def split: if_splits)
  then show ?thesis by (simp add: to_upper_def)
qed

lemma secret_key_any_case: "to_upper k = to_upper k' \<Longrightarrow> is_secret_env_key k = is_secret_env_key k'"
  by (simp add: is_secret_env_key_def)

text \<open>Two variables that agree but for the value of a secret key.\<close>

definition same_public :: "string \<Rightarrow> string \<Rightarrow> bool" where
  "same_public e e' \<longleftrightarrow> e = e' \<or>
     (fst (cut_at CHR ''='' e) = fst (cut_at CHR ''='' e') \<and> is_secret_env_key (fst (cut_at CHR ''='' e)))"

lemma show_env_same: "same_public e e' \<Longrightarrow> show_env e = show_env e'"
  by (auto simp: same_public_def show_env_def Let_def case_prod_beta)

lemma env_json_same: "list_all2 same_public es es' \<Longrightarrow> env_json es = env_json es'"
proof -
  assume "list_all2 same_public es es'"
  then have "map show_env es = map show_env es'"
    by (induction rule: list_all2_induct) (simp_all add: show_env_same)
  then show ?thesis by (simp add: env_json_def)
qed

text \<open>
  C25. An inspection reveals no secret. The response depends on the value of no environment
  variable whose name contains one of the sensitive fragments in any mixture of cases: changing
  such values, to anything, leaves it the same. Every other variable is shown as it is, so that
  name, equals sign and value make up the original entry again; a name never holds an equals sign.
\<close>

theorem inspection_hides_secrets:
  assumes cfg: "di_config i = Some c" and env: "list_all2 same_public (dc_env c) es'"
    and secret: "to_upper k = to_upper k'" "is_secret_env_key k'"
  shows "inspect_container name (\<lambda>n. Inr (i\<lparr> di_config := Some (c\<lparr> dc_env := es' \<rparr>) \<rparr>)) =
           inspect_container name (\<lambda>n. Inr i) \<and>
         (CHR ''='' \<notin> set k \<longrightarrow> show_env (k @ CHR ''='' # v) = (k, ''[redacted]'')) \<and>
         (let (key, val) = show_env e
          in CHR ''='' \<notin> set key \<and>
             (\<not> is_secret_env_key key \<longrightarrow> e = key @ (if CHR ''='' \<in> set e then CHR ''='' # val else [])))"
proof -
  have "inspect_container name (\<lambda>n. Inr (i\<lparr> di_config := Some (c\<lparr> dc_env := es' \<rparr>) \<rparr>)) =
           inspect_container name (\<lambda>n. Inr i)"
    using cfg env_json_same [OF env] by (simp add: inspect_container_def split: option.split)
  moreover have "CHR ''='' \<notin> set k \<Longrightarrow> show_env (k @ CHR ''='' # v) = (k, ''[redacted]'')"
  proof -
    assume "CHR ''='' \<notin> set k"
    then have "fst (cut_at CHR ''='' (k @ CHR ''='' # v)) = k"
      by (simp add: cut_at_key takeWhile_append)
    moreover have "is_secret_env_key k" using secret secret_key_any_case by blast
    ultimately show ?thesis by (simp add: show_env_def case_prod_beta)
  qed
  moreover have "let (key, val) = show_env e in CHR ''='' \<notin> set key \<and>
      (\<not> is_secret_env_key key \<longrightarrow> e = key @ (if CHR ''='' \<in> set e then CHR ''='' # val else []))"
  proof -
    obtain key rest where cut: "cut_at CHR ''='' e = (key, rest)" by fastforce
    have "CHR ''='' \<notin> set key"
      using cut_at_key [of "CHR ''=''" e] cut by (auto dest: set_takeWhileD)
    with cut_at_join [of e "CHR ''=''"] cut show ?thesis
      by (auto simp: show_env_def Let_def split: option.splits)
  qed
  ultimately show ?thesis by blast
qed


definition example_inspect :: "string \<Rightarrow> docker_inspect" where
  "example_inspect key = \<lparr> di_id = ''0123456789abcdef'', di_name = ''/orchestrator'', di_created = [],
     di_config = Some \<lparr> dc_image = ''hub'', dc_env = [''Api_Key='' @ key, ''PORT=8080''] \<rparr>,
     di_state = Some (''running'', None), di_restart_policy = None, di_ports = Some [], di_mounts = [] \<rparr>"

theorem inspection_hides_secrets_witness:
  "inspect_container ''hub'' (\<lambda>n. Inr (example_inspect ''hunter2'')) =
     inspect_container ''hub'' (\<lambda>n. Inr (example_inspect ''other'')) \<and>
   show_env ''Api_Key=hunter2'' = (''Api_Key'', ''[redacted]'')"
proof -
  have env: "list_all2 same_public [''Api_Key=other'', ''PORT=8080''] [''Api_Key=hunter2'', ''PORT=8080'']"
    and name: "to_upper ''Api_Key'' = to_upper ''API_KEY''" "is_secret_env_key ''API_KEY''"
    by code_simp+
  have cfg: "di_config (example_inspect ''other'') =
      Some \<lparr> dc_image = ''hub'', dc_env = [''Api_Key=other'', ''PORT=8080''] \<rparr>"
    by (simp add: example_inspect_def)
  show ?thesis
    using inspection_hides_secrets [OF cfg _ name, of "[''Api_Key=hunter2'', ''PORT=8080'']" "''hub''" "''hunter2''"] env
    by (simp add: example_inspect_def)
qed

section \<open>Statistics\<close>

text \<open>
  The figures of a container: the CPU share is never negative and never divides by zero, it is the
  exact ratio when both counters grew by less than half their range, and the memory in use is what
  Docker reports without the page cache, never wrapping below zero.
\<close>

lemma stats_bounded:
  "0 \<le> cpu_percent s \<and> memory_used s \<le> ds_memory_usage s \<and>
   (\<forall>c. map_of (ds_memory_stats s) ''cache'' = Some c \<and> c < ds_memory_usage s \<longrightarrow>
      unat (memory_used s) = unat (ds_memory_usage s) - unat c)"
proof -
  have "0 \<le> counter_delta a b" for a b by (simp add: counter_delta_def Let_def)
  then have "0 \<le> cpu_percent s" by (simp add: cpu_percent_def Let_def)
  moreover have "memory_used s \<le> ds_memory_usage s"
    by (auto simp: memory_used_def Let_def word_sub_le split: option.split)
  moreover have "map_of (ds_memory_stats s) ''cache'' = Some c \<Longrightarrow> c < ds_memory_usage s \<Longrightarrow>
      unat (memory_used s) = unat (ds_memory_usage s) - unat c" for c
    by (simp add: memory_used_def unat_sub)
  ultimately show ?thesis by blast
qed

section \<open>Recent events\<close>

lemma recent_limit_range: "1 \<le> recent_limit q \<and> recent_limit q \<le> 500"
  by (auto simp: recent_limit_def split: option.split)

lemma read_messages_all:
  "(\<And>j. j < n \<Longrightarrow> reader (i + j) = Inr (f (i + j))) \<Longrightarrow> read_messages n reader i = map f [i..<i + n]"
proof (induction n arbitrary: i)
  case (Suc n)
  from Suc.prems [of 0] have "reader i = Inr (f i)" by simp
  moreover have "read_messages n reader (i + 1) = map f [i + 1..<i + 1 + n]"
    by (rule Suc.IH) (use Suc.prems [of "Suc _"] in simp)
  moreover have "[i..<i + Suc n] = i # [i + 1..<i + 1 + n]" by (simp add: upt_conv_Cons del: upt_Suc)
  ultimately show ?case by simp
qed simp

text \<open>
  C35. The recent-events endpoint. On a topic with \<open>k > 0\<close> messages, offsets 0 to \<open>k - 1\<close>, whose
  reader delivers what is stored, the response lists exactly the newest ones, oldest first, with
  consecutive offsets that end at \<open>k - 1\<close>: as many as asked for, between 1 and 500, or 50 when the
  query is absent, no number or out of range, or all of them when the topic has fewer. It never
  reads past the end, so it does not wait for messages to come.
\<close>

theorem recent_events_are_newest:
  fixes stored :: "int \<Rightarrow> kafka_message"
  assumes k: "0 < k" and offsets: "\<And>o'. 0 \<le> o' \<Longrightarrow> o' < k \<Longrightarrow> km_offset (stored o') = o'"
    and reader: "\<And>cfg start j. 0 \<le> start \<Longrightarrow> start + int j < k \<Longrightarrow> reader cfg start j = Inr (stored (start + int j))"
    and seek: "\<And>start. 0 \<le> start \<Longrightarrow> start \<le> k \<Longrightarrow> seek start = None"
  shows "\<exists>ms. recent_events broker q None (Inr k) seek reader = SJson 200 (events_json ms) \<and>
           int (length ms) = min k (recent_limit q) \<and> 1 \<le> recent_limit q \<and> recent_limit q \<le> 500 \<and>
           map km_offset ms = [k - int (length ms)..k - 1] \<and>
           ms = map stored [k - int (length ms)..k - 1]"
proof -
  let ?n = "recent_limit q" and ?cfg = "recent_events_reader_config broker"
  define start where "start = (if k - ?n < 0 then 0 else k - ?n)"
  have n: "1 \<le> ?n" "?n \<le> 500" using recent_limit_range by simp_all
  have start: "0 \<le> start" "start \<le> k" "k - start = min k ?n" using k n by (auto simp: start_def)
  let ?ms = "map stored [start..k - 1]"
  have upto: "[start..k - 1] = map (\<lambda>j. start + int j) [0..<nat (k - start)]"
    by (rule nth_equalityI) (auto simp: nth_upto)
  have "read_messages (nat (k - start)) (reader ?cfg start) 0 = map (\<lambda>j. stored (start + int j)) [0..<nat (k - start)]"
    using read_messages_all [of "nat (k - start)" "reader ?cfg start" 0 "\<lambda>j. stored (start + int j)"] reader [OF start(1)]
    by (simp add: zless_nat_eq_int_zless)
  then have "read_messages (nat (k - start)) (reader ?cfg start) 0 = ?ms" by (simp add: upto comp_def)
  then have run: "recent_events broker q None (Inr k) seek reader = SJson 200 (events_json ?ms)"
    using k seek [OF start(1,2)] unfolding start_def recent_events_def Let_def by simp
  have len: "int (length ?ms) = k - start" using start(2) by simp
  then have from_start: "[k - int (length ?ms)..k - 1] = [start..k - 1]" by simp
  have "map km_offset ?ms = [start..k - 1]" using start(1) offsets by (auto intro: map_idI)
  then show ?thesis
    unfolding start(3) [symmetric] len [symmetric] using run n from_start by (intro exI [of _ ?ms]) simp
qed

theorem recent_events_are_newest_witness:
  "\<exists>ms. recent_events ''b'' ''2'' None (Inr 3) (\<lambda>s. None)
            (\<lambda>cfg s j. Inr \<lparr> km_offset = s + int j, km_time = 0, km_value = [] \<rparr>) =
          SJson 200 (events_json ms) \<and> map km_offset ms = [1, 2]"
proof -
  let ?stored = "\<lambda>o'. \<lparr> km_offset = o', km_time = 0, km_value = [] \<rparr> :: kafka_message"
  have two: "recent_limit ''2'' = 2" by code_simp
  obtain ms where ms: "recent_events ''b'' ''2'' None (Inr 3) (\<lambda>s. None) (\<lambda>cfg s j. Inr (?stored (s + int j))) =
      SJson 200 (events_json ms)" "int (length ms) = min 3 (recent_limit ''2'')"
      "map km_offset ms = [3 - int (length ms)..3 - 1]"
    using recent_events_are_newest [of 3 ?stored "\<lambda>cfg s j. Inr (?stored (s + int j))" "\<lambda>s. None" "''b''" "''2''"] by auto
  have "[3 - int (length ms)..3 - 1] = [1, 2]" using ms(2) by (simp add: two upto_rec2)
  with ms show ?thesis by auto
qed

section \<open>Concurrent probes\<close>

definition returned :: "service_health outcome \<Rightarrow> service_health" where
  "returned r = (case r of Ret v \<Rightarrow> v | Panic p \<Rightarrow> zero_health)"

lemma finish_probes_returns:
  assumes "distinct order" and "\<forall>i \<in> set order. \<exists>h. probe i = Ret h"
  shows "finish_probes probe order results =
     Ret (map (\<lambda>j. if j \<in> set order then returned (probe j) else results ! j) [0..<length results])"
  using assms
proof (induction order arbitrary: results)
  case Nil
  then show ?case by (simp add: map_nth)
next
  case (Cons i order)
  then obtain h where h: "probe i = Ret h" by auto
  show ?case
    using Cons.IH [of "results[i := h]"] Cons.prems h
    by (auto simp: returned_def nth_list_update)
qed

lemma finish_probes_panics:
  assumes "\<And>i p. probe i = Panic p \<Longrightarrow> p = q" and "\<exists>i \<in> set order. probe i = Panic q"
  shows "finish_probes probe order results = Panic q"
  using assms(2)
  by (induction order arbitrary: results) (auto dest: assms(1) split: outcome.split)

lemma probe_panic: "probe_service broker w spec = Panic p \<Longrightarrow> p = ''nil pointer dereference''"
  by (auto simp: probe_service_def docker_part_def Let_def case_prod_beta split: outcome.splits sum.splits option.splits if_splits)

lemma probe_name: "probe_service broker w spec = Ret h \<Longrightarrow> sh_name h = sp_name spec"
  by (auto simp: probe_service_def Let_def case_prod_beta split: outcome.splits if_splits)

lemma finish_probes_order:
  assumes "mset order = mset order'" and "distinct order" and "\<And>i p. probe i = Panic p \<Longrightarrow> p = q"
  shows "finish_probes probe order results = finish_probes probe order' results"
proof -
  have same: "set order' = set order" "distinct order'"
    using assms(1,2) by (metis mset_eq_setD, metis mset_eq_imp_distinct_iff)
  show ?thesis
  proof (cases "\<forall>i \<in> set order. \<exists>h. probe i = Ret h")
    case True
    then show ?thesis
      by (simp add: finish_probes_returns [OF assms(2)] finish_probes_returns [OF same(2)] same(1))
  next
    case False
    then obtain i p where "i \<in> set order" "probe i = Panic p" by (metis outcome.exhaust)
    then have "\<exists>i \<in> set order. probe i = Panic q" using assms(3) by blast
    then show ?thesis using finish_probes_panics [OF assms(3)] same(1) by simp
  qed
qed

lemma probe_panics_iff:
  "(\<exists>p. probe_service broker w spec = Panic p) \<longleftrightarrow> pw_docker w (sp_name spec) = Inr None"
  by (auto simp: probe_service_def docker_part_def Let_def case_prod_beta split: sum.split option.split)

lemma services_return:
  assumes dist: "distinct order" and set: "set order = {0..<length service_specs}"
    and state: "\<forall>i < length service_specs. pw_docker (w i) (sp_name (service_specs ! i)) \<noteq> Inr None"
  shows "\<exists>hs. services broker w order = Ret hs \<and> map sh_name hs = map sp_name service_specs \<and>
           (\<forall>i < length service_specs. probe_service broker (w i) (service_specs ! i) = Ret (hs ! i))"
proof -
  let ?n = "length service_specs" and ?probe = "\<lambda>i. probe_service broker (w i) (service_specs ! i)"
  let ?hs = "map (\<lambda>j. returned (?probe j)) [0..<?n]"
  have ret: "i < ?n \<Longrightarrow> \<exists>h. ?probe i = Ret h" for i
    using state probe_panics_iff by (metis outcome.exhaust)
  then have "services broker w order = Ret ?hs"
    unfolding services_def using finish_probes_returns [OF dist, of ?probe] set by (simp cong: map_cong)
  moreover have each: "i < ?n \<Longrightarrow> ?probe i = Ret (returned (?probe i))" for i
    using ret by (force simp: returned_def)
  moreover have "map sh_name ?hs = map sp_name service_specs"
    by (rule nth_equalityI) (use each probe_name in \<open>auto simp: nth_append\<close>)
  ultimately show ?thesis by (intro exI [of _ ?hs]) simp
qed

lemma services_panic:
  assumes "set order = {0..<length service_specs}"
    and "\<exists>i < length service_specs. pw_docker (w i) (sp_name (service_specs ! i)) = Inr None"
  shows "services broker w order = Panic ''nil pointer dereference''"
proof -
  have "\<exists>i \<in> set order. probe_service broker (w i) (service_specs ! i) = Panic ''nil pointer dereference''"
    using assms unfolding probe_panics_iff [symmetric, where broker = broker]
    by (metis atLeast0LessThan lessThan_iff probe_panic)
  then show ?thesis
    unfolding services_def by (intro finish_probes_panics) (auto dest: probe_panic)
qed

text \<open>
  C34. The health endpoint is deterministic although its five probes run concurrently: whatever
  the order in which they finish, the answer is that of running them one after the other, with
  one entry per service, in the order of the list, each the result of its own probe. The only
  failure is a container description without a state, which ends the process in every order.
\<close>

theorem services_any_order:
  assumes order: "mset order = mset [0..<length service_specs]"
  shows "services broker w order = services broker w [0..<length service_specs] \<and>
         (\<forall>hs. services broker w order = Ret hs \<longrightarrow>
            map sh_name hs = [''orchestrator'', ''kafka'', ''dashboard'', ''artist-portal'', ''sidecar''] \<and>
            (\<forall>i < length service_specs. probe_service broker (w i) (service_specs ! i) = Ret (hs ! i))) \<and>
         ((\<exists>i < length service_specs. pw_docker (w i) (sp_name (service_specs ! i)) = Inr None) \<longleftrightarrow>
            services broker w order = Panic ''nil pointer dereference'')"
proof -
  let ?n = "length service_specs"
  have set: "set order = {0..<?n}" and dist: "distinct order"
    using order by (metis mset_eq_setD set_upt, metis mset_eq_imp_distinct_iff distinct_upt)
  have same: "services broker w order = services broker w [0..<?n]"
    unfolding services_def
    by (rule finish_probes_order [where probe = "\<lambda>i. probe_service broker (w i) (service_specs ! i)", OF order dist])
      (rule probe_panic)
  have names: "map sp_name service_specs = [''orchestrator'', ''kafka'', ''dashboard'', ''artist-portal'', ''sidecar'']"
    by (simp add: service_specs_def)
  show ?thesis
  proof (cases "\<exists>i < ?n. pw_docker (w i) (sp_name (service_specs ! i)) = Inr None")
    case True
    note run = services_panic [OF set True, of broker]
    show ?thesis unfolding run using True same [unfolded run, symmetric] by simp
  next
    case False
    then obtain hs where hs: "services broker w order = Ret hs" "map sh_name hs = map sp_name service_specs"
        "\<forall>i < ?n. probe_service broker (w i) (service_specs ! i) = Ret (hs ! i)"
      using services_return [OF dist set, of w broker] by auto
    from False same [unfolded hs(1), symmetric] hs(2,3) show ?thesis unfolding hs(1) names by auto
  qed
qed

theorem services_any_order_witness:
  "services ''b'' (\<lambda>i. \<lparr> pw_now = 0, pw_docker = (\<lambda>n. Inl ''gone''), pw_kafka = DialFails ''x'',
      pw_http = (\<lambda>u. BadRequest ''y'') \<rparr>) [4, 2, 0, 1, 3] =
   services ''b'' (\<lambda>i. \<lparr> pw_now = 0, pw_docker = (\<lambda>n. Inl ''gone''), pw_kafka = DialFails ''x'',
      pw_http = (\<lambda>u. BadRequest ''y'') \<rparr>) [0..<length service_specs]"
proof -
  have "mset [4, 2, 0, 1, 3] = mset [0..<length service_specs]"
    by (simp add: service_specs_def upt_rec numeral_eq_Suc)
  then show ?thesis by (rule services_any_order [THEN conjunct1])
qed

end
