(* ===== verification/Spec2Isabelle.thy ===== *)
theory Spec2Isabelle
  imports Proto_Wire Replay_Cache Server_Claims Server_Shutdown Approval_Race Server_Frames Sim_Hub Api_Claims Event_Stream
    Http_Metrics Hub_Claims Sidecar_Claims
begin

text \<open>
  Verification of the server side of lattice-hub: the orchestrator (\<open>src/server/orchestrator\<close>), which
  talks to a mesh of radio nodes over a serial link and offers an HTTP API, the mesh simulator that
  takes the place of the radio (\<open>meshsim/\<close>, \<open>cmd/mesh-sim\<close>), and the sidecar (\<open>src/server/sidecar\<close>),
  an HTTP service about containers and Kafka. All of it is Go.

  \<^bold>\<open>The program.\<close> A node broadcasts a join request; the hub keeps it pending until an administrator
  approves it, then answers with a \<open>JOIN_ACK\<close> and the node's id. Enrolled nodes send motion, health
  and route reports, from which the hub keeps a node registry, publishes live events to subscribers
  of an event stream, and writes to Kafka. Commands go the other way as broadcasts that carry a
  two-byte token, which nodes echo. Two masters may be attached; the hub sends on the secondary
  link when the primary is silent.

  \<^bold>\<open>Theories, bottom up.\<close>
  \<^item> \<open>Hub_Prelude\<close>: machine integers, byte slices, time, Go maps as association lists in iteration
    order, panics; the generic lemmas on them. \<open>Go_Strings\<close>: \<open>fmt\<close>, \<open>strconv\<close>, \<open>strings\<close>, \<open>hex\<close>, JSON values,
    route templates. \<open>Table_Store\<close>: registries kept in a JSON file, the save loops, with the locale
    \<open>persisted_table\<close> that the three registries interpret.
  \<^item> \<open>Mac_Address\<close>: every MAC printer and parser, and the locale \<open>mac_codec\<close> with one interpretation for
    each pair (\<open>nodeauth/registry.go\<close>, \<open>mesh/node_registry.go\<close>, \<open>envconfig.go\<close>, \<open>meshsim/config.go\<close>).
  \<^item> \<open>Mesh_Message\<close> (\<open>mesh/constants.go\<close>, \<open>message_builder.go\<close>), \<open>Serial_Link\<close> (\<open>mesh/serial.go\<close>, over a locale
    for the codec), \<open>Proto_Wire\<close> (the protobuf encoding that \<open>mesh.pb.go\<close> stands for, interpreting it).
  \<^item> \<open>Node_Registry\<close>, \<open>Auth_Registry\<close>, \<open>Zone_Registry\<close>, \<open>Replay_Cache\<close>, \<open>Command_Store\<close>, \<open>Event_Broker\<close>,
    \<open>Event_Store\<close>, \<open>Master_Key\<close>: one per Go file of \<open>mesh/\<close>, \<open>nodeauth/\<close> and \<open>eventStore/\<close>, with its record,
    its operations, its invariant and its properties.
  \<^item> \<open>Mesh_Server\<close> and \<open>Server_Handlers\<close> (\<open>mesh/server.go\<close>): the server's state, life cycle, links, enrollment,
    handlers and receive loop. \<open>Server_Props\<close>: the invariant and the step relation over all of its
    operations. \<open>Server_Claims\<close>: what holds in every run. \<open>Server_Shutdown\<close>: the goroutines of a running
    server and the mutex that \<open>Stop\<close> holds while it waits for them, step by step in any schedule, and
    two writers on one port, up to what the simulator at the other end makes of their bytes.
    \<open>Approval_Race\<close>: approvals that overlap, call by call, and the uniqueness of node ids.
    \<open>Server_Frames\<close>: the frames that any operation sends, and the link each takes.
  \<^item> \<open>Mesh_Api\<close> (\<open>mesh/api*.go\<close>, \<open>middleware.go\<close>, \<open>cors.go\<close>), \<open>Api_Claims\<close>, \<open>Event_Stream\<close> (\<open>api_v1_events.go\<close> and
    the HTTP server's timeouts), \<open>Http_Metrics\<close> (\<open>mesh/metrics.go\<close>).
  \<^item> \<open>Hub_Main\<close> and \<open>Hub_Claims\<close> (\<open>main.go\<close>, \<open>envconfig.go\<close>): configuration, start, shutdown and restart.
  \<^item> \<open>Sim_Node\<close>, \<open>Mesh_Sim\<close> (\<open>meshsim/\<close>, \<open>cmd/mesh-sim\<close>), \<open>Sim_Props\<close> (step relation and invariant),
    \<open>Sim_Loops\<close> (the locale \<open>node_loop\<close> of the loops over the node map), \<open>Sim_Claims\<close>; and \<open>Sim_Hub\<close>, where
    the simulator and the hub run against each other.
  \<^item> \<open>Sidecar\<close> and \<open>Sidecar_Claims\<close> (\<open>src/server/sidecar\<close>).

  \<^bold>\<open>How the code is modelled.\<close> A struct is a record, an error a value, a panic the
  constructor \<open>Panic\<close> of \<open>outcome\<close> (or \<open>Crash\<close> of a response). State is
  passed explicitly. The clock, the disk, the random source, the serial ports, Docker, the Kafka client and the
  curve operation are arguments; what the program writes to the outside is logged in the state
  (\<open>ms_tx\<close>, \<open>ms_events\<close>, \<open>ms_kafka_writes\<close>, \<open>sim_tx\<close>). A
  handler, a request and a pass of a loop are one step each, so a run is a sequence of operations in any order,
  the step relations \<open>server_step\<close> and \<open>sim_step\<close> (the offline detector, which copies
  the nodes before it takes the mutex, checks any earlier copy). Where operations interleave more finely the
  steps are smaller: \<open>run_step\<close> for the goroutines during \<open>Stop\<close>,
  \<open>pool_step\<close> for overlapping approvals, \<open>bus_step\<close> for the event broker, the shuffles
  of the writes of two frames, and the orders of the sidecar's probes. The runs that \<open>run_step\<close>
  allows need no fuel: \<open>distance\<close> bounds them where \<open>Stop\<close> returns. Integers have
  their width where it matters; durations saturate and wrap as Go's do. Loops that may not end are partial
  functions (\<open>ensure_topics_loop\<close>); the Kafka connection loop ends after three attempts by its
  measure.

  \<^bold>\<open>What is shown.\<close> Trust: no frame grants it, a key is trusted exactly when the history of
  offers and decisions says so, it survives a restart of the registry and of the whole hub, and a node can
  always get it. Identity: two active nodes share an id only while one of them is being approved in place of
  the other, as long as no two approvals overlap between the choice of an id and the retirement of the
  replaced node and no other operation on the registries runs in that part; approvals that do overlap can
  share an id for good, which is proved too. Reports never change an identity, and each \<open>JOIN_ACK\<close>, in every
  interleaving, carries the configured identity of the hub. Events: online and offline balance, a
  subscriber's stream is faithful, nothing panics in the broker, and the Kafka failure counters move by exactly
  the messages that were lost, whatever the order in which deliveries complete. Composition: a virtual node
  joins and reports through the real handlers and frames, and a command marks exactly itself and is
  acknowledged once by each live node of its type. Transport: frames round-trip over the protobuf encoding, and
  each frame takes the link that the failover rule names, except for the hot-swap configuration, which
  always takes the primary.
  Access: each HTTP endpoint of the hub and of the sidecar is served exactly to the holder of its key, and an
  inspection shows no secret. Bounds and errors: retry back-off, the replay window, read
  limits, and the error behaviours that the code has but does not mean to have (the restart after a stop, a stop
  that waits for itself, commands lost to concurrent writers, ids shared by approvals that overlap, the event
  stream cut off by the write timeout, the serial gauge, bare-hexadecimal entries, misspelt simulator
  addresses).

  \<^bold>\<open>Not modelled.\<close> The serial driver, sockets and HTTP transport beyond the calls made on them; the
  router's choice between 404 and 405; the Prometheus, Kafka, Docker and protobuf libraries beyond what
  is stated above; log texts; data races on single fields and, but for \<open>ApproveEnrollment\<close>, the release of
  a mutex in the middle of a handler. Strings are bytes, and case conversions are those of ASCII. The firmware adapters
  and the generated table of output types are third-party: \<open>is_output\<close> is an argument. The web
  applications, scripts and deployment files are in other languages.
\<close>

end
